theory Spec2Isabelle
  imports Complex_Main
begin

section \<open>Closed-form eigenvalues and singular values of small dense matrices\<close>

text \<open>
  This theory embeds the analytic 1x1, 2x2 and 3x3 kernels of
  \<^verbatim>\<open>linalg/densemat.cpp\<close>: \<^verbatim>\<open>Eigenvalues2S\<close>, \<^verbatim>\<open>Eigensystem2S\<close>,
  \<^verbatim>\<open>vec_normalize3\<close>, \<^verbatim>\<open>KernelVector2G\<close>, \<^verbatim>\<open>KernelVector3G_aux\<close>,
  \<^verbatim>\<open>KernelVector3S\<close>, \<^verbatim>\<open>Reduce3S\<close>, \<^verbatim>\<open>GetScalingFactor\<close>,
  \<^verbatim>\<open>DenseMatrix::CalcSingularvalue\<close> and \<^verbatim>\<open>DenseMatrix::CalcEigenvalues\<close>.

  Arithmetic models. There are two. In the first one a C++ \<^verbatim>\<open>double\<close> is a
  \<^typ>\<open>real\<close> and every operation is exact; the library functions are their mathematical
  counterparts (\<^verbatim>\<open>sqrt\<close>, \<^verbatim>\<open>cos\<close>, \<^verbatim>\<open>acos\<close> as \<^const>\<open>arccos\<close>, \<^verbatim>\<open>M_PI\<close> as
  \<^const>\<open>pi\<close>). Rounding, overflow and NaN are outside this model, and a theorem about it is
  a statement about the control flow and the algebra of the code. The sign of a zero is
  modelled where the code computes one and reads its sign: the quotient \<open>zeta\<close> of the 2x2
  eigen routines, which \<^verbatim>\<open>copysign\<close> inspects. An input is never the IEEE negative zero.
  In the second model, used for the 3x3 branch of \<^verbatim>\<open>CalcSingularvalue\<close>, a \<^verbatim>\<open>double\<close>
  is still a \<^typ>\<open>real\<close> but the result of every arithmetic operation is rounded to
  binary64; the definitions of that model carry the suffix \<open>_b64\<close>. The order of the
  singular values is a property that holds in the first model and fails in the second.
  Reference parameters that a function overwrites are returned as components of its
  result.
\<close>

subsection \<open>Library primitives\<close>

definition fabs :: "real \<Rightarrow> real" where
  "fabs x = \<bar>x\<bar>"

text \<open>\<^verbatim>\<open>copysign(x, y)\<close>: the magnitude of \<open>x\<close> with the sign of \<open>y\<close>, for an argument
  \<open>y\<close> that is not the IEEE negative zero: a real zero stands for \<open>+0.0\<close>.\<close>

definition copysign :: "real \<Rightarrow> real \<Rightarrow> real" where
  "copysign x y = (if 0 \<le> y then \<bar>x\<bar> else - \<bar>x\<bar>)"

text \<open>The sign bit of the IEEE quotient \<open>n / d\<close> (\<open>d\<close> not zero, \<open>n\<close> not the negative
  zero): it is set when the quotient is negative, and also when \<open>n\<close> is zero and \<open>d\<close> is
  negative, because \<open>0.0 / d\<close> is then \<open>-0.0\<close>. \<^verbatim>\<open>copysign(x, q)\<close> of a computed quotient
  \<open>q\<close> reads this bit.\<close>

definition signbit_quotient :: "real \<Rightarrow> real \<Rightarrow> bool" where
  "signbit_quotient n d = (n / d < 0 \<or> n = 0 \<and> d < 0)"

definition copysign_signbit :: "real \<Rightarrow> bool \<Rightarrow> real" where
  "copysign_signbit x negative = (if negative then - \<bar>x\<bar> else \<bar>x\<bar>)"

definition hypot :: "real \<Rightarrow> real \<Rightarrow> real" where
  "hypot x y = sqrt (x * x + y * y)"

text \<open>\<^verbatim>\<open>numeric_limits<double>\<close>: epsilon, max_exponent and radix of IEEE binary64.\<close>

definition epsilon :: real where
  "epsilon = 1 / 2 ^ 52"

definition max_exponent :: int where
  "max_exponent = 1024"

definition radix :: real where
  "radix = 2"

definition M_PI :: real where
  "M_PI = pi"

text \<open>\<^verbatim>\<open>frexp(x, &e)\<close>: the mantissa in \<open>[1/2, 1)\<close> (by magnitude) and the binary
  exponent \<open>e\<close> with \<open>x = mantissa * 2^e\<close>; both are zero for \<open>x = 0\<close>.\<close>

definition frexp :: "real \<Rightarrow> real \<times> int" where
  "frexp x = (if x = 0 then (0, 0)
              else (let e = \<lfloor>log 2 \<bar>x\<bar>\<rfloor> + 1 in (x / 2 powi e, e)))"

text \<open>\<^verbatim>\<open>static const double sqrt_1_eps = sqrt(1./numeric_limits<double>::epsilon());\<close>\<close>

definition sqrt_1_eps :: real where
  "sqrt_1_eps = sqrt (1 / epsilon)"

subsection \<open>The 2x2 symmetric eigenproblem\<close>

text \<open>\<^verbatim>\<open>Eigenvalues2S(d12, d1, d2)\<close> overwrites \<open>d1\<close> and \<open>d2\<close>; the result is the
  pair of their final values. The quotient \<open>zeta\<close> is zero when \<open>d1 = d2\<close>, and
  \<^verbatim>\<open>copysign(., zeta)\<close> then reads the sign of that IEEE zero: \<open>zeta_negative\<close> is the sign
  bit of \<open>zeta\<close>, the difference \<open>d2 - d1\<close> of equal numbers being \<open>+0.0\<close>.\<close>

definition Eigenvalues2S :: "real \<Rightarrow> real \<Rightarrow> real \<Rightarrow> real \<times> real" where
  "Eigenvalues2S d12 d1 d2 =
     (if d12 \<noteq> 0 then
        (let zeta = (d2 - d1) / (2 * d12);
             zeta_negative = signbit_quotient (d2 - d1) (2 * d12);
             t = (if fabs zeta < sqrt_1_eps
                  then d12 * copysign_signbit (1 / (fabs zeta + sqrt (1 + zeta * zeta)))
                               zeta_negative
                  else d12 * copysign_signbit (0.5 / fabs zeta) zeta_negative)
         in (d1 - t, d2 + t))
      else (d1, d2))"

text \<open>\<^verbatim>\<open>Eigensystem2S(d12, d1, d2, c, s)\<close>: the final values of \<open>(d1, d2, c, s)\<close>.\<close>

definition Eigensystem2S :: "real \<Rightarrow> real \<Rightarrow> real \<Rightarrow> real \<times> real \<times> real \<times> real" where
  "Eigensystem2S d12 d1 d2 =
     (if d12 = 0 then (d1, d2, 1, 0)
      else
        (let zeta = (d2 - d1) / (2 * d12);
             zeta_negative = signbit_quotient (d2 - d1) (2 * d12);
             t = (if fabs zeta < sqrt_1_eps
                  then copysign_signbit (1 / (fabs zeta + sqrt (1 + zeta * zeta))) zeta_negative
                  else copysign_signbit (0.5 / fabs zeta) zeta_negative);
             c = sqrt (1 / (1 + t * t));
             s = c * t;
             t = t * d12
         in (d1 - t, d2 + t, c, s)))"

subsection \<open>Normalisation of a 3-vector\<close>

definition vec_normalize3_aux :: "real \<Rightarrow> real \<Rightarrow> real \<Rightarrow> real \<times> real \<times> real" where
  "vec_normalize3_aux x1 x2 x3 =
     (let m = fabs x1;
          r = x2 / m;
          t = 1 + r * r;
          r = x3 / m;
          t = sqrt (1 / (t + r * r));
          n1 = copysign t x1;
          t = t / m;
          n2 = x2 * t;
          n3 = x3 * t
      in (n1, n2, n3))"

definition vec_normalize3 :: "real \<Rightarrow> real \<Rightarrow> real \<Rightarrow> real \<times> real \<times> real" where
  "vec_normalize3 x1 x2 x3 =
     (if fabs x1 \<ge> fabs x2 then
        (if fabs x1 \<ge> fabs x3 then
           (if x1 \<noteq> 0 then vec_normalize3_aux x1 x2 x3 else (0, 0, 0))
         else (case vec_normalize3_aux x3 x1 x2 of (n3, n1, n2) \<Rightarrow> (n1, n2, n3)))
      else if fabs x2 \<ge> fabs x3 then
        (case vec_normalize3_aux x2 x1 x3 of (n2, n1, n3) \<Rightarrow> (n1, n2, n3))
      else (case vec_normalize3_aux x3 x1 x2 of (n3, n1, n2) \<Rightarrow> (n1, n2, n3)))"

subsection \<open>Kernel vector of a general 2x2 matrix\<close>

text \<open>The pivoting prologue of \<^verbatim>\<open>KernelVector2G\<close>: the entries \<open>(d1, d12, d21, d2)\<close>
  after the swaps, for the case in which the function does not return early.\<close>

definition KernelVector2G_pivot ::
  "int \<Rightarrow> bool \<Rightarrow> real \<Rightarrow> real \<Rightarrow> real \<Rightarrow> real \<Rightarrow> real \<times> real \<times> real \<times> real" where
  "KernelVector2G_pivot mode swap_columns d1 d12 d21 d2 =
     (if \<not> swap_columns then
        (if mode = 0 then
           (if fabs d1 > fabs d21 then (d21, d2, d1, d12) else (d1, d12, d21, d2))
         else
           (if fabs d1 < fabs d21 then (d21, d2, d1, d12) else (d1, d12, d21, d2)))
      else
        (if mode = 0 then
           (if fabs d12 > fabs d2 then (d2, d21, d12, d1) else (d12, d1, d2, d21))
         else
           (if fabs d12 < fabs d2 then (d2, d21, d12, d1) else (d12, d1, d2, d21))))"

text \<open>The Householder step of \<^verbatim>\<open>KernelVector2G\<close> that eliminates \<open>d21\<close>: the new
  \<open>(d1, d12, d2)\<close>.\<close>

definition KernelVector2G_eliminate ::
  "real \<Rightarrow> real \<Rightarrow> real \<Rightarrow> real \<Rightarrow> real \<times> real \<times> real" where
  "KernelVector2G_eliminate d1 d12 d21 d2 =
     (let n1 = hypot d1 d21 in
      if d21 \<noteq> 0 then
        (let mu = copysign n1 d1;
             n1 = - d21 * (d21 / (d1 + mu));
             d1 = mu
         in if fabs n1 \<le> fabs d21 then
              (let n1 = n1 / d21;
                   mu = (2 / (1 + n1 * n1)) * (n1 * d12 + d2);
                   d2 = d2 - mu;
                   d12 = d12 - mu * n1
               in (d1, d12, d2))
            else
              (let n2 = d21 / n1;
                   mu = (2 / (1 + n2 * n2)) * (d12 + n2 * d2);
                   d2 = d2 - mu * n2;
                   d12 = d12 - mu
               in (d1, d12, d2)))
      else (d1, d12, d2))"

text \<open>The triangular solve that ends \<^verbatim>\<open>KernelVector2G\<close>: the vector \<open>(z1, z2)\<close>
  left in \<open>(d1, d2)\<close> before the final column swap.\<close>

definition KernelVector2G_solve :: "real \<Rightarrow> real \<Rightarrow> real \<Rightarrow> real \<times> real" where
  "KernelVector2G_solve d1 d12 d2 =
     (let mu = - d12 / d1;
          n2 = 1 / (1 + fabs mu)
      in if fabs d1 \<le> n2 * fabs d2 then (1, 0) else (mu * n2, n2))"

text \<open>\<^verbatim>\<open>KernelVector2G(mode, d1, d12, d21, d2)\<close>: the returned flag and the final
  values of \<open>(d1, d12, d21, d2)\<close>.\<close>

definition KernelVector2G ::
  "int \<Rightarrow> real \<Rightarrow> real \<Rightarrow> real \<Rightarrow> real \<Rightarrow> bool \<times> real \<times> real \<times> real \<times> real" where
  "KernelVector2G mode d1 d12 d21 d2 =
     (let n1 = fabs d1 + fabs d21;
          n2 = fabs d2 + fabs d12;
          swap_columns = (n2 > n1)
      in if \<not> swap_columns \<and> n1 = 0 then (True, d1, d12, d21, d2)
         else
           (case KernelVector2G_pivot mode swap_columns d1 d12 d21 d2 of
              (d1, d12, d21, d2) \<Rightarrow>
                (case KernelVector2G_eliminate d1 d12 d21 d2 of
                   (d1, d12, d2) \<Rightarrow>
                     (case KernelVector2G_solve d1 d12 d2 of
                        (z1, z2) \<Rightarrow>
                          if swap_columns then (False, z2, d12, d21, z1)
                          else (False, z1, d12, d21, z2)))))"

subsection \<open>Kernel vector of a 3x3 matrix\<close>

text \<open>The Householder step of \<^verbatim>\<open>KernelVector3G_aux\<close> that eliminates the first column
  below the pivot: the new \<open>(d1, d2, d3, c12, c13, c23, c32)\<close>. The three inner blocks
  are the ones the source reaches as "n1 is max", "c21 is max" and "c31 is max".\<close>

definition KernelVector3G_eliminate ::
  "real \<Rightarrow> real \<Rightarrow> real \<Rightarrow> real \<Rightarrow> real \<Rightarrow> real \<Rightarrow> real \<Rightarrow> real \<Rightarrow> real \<Rightarrow>
   real \<times> real \<times> real \<times> real \<times> real \<times> real \<times> real" where
  "KernelVector3G_eliminate d1 d2 d3 c12 c13 c23 c21 c31 c32 =
     (let s1 = hypot c21 c31;
          n1 = hypot d1 s1
      in if s1 \<noteq> 0 then
           (let mu = copysign n1 d1;
                n1 = - s1 * (s1 / (d1 + mu));
                d1 = mu
            in if fabs n1 \<ge> fabs c21 \<and> fabs n1 \<ge> fabs c31 then
                 (let s2 = c21 / n1;
                      s3 = c31 / n1;
                      mu = 2 / (1 + s2 * s2 + s3 * s3);
                      n2 = mu * (c12 + s2 * d2 + s3 * c32);
                      n3 = mu * (c13 + s2 * c23 + s3 * d3)
                  in (d1, d2 - s2 * n2, d3 - s3 * n3,
                      c12 - n2, c13 - n3, c23 - s2 * n3, c32 - s3 * n2))
               else if \<not> fabs n1 \<ge> fabs c21 \<and> fabs c21 \<ge> fabs c31 then
                 (let s1 = n1 / c21;
                      s3 = c31 / c21;
                      mu = 2 / (1 + s1 * s1 + s3 * s3);
                      n2 = mu * (s1 * c12 + d2 + s3 * c32);
                      n3 = mu * (s1 * c13 + c23 + s3 * d3)
                  in (d1, d2 - n2, d3 - s3 * n3,
                      c12 - s1 * n2, c13 - s1 * n3, c23 - n3, c32 - s3 * n2))
               else
                 (let s1 = n1 / c31;
                      s2 = c21 / c31;
                      mu = 2 / (1 + s1 * s1 + s2 * s2);
                      n2 = mu * (s1 * c12 + s2 * d2 + c32);
                      n3 = mu * (s1 * c13 + s2 * c23 + d3)
                  in (d1, d2 - s2 * n2, d3 - n3,
                      c12 - s1 * n2, c13 - s1 * n3, c23 - s2 * n3, c32 - n2)))
         else (d1, d2, d3, c12, c13, c23, c32))"

text \<open>\<^verbatim>\<open>KernelVector3G_aux\<close>: the returned \<open>kdim\<close> and the final \<open>(d1, d2, d3)\<close>.\<close>

definition KernelVector3G_aux ::
  "int \<Rightarrow> real \<Rightarrow> real \<Rightarrow> real \<Rightarrow> real \<Rightarrow> real \<Rightarrow> real \<Rightarrow> real \<Rightarrow> real \<Rightarrow> real \<Rightarrow>
   int \<times> real \<times> real \<times> real" where
  "KernelVector3G_aux mode d1 d2 d3 c12 c13 c23 c21 c31 c32 =
     (case KernelVector3G_eliminate d1 d2 d3 c12 c13 c23 c21 c31 c32 of
        (d1, d2, d3, c12, c13, c23, c32) \<Rightarrow>
          (case KernelVector2G mode d2 c23 c32 d3 of
             (zero, z2, c23, c32, z3) \<Rightarrow>
               if zero then
                 (case vec_normalize3 1 (c12 / d1) (c13 / d1) of
                    (n1, n2, n3) \<Rightarrow> (2, n1, n2, n3))
               else
                 (case vec_normalize3 (- (c12 * z2 + c13 * z3) / d1) z2 z3 of
                    (n1, n2, n3) \<Rightarrow> (1, n1, n2, n3))))"

text \<open>Column pivoting of \<^verbatim>\<open>KernelVector3S\<close>: the chosen column and its l1-norm.\<close>

definition KernelVector3S_col :: "real \<Rightarrow> real \<Rightarrow> real \<Rightarrow> real \<Rightarrow> real \<Rightarrow> real \<Rightarrow> int \<times> real" where
  "KernelVector3S_col d12 d13 d23 d1 d2 d3 =
     (let c32 = fabs d1 + fabs d12 + fabs d13;
          c31 = fabs d2 + fabs d12 + fabs d23;
          c21 = fabs d3 + fabs d13 + fabs d23
      in if c32 \<ge> c21 then (if c32 \<ge> c31 then (1, c32) else (2, c31))
         else (if c31 \<ge> c21 then (2, c31) else (3, c21)))"

text \<open>Row pivoting of \<^verbatim>\<open>KernelVector3S\<close>, on the column-permuted entries.\<close>

definition KernelVector3S_row :: "int \<Rightarrow> real \<Rightarrow> real \<Rightarrow> real \<Rightarrow> int" where
  "KernelVector3S_row mode d1 c12 c13 =
     (if mode = 0 then
        (if fabs d1 \<le> fabs c13 then (if fabs d1 \<le> fabs c12 then 1 else 2)
         else (if fabs c12 \<le> fabs c13 then 2 else 3))
      else
        (if fabs d1 \<ge> fabs c13 then (if fabs d1 \<ge> fabs c12 then 1 else 2)
         else (if fabs c12 \<ge> fabs c13 then 2 else 3)))"

text \<open>\<^verbatim>\<open>KernelVector3S(mode, d12, d13, d23, d1, d2, d3)\<close>: the returned kernel
  dimension and the final \<open>(d1, d2, d3)\<close>. On the early return 3 the triple holds the
  unchanged input diagonal, which the source documents as not defined.\<close>

definition KernelVector3S ::
  "int \<Rightarrow> real \<Rightarrow> real \<Rightarrow> real \<Rightarrow> real \<Rightarrow> real \<Rightarrow> real \<Rightarrow> int \<times> real \<times> real \<times> real" where
  "KernelVector3S mode d12 d13 d23 d1 d2 d3 =
     (case KernelVector3S_col d12 d13 d23 d1 d2 d3 of
        (col, colnorm) \<Rightarrow>
          if colnorm = 0 then (3, d1, d2, d3)
          else
            (case (if col = 1 then (d12, d13, d23, d1, d2, d3)
                   else if col = 2 then (d12, d23, d13, d2, d1, d3)
                   else (d23, d13, d12, d3, d2, d1)) of
               (c12, c13, c23, d1, d2, d3) \<Rightarrow>
                 (let row = KernelVector3S_row mode d1 c12 c13 in
                  case (if row = 1 then
                          KernelVector3G_aux mode d1 d2 d3 c12 c13 c23 c12 c13 c23
                        else if row = 2 then
                          KernelVector3G_aux mode c12 c12 d3 d2 c23 c13 d1 c13 c23
                        else
                          KernelVector3G_aux mode c13 d2 c13 c23 d3 c23 c12 d1 c12) of
                    (kdim, z1, z2, z3) \<Rightarrow>
                      if col = 2 then (kdim, z2, z1, z3)
                      else if col = 3 then (kdim, z3, z2, z1)
                      else (kdim, z1, z2, z3))))"

subsection \<open>Householder deflation of a symmetric 3x3 matrix\<close>

text \<open>The values of all reference parameters of \<^verbatim>\<open>Reduce3S\<close> on return, and the
  returned index \<open>k\<close>.\<close>

record reduced3 =
  r_k :: int
  r_d1 :: real
  r_d2 :: real
  r_d3 :: real
  r_d12 :: real
  r_d13 :: real
  r_d23 :: real
  r_z1 :: real
  r_z2 :: real
  r_z3 :: real
  r_v1 :: real
  r_v2 :: real
  r_v3 :: real
  r_g :: real

text \<open>The choice of the pivot index \<open>k\<close> at the head of \<^verbatim>\<open>Reduce3S\<close>.\<close>

definition Reduce3S_k :: "int \<Rightarrow> real \<Rightarrow> real \<Rightarrow> real \<Rightarrow> int" where
  "Reduce3S_k mode z1 z2 z3 =
     (if mode = 0 then
        (if fabs z1 \<le> fabs z3 then (if fabs z1 \<le> fabs z2 then 1 else 2)
         else (if fabs z2 \<le> fabs z3 then 2 else 3))
      else
        (if fabs z1 \<ge> fabs z3 then (if fabs z1 \<ge> fabs z2 then 1 else 2)
         else (if fabs z2 \<ge> fabs z3 then 2 else 3)))"

text \<open>The body of \<^verbatim>\<open>Reduce3S\<close> between the two \<^verbatim>\<open>switch (k)\<close> statements, on the
  permuted entries: the new \<open>(d1, d2, d3, d23)\<close> and \<open>(v1, v2, v3, g)\<close>.\<close>

definition Reduce3S_reflect ::
  "real \<Rightarrow> real \<Rightarrow> real \<Rightarrow> real \<Rightarrow> real \<Rightarrow> real \<Rightarrow> real \<Rightarrow> real \<Rightarrow> real \<Rightarrow>
   (real \<times> real \<times> real \<times> real) \<times> (real \<times> real \<times> real \<times> real)" where
  "Reduce3S_reflect d1 d2 d3 d12 d13 d23 z1 z2 z3 =
     (let s = hypot z2 z3 in
      if s = 0 then ((d1, d2, d3, d23), (0, 0, 0, 1))
      else
        (let g = copysign 1 z1;
             v1 = - s * (s / (z1 + g));
             g = fabs v1;
             g = (if fabs z2 > g then fabs z2 else g);
             g = (if fabs z3 > g then fabs z3 else g);
             v1 = v1 / g;
             v2 = z2 / g;
             v3 = z3 / g;
             g = 2 / (v1 * v1 + v2 * v2 + v3 * v3);
             w1 = g * (d1 * v1 + d12 * v2 + d13 * v3);
             w2 = g * (d12 * v1 + d2 * v2 + d23 * v3);
             w3 = g * (d13 * v1 + d23 * v2 + d3 * v3);
             s = (g / 2) * (v1 * w1 + v2 * w2 + v3 * w3);
             w1 = w1 - s * v1;
             w2 = w2 - s * v2;
             w3 = w3 - s * v3;
             d1 = d1 - 2 * v1 * w1;
             d2 = d2 - 2 * v2 * w2;
             d23 = d23 - (v2 * w3 + v3 * w2);
             d3 = d3 - 2 * v3 * w3
         in ((d1, d2, d3, d23), (v1, v2, v3, g))))"

definition Reduce3S ::
  "int \<Rightarrow> real \<Rightarrow> real \<Rightarrow> real \<Rightarrow> real \<Rightarrow> real \<Rightarrow> real \<Rightarrow> real \<Rightarrow> real \<Rightarrow> real \<Rightarrow> reduced3" where
  "Reduce3S mode d1 d2 d3 d12 d13 d23 z1 z2 z3 =
     (let k = Reduce3S_k mode z1 z2 z3 in
      case (if k = 2 then ((d2, d1, d3, d12, d23, d13), (z2, z1, z3))
            else if k = 3 then ((d3, d2, d1, d23, d13, d12), (z3, z2, z1))
            else ((d1, d2, d3, d12, d13, d23), (z1, z2, z3))) of
        ((d1, d2, d3, d12, d13, d23), (y1, y2, y3)) \<Rightarrow>
          (case Reduce3S_reflect d1 d2 d3 d12 d13 d23 y1 y2 y3 of
             ((b1, b2, b3, b23), (v1, v2, v3, g)) \<Rightarrow>
               \<lparr> r_k = k, r_d1 = b1, r_d2 = b2, r_d3 = b3,
                 r_d12 = d12, r_d13 = d13, r_d23 = b23,
                 r_z1 = z1, r_z2 = z2, r_z3 = z3,
                 r_v1 = v1, r_v2 = v2, r_v3 = v3, r_g = g \<rparr>))"

subsection \<open>Scaling factor\<close>

text \<open>\<^verbatim>\<open>GetScalingFactor(d_max, mult)\<close>: the value left in \<open>mult\<close>.\<close>

definition GetScalingFactor :: "real \<Rightarrow> real" where
  "GetScalingFactor d_max =
     (if d_max > 0 then
        (case frexp d_max of
           (mult, d_exp) \<Rightarrow>
             (let mult = (if d_exp = max_exponent then mult * radix else mult)
              in d_max / mult))
      else 1)"

text \<open>The statement \<^verbatim>\<open>if (d_max < fabs(x)) d_max = fabs(x);\<close>.\<close>

definition max_update :: "real \<Rightarrow> real \<Rightarrow> real" where
  "max_update d_max x = (if d_max < fabs x then fabs x else d_max)"

subsection \<open>The matrix object and fatal errors\<close>

text \<open>A \<^verbatim>\<open>DenseMatrix\<close> stores \<open>Height * Width\<close> doubles column by column in
  \<open>data\<close>. \<^verbatim>\<open>mfem_error(msg)\<close> prints the message and aborts the program: the call
  does not return, which the model renders as the result \<open>Inl (MfemError msg)\<close>.
  A read of \<open>data\<close> past its end is undefined behaviour in C++; the model reports it
  as \<open>Inl OutOfBounds\<close>. IEEE division by zero does not trap; where a claim is about
  a guarded quotient the model makes a zero divisor visible as \<open>Inl DivisionByZero\<close>.\<close>

record DenseMatrix =
  Height :: int
  Width :: int
  data :: "real list"

datatype error = MfemError string | OutOfBounds | DivisionByZero

definition fdiv :: "real \<Rightarrow> real \<Rightarrow> error + real" where
  "fdiv x y = (if y = 0 then Inl DivisionByZero else Inr (x / y))"

subsection \<open>Singular values\<close>

text \<open>The value of \<open>s\<close> in the 2x2 branch of \<^verbatim>\<open>CalcSingularvalue\<close> at the test
  \<^verbatim>\<open>if (s == 0.0)\<close>, from the scaled entries.\<close>

definition CalcSingularvalue_2_s :: "real \<Rightarrow> real \<Rightarrow> real \<Rightarrow> real \<Rightarrow> real" where
  "CalcSingularvalue_2_s d0 d1 d2 d3 =
     (let t = 0.5 * ((d0 + d2) * (d0 - d2) + (d1 - d3) * (d1 + d3));
          s = d0 * d2 + d1 * d3
      in sqrt (0.5 * (d0 * d0 + d1 * d1 + d2 * d2 + d3 * d3) + sqrt (t * t + s * s)))"

text \<open>The branch \<^verbatim>\<open>n == 2\<close> of \<^verbatim>\<open>CalcSingularvalue\<close>. The quotient by \<open>s\<close> is the
  division the code guards, so it is the one written with \<^const>\<open>fdiv\<close>.\<close>

definition CalcSingularvalue_2 :: "real list \<Rightarrow> int \<Rightarrow> error + real" where
  "CalcSingularvalue_2 d i =
     (let d0 = d ! 0; d1 = d ! 1; d2 = d ! 2; d3 = d ! 3;
          d_max = fabs d0;
          d_max = max_update d_max d1;
          d_max = max_update d_max d2;
          d_max = max_update d_max d3;
          mult = GetScalingFactor d_max;
          d0 = d0 / mult; d1 = d1 / mult; d2 = d2 / mult; d3 = d3 / mult;
          s = CalcSingularvalue_2_s d0 d1 d2 d3
      in if s = 0 then Inr 0
         else
           (case fdiv (fabs (d0 * d3 - d1 * d2)) s of
              Inl e \<Rightarrow> Inl e
            | Inr t \<Rightarrow>
                if t > s then (if i = 0 then Inr (t * mult) else Inr (s * mult))
                else if i = 0 then Inr (s * mult)
                else Inr (t * mult)))"

text \<open>The tail of the 3x3 branch of \<^verbatim>\<open>CalcSingularvalue\<close> that starts at
  \<^verbatim>\<open>c1 -= r;\<close> (reached when the root \<open>aa + r\<close> is the separated one): the value of
  \<open>aa\<close> at the label \<^verbatim>\<open>have_aa\<close>.\<close>

definition CalcSingularvalue_3_reduce ::
  "int \<Rightarrow> real \<Rightarrow> real \<Rightarrow> real \<Rightarrow> real \<Rightarrow> real \<Rightarrow> real \<Rightarrow> real \<Rightarrow> real \<Rightarrow> real \<Rightarrow> real \<Rightarrow> real
   \<Rightarrow> real" where
  "CalcSingularvalue_3_reduce i aa r c1 c2 c3 b11 b22 b33 b12 b13 b23 =
     (let c1 = c1 - r; c2 = c2 - r; c3 = c3 - r;
          mode = 1
      in case KernelVector3S mode b12 b13 b23 c1 c2 c3 of
           (kdim, c1, c2, c3) \<Rightarrow>
             if kdim = 3 then aa + r
             else
               (let red = Reduce3S mode b11 b22 b33 b12 b13 b23 c1 c2 c3;
                    b11 = r_d1 red
                in case Eigenvalues2S (r_d23 red) (r_d2 red) (r_d3 red) of
                     (b22, b33) \<Rightarrow>
                       if i = 2 then min (min b11 b22) b33
                       else if i = 1 then
                         (if b11 \<le> b22 then (if b22 \<le> b33 then b22 else max b11 b33)
                          else (if b11 \<le> b33 then b11 else max b33 b22))
                       else max (max b11 b22) b33))"

text \<open>The part of the 3x3 branch of \<^verbatim>\<open>CalcSingularvalue\<close> from the test
  \<^verbatim>\<open>if (Q <= 0.)\<close> to the label \<^verbatim>\<open>have_aa\<close>: the value of \<open>aa\<close> at the label.\<close>

definition CalcSingularvalue_3_root ::
  "int \<Rightarrow> real \<Rightarrow> real \<Rightarrow> real \<Rightarrow> real \<Rightarrow> real \<Rightarrow> real \<Rightarrow> real \<Rightarrow> real \<Rightarrow> real \<Rightarrow> real \<Rightarrow> real
   \<Rightarrow> real \<Rightarrow> real" where
  "CalcSingularvalue_3_root i aa c1 c2 c3 Q R b11 b22 b33 b12 b13 b23 =
     (if Q \<le> 0 then aa
      else
        (let sqrtQ = sqrt Q;
             sqrtQ3 = Q * sqrtQ
         in if fabs R \<ge> sqrtQ3 then
              (let r = (if R < 0 then 2 * sqrtQ else - 2 * sqrtQ)
               in CalcSingularvalue_3_reduce i aa r c1 c2 c3 b11 b22 b33 b12 b13 b23)
            else
              (let R = R / sqrtQ3
               in if fabs R \<le> 0.9 then
                    (if i = 2 then aa - 2 * sqrtQ * cos (arccos R / 3)
                     else if i = 0 then aa - 2 * sqrtQ * cos ((arccos R + 2.0 * M_PI) / 3)
                     else aa - 2 * sqrtQ * cos ((arccos R - 2.0 * M_PI) / 3))
                  else if R < 0 then
                    (let r = - 2 * sqrtQ * cos ((arccos R + 2.0 * M_PI) / 3)
                     in if i = 0 then aa + r
                        else CalcSingularvalue_3_reduce i aa r c1 c2 c3
                               b11 b22 b33 b12 b13 b23)
                  else
                    (let r = - 2 * sqrtQ * cos (arccos R / 3)
                     in if i = 2 then aa + r
                        else CalcSingularvalue_3_reduce i aa r c1 c2 c3
                               b11 b22 b33 b12 b13 b23))))"

text \<open>The branch \<^verbatim>\<open>n == 3\<close> of \<^verbatim>\<open>CalcSingularvalue\<close>, in exact arithmetic. The two
  small eigenvalues of the Gram matrix of a matrix of rank one are exactly zero here; the
  doubles of the code leave residues of either sign, which \<open>CalcSingularvalue_3_b64\<close>
  below reproduces.\<close>

definition CalcSingularvalue_3 :: "real list \<Rightarrow> int \<Rightarrow> real" where
  "CalcSingularvalue_3 d i =
     (let d0 = d ! 0; d3 = d ! 3; d6 = d ! 6;
          d1 = d ! 1; d4 = d ! 4; d7 = d ! 7;
          d2 = d ! 2; d5 = d ! 5; d8 = d ! 8;
          d_max = fabs d0;
          d_max = max_update d_max d1;
          d_max = max_update d_max d2;
          d_max = max_update d_max d3;
          d_max = max_update d_max d4;
          d_max = max_update d_max d5;
          d_max = max_update d_max d6;
          d_max = max_update d_max d7;
          d_max = max_update d_max d8;
          mult = GetScalingFactor d_max;
          d0 = d0 / mult; d1 = d1 / mult; d2 = d2 / mult;
          d3 = d3 / mult; d4 = d4 / mult; d5 = d5 / mult;
          d6 = d6 / mult; d7 = d7 / mult; d8 = d8 / mult;
          b11 = d0 * d0 + d1 * d1 + d2 * d2;
          b12 = d0 * d3 + d1 * d4 + d2 * d5;
          b13 = d0 * d6 + d1 * d7 + d2 * d8;
          b22 = d3 * d3 + d4 * d4 + d5 * d5;
          b23 = d3 * d6 + d4 * d7 + d5 * d8;
          b33 = d6 * d6 + d7 * d7 + d8 * d8;
          aa = (b11 + b22 + b33) / 3;
          b11_b22 = ((d0 - d3) * (d0 + d3) + (d1 - d4) * (d1 + d4) + (d2 - d5) * (d2 + d5));
          b22_b33 = ((d3 - d6) * (d3 + d6) + (d4 - d7) * (d4 + d7) + (d5 - d8) * (d5 + d8));
          b33_b11 = ((d6 - d0) * (d6 + d0) + (d7 - d1) * (d7 + d1) + (d8 - d2) * (d8 + d2));
          c1 = (b11_b22 - b33_b11) / 3;
          c2 = (b22_b33 - b11_b22) / 3;
          c3 = (b33_b11 - b22_b33) / 3;
          Q = (2 * (b12 * b12 + b13 * b13 + b23 * b23) + c1 * c1 + c2 * c2 + c3 * c3) / 6;
          R = (c1 * (b23 * b23 - c2 * c3) + b12 * (b12 * c3 - 2 * b13 * b23) + b13 * b13 * c2) / 2;
          aa = CalcSingularvalue_3_root i aa c1 c2 c3 Q R b11 b22 b33 b12 b13 b23
      in sqrt (fabs aa) * mult)"

text \<open>\<^verbatim>\<open>DenseMatrix::CalcSingularvalue(i)\<close>. The first argument says whether the
  library was compiled with \<^verbatim>\<open>MFEM_DEBUG\<close>, which is what enables the size check.\<close>

definition CalcSingularvalue :: "bool \<Rightarrow> DenseMatrix \<Rightarrow> int \<Rightarrow> error + real" where
  "CalcSingularvalue MFEM_DEBUG M i =
     (if MFEM_DEBUG \<and> (Height M \<noteq> Width M \<or> Height M < 1 \<or> Height M > 3)
      then Inl (MfemError ''DenseMatrix::CalcSingularvalue'')
      else
        (let n = Height M; d = data M
         in if n = 1 then
              (if length d < 1 then Inl OutOfBounds else Inr (d ! 0))
            else if n = 2 then
              (if length d < 4 then Inl OutOfBounds else CalcSingularvalue_2 d i)
            else
              (if length d < 9 then Inl OutOfBounds else Inr (CalcSingularvalue_3 d i))))"

subsection \<open>Eigenvalues and eigenvectors\<close>

text \<open>The branch \<^verbatim>\<open>n == 2\<close> of \<^verbatim>\<open>CalcEigenvalues\<close>: the contents of \<open>lambda[0..1]\<close>
  and \<open>vec[0..3]\<close> on return.\<close>

definition CalcEigenvalues_2 :: "real list \<Rightarrow> real list \<times> real list" where
  "CalcEigenvalues_2 d =
     (let d0 = d ! 0;
          d2 = d ! 2;
          d3 = d ! 3
      in case Eigensystem2S d2 d0 d3 of
           (d0, d3, c, s) \<Rightarrow>
             if d0 \<le> d3 then ([d0, d3], [c, - s, s, c])
             else ([d3, d0], [s, c, c, - s]))"

text \<open>\<^verbatim>\<open>Swap(vec_j[0], vec_j[1])\<close> for \<open>k = 2\<close> and \<^verbatim>\<open>Swap(vec_j[0], vec_j[2])\<close> for
  \<open>k = 3\<close>, on one column of three entries.\<close>

definition swap_by_k :: "int \<Rightarrow> real \<times> real \<times> real \<Rightarrow> real list" where
  "swap_by_k k v =
     (case v of (a, b, c) \<Rightarrow>
        if k = 2 then [b, a, c] else if k = 3 then [c, b, a] else [a, b, c])"

text \<open>The separated root of the 3x3 branch of \<^verbatim>\<open>CalcEigenvalues\<close>: the value of \<open>r\<close>
  at the statement \<^verbatim>\<open>aa += r;\<close>, from \<open>Q\<close> and \<open>R\<close> (the branch \<open>Q > 0\<close>).\<close>

definition CalcEigenvalues_3_r :: "real \<Rightarrow> real \<Rightarrow> real" where
  "CalcEigenvalues_3_r Q R =
     (let sqrtQ = sqrt Q;
          sqrtQ3 = Q * sqrtQ
      in if fabs R \<ge> sqrtQ3 then
           (if R < 0 then 2 * sqrtQ else - 2 * sqrtQ)
         else
           (let R = R / sqrtQ3
            in if R < 0 then - 2 * sqrtQ * cos ((arccos R + 2.0 * M_PI) / 3)
               else - 2 * sqrtQ * cos (arccos R / 3)))"

text \<open>The 3x3 branch of \<^verbatim>\<open>CalcEigenvalues\<close> from the statement \<^verbatim>\<open>c1 = d11 - aa;\<close> that
  follows \<^verbatim>\<open>aa += r;\<close> up to the label \<^verbatim>\<open>done_3d\<close>: the contents of \<open>lambda[0..2]\<close>
  before the multiplication by \<open>mult\<close>, and of \<open>vec[0..8]\<close>. The pointers
  \<open>vec_1, vec_2, vec_3\<close> select the position of each column, written here as the order of
  concatenation.\<close>

definition CalcEigenvalues_3_deflate ::
  "real \<Rightarrow> real \<Rightarrow> real \<Rightarrow> real \<Rightarrow> real \<Rightarrow> real \<Rightarrow> real \<Rightarrow> real list \<times> real list" where
  "CalcEigenvalues_3_deflate aa d11 d22 d33 d12 d13 d23 =
     (let c1 = d11 - aa;
          c2 = d22 - aa;
          c3 = d33 - aa;
          mode = 0
      in case KernelVector3S mode d12 d13 d23 c1 c2 c3 of
           (kdim, c1, c2, c3) \<Rightarrow>
             if kdim = 3 then ([aa, aa, aa], [1, 0, 0, 0, 1, 0, 0, 0, 1])
             else
               (let red = Reduce3S mode d11 d22 d33 d12 d13 d23 c1 c2 c3;
                    k = r_k red;
                    d11 = r_d1 red;
                    v1 = r_v1 red; v2 = r_v2 red; v3 = r_v3 red; g = r_g red
                in case Eigensystem2S (r_d23 red) (r_d2 red) (r_d3 red) of
                     (d22, d33, c, s) \<Rightarrow>
                       (let vec_1 = [r_z1 red, r_z2 red, r_z3 red];
                            e22 = g * (v2 * c - v3 * s);
                            e33 = g * (v2 * s + v3 * c);
                            vec_2 = swap_by_k k (- v1 * e22, c - v2 * e22, - s - v3 * e22);
                            vec_3 = swap_by_k k (- v1 * e33, s - v2 * e33, c - v3 * e33)
                        in if d11 \<le> d22 then
                             (if d22 \<le> d33 then
                                ([d11, d22, d33], vec_1 @ vec_2 @ vec_3)
                              else if d11 \<le> d33 then
                                ([d11, d33, d22], vec_1 @ vec_3 @ vec_2)
                              else
                                ([d33, d11, d22], vec_3 @ vec_1 @ vec_2))
                           else
                             (if d11 \<le> d33 then
                                ([d22, d11, d33], vec_2 @ vec_1 @ vec_3)
                              else if d22 \<le> d33 then
                                ([d22, d33, d11], vec_2 @ vec_3 @ vec_1)
                              else
                                ([d33, d22, d11], vec_3 @ vec_2 @ vec_1)))))"

text \<open>The part of the 3x3 branch of \<^verbatim>\<open>CalcEigenvalues\<close> that works on the scaled
  entries, up to the label \<^verbatim>\<open>done_3d\<close>.\<close>

definition CalcEigenvalues_3_scaled ::
  "real \<Rightarrow> real \<Rightarrow> real \<Rightarrow> real \<Rightarrow> real \<Rightarrow> real \<Rightarrow> real list \<times> real list" where
  "CalcEigenvalues_3_scaled d11 d22 d33 d12 d13 d23 =
     (let aa = (d11 + d22 + d33) / 3;
          c1 = d11 - aa;
          c2 = d22 - aa;
          c3 = d33 - aa;
          Q = (2 * (d12 * d12 + d13 * d13 + d23 * d23) + c1 * c1 + c2 * c2 + c3 * c3) / 6;
          R = (c1 * (d23 * d23 - c2 * c3) + d12 * (d12 * c3 - 2 * d13 * d23) + d13 * d13 * c2) / 2
      in if Q \<le> 0 then ([aa, aa, aa], [1, 0, 0, 0, 1, 0, 0, 0, 1])
         else
           (let r = CalcEigenvalues_3_r Q R;
                aa = aa + r
            in CalcEigenvalues_3_deflate aa d11 d22 d33 d12 d13 d23))"

text \<open>The branch \<^verbatim>\<open>n == 3\<close> of \<^verbatim>\<open>CalcEigenvalues\<close>.\<close>

definition CalcEigenvalues_3 :: "real list \<Rightarrow> real list \<times> real list" where
  "CalcEigenvalues_3 d =
     (let d11 = d ! 0;
          d12 = d ! 3;
          d22 = d ! 4;
          d13 = d ! 6;
          d23 = d ! 7;
          d33 = d ! 8;
          d_max = fabs d11;
          d_max = max_update d_max d22;
          d_max = max_update d_max d33;
          d_max = max_update d_max d12;
          d_max = max_update d_max d13;
          d_max = max_update d_max d23;
          mult = GetScalingFactor d_max;
          d11 = d11 / mult; d22 = d22 / mult; d33 = d33 / mult;
          d12 = d12 / mult; d13 = d13 / mult; d23 = d23 / mult
      in case CalcEigenvalues_3_scaled d11 d22 d33 d12 d13 d23 of
           (lambda, vec) \<Rightarrow> (map (\<lambda>l. l * mult) lambda, vec))"

text \<open>\<^verbatim>\<open>DenseMatrix::CalcEigenvalues(lambda, vec)\<close>: the contents of the two output
  arrays on return. The first argument says whether the library was compiled with
  \<^verbatim>\<open>MFEM_DEBUG\<close>.\<close>

definition CalcEigenvalues :: "bool \<Rightarrow> DenseMatrix \<Rightarrow> error + (real list \<times> real list)" where
  "CalcEigenvalues MFEM_DEBUG M =
     (if MFEM_DEBUG \<and> (Height M \<noteq> Width M \<or> Height M < 2 \<or> Height M > 3)
      then Inl (MfemError ''DenseMatrix::CalcEigenvalues'')
      else
        (let n = Height M; d = data M
         in if n = 2 then
              (if length d < 4 then Inl OutOfBounds else Inr (CalcEigenvalues_2 d))
            else
              (if length d < 9 then Inl OutOfBounds else Inr (CalcEigenvalues_3 d))))"

subsection \<open>The 3x3 singular values in binary64 arithmetic\<close>

text \<open>The definitions above compute in exact real arithmetic. The ones of this subsection
  are the same statements of the 3x3 branch of \<^verbatim>\<open>CalcSingularvalue\<close> and of the routines it
  calls, with the result of every arithmetic operation rounded to binary64: round to
  nearest, ties to even, 53 significant bits, each operation of an expression rounded in
  the order C evaluates it, no fused multiply-add and no excess precision.
  \<^verbatim>\<open>sqrt\<close> is correctly rounded, as IEEE 754 requires; \<^verbatim>\<open>hypot\<close>, \<^verbatim>\<open>cos\<close> and
  \<^verbatim>\<open>acos\<close> are taken as correctly rounded too. The exponent range is not bounded:
  overflow and underflow are outside this model. Negation, \<^verbatim>\<open>fabs\<close>, \<^verbatim>\<open>copysign\<close>,
  comparisons, and the scaling by the power of two of \<^verbatim>\<open>GetScalingFactor\<close> are exact.\<close>

definition rne :: "real \<Rightarrow> int" where
  "rne q =
     (let f = \<lfloor>q\<rfloor>
      in if q - of_int f < 1 / 2 then f
         else if 1 / 2 < q - of_int f then f + 1
         else if even f then f else f + 1)"

definition rnd :: "real \<Rightarrow> real" where
  "rnd x =
     (if x = 0 then 0
      else (let u = 2 powi (\<lfloor>log 2 \<bar>x\<bar>\<rfloor> - 52) in of_int (rne (x / u)) * u))"

definition add64 :: "real \<Rightarrow> real \<Rightarrow> real" where
  "add64 x y = rnd (x + y)"

definition sub64 :: "real \<Rightarrow> real \<Rightarrow> real" where
  "sub64 x y = rnd (x - y)"

definition mul64 :: "real \<Rightarrow> real \<Rightarrow> real" where
  "mul64 x y = rnd (x * y)"

definition div64 :: "real \<Rightarrow> real \<Rightarrow> real" where
  "div64 x y = rnd (x / y)"

definition sqrt64 :: "real \<Rightarrow> real" where
  "sqrt64 x = rnd (sqrt x)"

definition hypot64 :: "real \<Rightarrow> real \<Rightarrow> real" where
  "hypot64 x y = rnd (sqrt (x * x + y * y))"

definition cos64 :: "real \<Rightarrow> real" where
  "cos64 x = rnd (cos x)"

definition acos64 :: "real \<Rightarrow> real" where
  "acos64 x = rnd (arccos x)"

definition M_PI64 :: real where
  "M_PI64 = rnd pi"

definition Eigenvalues2S_b64 :: "real \<Rightarrow> real \<Rightarrow> real \<Rightarrow> real \<times> real" where
  "Eigenvalues2S_b64 d12 d1 d2 =
     (if d12 \<noteq> 0 then
        (let zeta = div64 (sub64 d2 d1) (mul64 2 d12);
             zeta_negative = signbit_quotient (sub64 d2 d1) (mul64 2 d12);
             t = (if fabs zeta < sqrt_1_eps
                  then mul64 d12
                         (copysign_signbit
                            (div64 1 (add64 (fabs zeta) (sqrt64 (add64 1 (mul64 zeta zeta)))))
                            zeta_negative)
                  else mul64 d12 (copysign_signbit (div64 0.5 (fabs zeta)) zeta_negative))
         in (sub64 d1 t, add64 d2 t))
      else (d1, d2))"

definition vec_normalize3_aux_b64 :: "real \<Rightarrow> real \<Rightarrow> real \<Rightarrow> real \<times> real \<times> real" where
  "vec_normalize3_aux_b64 x1 x2 x3 =
     (let m = fabs x1;
          r = div64 x2 m;
          t = add64 1 (mul64 r r);
          r = div64 x3 m;
          t = sqrt64 (div64 1 (add64 t (mul64 r r)));
          n1 = copysign t x1;
          t = div64 t m;
          n2 = mul64 x2 t;
          n3 = mul64 x3 t
      in (n1, n2, n3))"

definition vec_normalize3_b64 :: "real \<Rightarrow> real \<Rightarrow> real \<Rightarrow> real \<times> real \<times> real" where
  "vec_normalize3_b64 x1 x2 x3 =
     (if fabs x1 \<ge> fabs x2 then
        (if fabs x1 \<ge> fabs x3 then
           (if x1 \<noteq> 0 then vec_normalize3_aux_b64 x1 x2 x3 else (0, 0, 0))
         else (case vec_normalize3_aux_b64 x3 x1 x2 of (n3, n1, n2) \<Rightarrow> (n1, n2, n3)))
      else if fabs x2 \<ge> fabs x3 then
        (case vec_normalize3_aux_b64 x2 x1 x3 of (n2, n1, n3) \<Rightarrow> (n1, n2, n3))
      else (case vec_normalize3_aux_b64 x3 x1 x2 of (n3, n1, n2) \<Rightarrow> (n1, n2, n3)))"

definition KernelVector2G_eliminate_b64 ::
  "real \<Rightarrow> real \<Rightarrow> real \<Rightarrow> real \<Rightarrow> real \<times> real \<times> real" where
  "KernelVector2G_eliminate_b64 d1 d12 d21 d2 =
     (let n1 = hypot64 d1 d21 in
      if d21 \<noteq> 0 then
        (let mu = copysign n1 d1;
             n1 = mul64 (- d21) (div64 d21 (add64 d1 mu));
             d1 = mu
         in if fabs n1 \<le> fabs d21 then
              (let n1 = div64 n1 d21;
                   mu = mul64 (div64 2 (add64 1 (mul64 n1 n1))) (add64 (mul64 n1 d12) d2);
                   d2 = sub64 d2 mu;
                   d12 = sub64 d12 (mul64 mu n1)
               in (d1, d12, d2))
            else
              (let n2 = div64 d21 n1;
                   mu = mul64 (div64 2 (add64 1 (mul64 n2 n2))) (add64 d12 (mul64 n2 d2));
                   d2 = sub64 d2 (mul64 mu n2);
                   d12 = sub64 d12 mu
               in (d1, d12, d2)))
      else (d1, d12, d2))"

definition KernelVector2G_solve_b64 :: "real \<Rightarrow> real \<Rightarrow> real \<Rightarrow> real \<times> real" where
  "KernelVector2G_solve_b64 d1 d12 d2 =
     (let mu = div64 (- d12) d1;
          n2 = div64 1 (add64 1 (fabs mu))
      in if fabs d1 \<le> mul64 n2 (fabs d2) then (1, 0) else (mul64 mu n2, n2))"

definition KernelVector2G_b64 ::
  "int \<Rightarrow> real \<Rightarrow> real \<Rightarrow> real \<Rightarrow> real \<Rightarrow> bool \<times> real \<times> real \<times> real \<times> real" where
  "KernelVector2G_b64 mode d1 d12 d21 d2 =
     (let n1 = add64 (fabs d1) (fabs d21);
          n2 = add64 (fabs d2) (fabs d12);
          swap_columns = (n2 > n1)
      in if \<not> swap_columns \<and> n1 = 0 then (True, d1, d12, d21, d2)
         else
           (case KernelVector2G_pivot mode swap_columns d1 d12 d21 d2 of
              (d1, d12, d21, d2) \<Rightarrow>
                (case KernelVector2G_eliminate_b64 d1 d12 d21 d2 of
                   (d1, d12, d2) \<Rightarrow>
                     (case KernelVector2G_solve_b64 d1 d12 d2 of
                        (z1, z2) \<Rightarrow>
                          if swap_columns then (False, z2, d12, d21, z1)
                          else (False, z1, d12, d21, z2)))))"

definition KernelVector3G_eliminate_b64 ::
  "real \<Rightarrow> real \<Rightarrow> real \<Rightarrow> real \<Rightarrow> real \<Rightarrow> real \<Rightarrow> real \<Rightarrow> real \<Rightarrow> real \<Rightarrow>
   real \<times> real \<times> real \<times> real \<times> real \<times> real \<times> real" where
  "KernelVector3G_eliminate_b64 d1 d2 d3 c12 c13 c23 c21 c31 c32 =
     (let s1 = hypot64 c21 c31;
          n1 = hypot64 d1 s1
      in if s1 \<noteq> 0 then
           (let mu = copysign n1 d1;
                n1 = mul64 (- s1) (div64 s1 (add64 d1 mu));
                d1 = mu
            in if fabs n1 \<ge> fabs c21 \<and> fabs n1 \<ge> fabs c31 then
                 (let s2 = div64 c21 n1;
                      s3 = div64 c31 n1;
                      mu = div64 2 (add64 (add64 1 (mul64 s2 s2)) (mul64 s3 s3));
                      n2 = mul64 mu (add64 (add64 c12 (mul64 s2 d2)) (mul64 s3 c32));
                      n3 = mul64 mu (add64 (add64 c13 (mul64 s2 c23)) (mul64 s3 d3))
                  in (d1, sub64 d2 (mul64 s2 n2), sub64 d3 (mul64 s3 n3),
                      sub64 c12 n2, sub64 c13 n3, sub64 c23 (mul64 s2 n3),
                      sub64 c32 (mul64 s3 n2)))
               else if \<not> fabs n1 \<ge> fabs c21 \<and> fabs c21 \<ge> fabs c31 then
                 (let s1 = div64 n1 c21;
                      s3 = div64 c31 c21;
                      mu = div64 2 (add64 (add64 1 (mul64 s1 s1)) (mul64 s3 s3));
                      n2 = mul64 mu (add64 (add64 (mul64 s1 c12) d2) (mul64 s3 c32));
                      n3 = mul64 mu (add64 (add64 (mul64 s1 c13) c23) (mul64 s3 d3))
                  in (d1, sub64 d2 n2, sub64 d3 (mul64 s3 n3),
                      sub64 c12 (mul64 s1 n2), sub64 c13 (mul64 s1 n3), sub64 c23 n3,
                      sub64 c32 (mul64 s3 n2)))
               else
                 (let s1 = div64 n1 c31;
                      s2 = div64 c21 c31;
                      mu = div64 2 (add64 (add64 1 (mul64 s1 s1)) (mul64 s2 s2));
                      n2 = mul64 mu (add64 (add64 (mul64 s1 c12) (mul64 s2 d2)) c32);
                      n3 = mul64 mu (add64 (add64 (mul64 s1 c13) (mul64 s2 c23)) d3)
                  in (d1, sub64 d2 (mul64 s2 n2), sub64 d3 n3,
                      sub64 c12 (mul64 s1 n2), sub64 c13 (mul64 s1 n3),
                      sub64 c23 (mul64 s2 n3), sub64 c32 n2)))
         else (d1, d2, d3, c12, c13, c23, c32))"

definition KernelVector3G_aux_b64 ::
  "int \<Rightarrow> real \<Rightarrow> real \<Rightarrow> real \<Rightarrow> real \<Rightarrow> real \<Rightarrow> real \<Rightarrow> real \<Rightarrow> real \<Rightarrow> real \<Rightarrow>
   int \<times> real \<times> real \<times> real" where
  "KernelVector3G_aux_b64 mode d1 d2 d3 c12 c13 c23 c21 c31 c32 =
     (case KernelVector3G_eliminate_b64 d1 d2 d3 c12 c13 c23 c21 c31 c32 of
        (d1, d2, d3, c12, c13, c23, c32) \<Rightarrow>
          (case KernelVector2G_b64 mode d2 c23 c32 d3 of
             (zero, z2, c23, c32, z3) \<Rightarrow>
               if zero then
                 (case vec_normalize3_b64 1 (div64 c12 d1) (div64 c13 d1) of
                    (n1, n2, n3) \<Rightarrow> (2, n1, n2, n3))
               else
                 (case vec_normalize3_b64
                         (div64 (- (add64 (mul64 c12 z2) (mul64 c13 z3))) d1) z2 z3 of
                    (n1, n2, n3) \<Rightarrow> (1, n1, n2, n3))))"

definition KernelVector3S_col_b64 ::
  "real \<Rightarrow> real \<Rightarrow> real \<Rightarrow> real \<Rightarrow> real \<Rightarrow> real \<Rightarrow> int \<times> real" where
  "KernelVector3S_col_b64 d12 d13 d23 d1 d2 d3 =
     (let c32 = add64 (add64 (fabs d1) (fabs d12)) (fabs d13);
          c31 = add64 (add64 (fabs d2) (fabs d12)) (fabs d23);
          c21 = add64 (add64 (fabs d3) (fabs d13)) (fabs d23)
      in if c32 \<ge> c21 then (if c32 \<ge> c31 then (1, c32) else (2, c31))
         else (if c31 \<ge> c21 then (2, c31) else (3, c21)))"

definition KernelVector3S_b64 ::
  "int \<Rightarrow> real \<Rightarrow> real \<Rightarrow> real \<Rightarrow> real \<Rightarrow> real \<Rightarrow> real \<Rightarrow> int \<times> real \<times> real \<times> real" where
  "KernelVector3S_b64 mode d12 d13 d23 d1 d2 d3 =
     (case KernelVector3S_col_b64 d12 d13 d23 d1 d2 d3 of
        (col, colnorm) \<Rightarrow>
          if colnorm = 0 then (3, d1, d2, d3)
          else
            (case (if col = 1 then (d12, d13, d23, d1, d2, d3)
                   else if col = 2 then (d12, d23, d13, d2, d1, d3)
                   else (d23, d13, d12, d3, d2, d1)) of
               (c12, c13, c23, d1, d2, d3) \<Rightarrow>
                 (let row = KernelVector3S_row mode d1 c12 c13 in
                  case (if row = 1 then
                          KernelVector3G_aux_b64 mode d1 d2 d3 c12 c13 c23 c12 c13 c23
                        else if row = 2 then
                          KernelVector3G_aux_b64 mode c12 c12 d3 d2 c23 c13 d1 c13 c23
                        else
                          KernelVector3G_aux_b64 mode c13 d2 c13 c23 d3 c23 c12 d1 c12) of
                    (kdim, z1, z2, z3) \<Rightarrow>
                      if col = 2 then (kdim, z2, z1, z3)
                      else if col = 3 then (kdim, z3, z2, z1)
                      else (kdim, z1, z2, z3))))"

definition Reduce3S_reflect_b64 ::
  "real \<Rightarrow> real \<Rightarrow> real \<Rightarrow> real \<Rightarrow> real \<Rightarrow> real \<Rightarrow> real \<Rightarrow> real \<Rightarrow> real \<Rightarrow>
   (real \<times> real \<times> real \<times> real) \<times> (real \<times> real \<times> real \<times> real)" where
  "Reduce3S_reflect_b64 d1 d2 d3 d12 d13 d23 z1 z2 z3 =
     (let s = hypot64 z2 z3 in
      if s = 0 then ((d1, d2, d3, d23), (0, 0, 0, 1))
      else
        (let g = copysign 1 z1;
             v1 = mul64 (- s) (div64 s (add64 z1 g));
             g = fabs v1;
             g = (if fabs z2 > g then fabs z2 else g);
             g = (if fabs z3 > g then fabs z3 else g);
             v1 = div64 v1 g;
             v2 = div64 z2 g;
             v3 = div64 z3 g;
             g = div64 2 (add64 (add64 (mul64 v1 v1) (mul64 v2 v2)) (mul64 v3 v3));
             w1 = mul64 g (add64 (add64 (mul64 d1 v1) (mul64 d12 v2)) (mul64 d13 v3));
             w2 = mul64 g (add64 (add64 (mul64 d12 v1) (mul64 d2 v2)) (mul64 d23 v3));
             w3 = mul64 g (add64 (add64 (mul64 d13 v1) (mul64 d23 v2)) (mul64 d3 v3));
             s = mul64 (div64 g 2) (add64 (add64 (mul64 v1 w1) (mul64 v2 w2)) (mul64 v3 w3));
             w1 = sub64 w1 (mul64 s v1);
             w2 = sub64 w2 (mul64 s v2);
             w3 = sub64 w3 (mul64 s v3);
             d1 = sub64 d1 (mul64 (mul64 2 v1) w1);
             d2 = sub64 d2 (mul64 (mul64 2 v2) w2);
             d23 = sub64 d23 (add64 (mul64 v2 w3) (mul64 v3 w2));
             d3 = sub64 d3 (mul64 (mul64 2 v3) w3)
         in ((d1, d2, d3, d23), (v1, v2, v3, g))))"

definition Reduce3S_b64 ::
  "int \<Rightarrow> real \<Rightarrow> real \<Rightarrow> real \<Rightarrow> real \<Rightarrow> real \<Rightarrow> real \<Rightarrow> real \<Rightarrow> real \<Rightarrow> real \<Rightarrow> reduced3" where
  "Reduce3S_b64 mode d1 d2 d3 d12 d13 d23 z1 z2 z3 =
     (let k = Reduce3S_k mode z1 z2 z3 in
      case (if k = 2 then ((d2, d1, d3, d12, d23, d13), (z2, z1, z3))
            else if k = 3 then ((d3, d2, d1, d23, d13, d12), (z3, z2, z1))
            else ((d1, d2, d3, d12, d13, d23), (z1, z2, z3))) of
        ((d1, d2, d3, d12, d13, d23), (y1, y2, y3)) \<Rightarrow>
          (case Reduce3S_reflect_b64 d1 d2 d3 d12 d13 d23 y1 y2 y3 of
             ((b1, b2, b3, b23), (v1, v2, v3, g)) \<Rightarrow>
               \<lparr> r_k = k, r_d1 = b1, r_d2 = b2, r_d3 = b3,
                 r_d12 = d12, r_d13 = d13, r_d23 = b23,
                 r_z1 = z1, r_z2 = z2, r_z3 = z3,
                 r_v1 = v1, r_v2 = v2, r_v3 = v3, r_g = g \<rparr>))"

definition CalcSingularvalue_3_reduce_b64 ::
  "int \<Rightarrow> real \<Rightarrow> real \<Rightarrow> real \<Rightarrow> real \<Rightarrow> real \<Rightarrow> real \<Rightarrow> real \<Rightarrow> real \<Rightarrow> real \<Rightarrow> real \<Rightarrow> real
   \<Rightarrow> real" where
  "CalcSingularvalue_3_reduce_b64 i aa r c1 c2 c3 b11 b22 b33 b12 b13 b23 =
     (let c1 = sub64 c1 r; c2 = sub64 c2 r; c3 = sub64 c3 r;
          mode = 1
      in case KernelVector3S_b64 mode b12 b13 b23 c1 c2 c3 of
           (kdim, c1, c2, c3) \<Rightarrow>
             if kdim = 3 then add64 aa r
             else
               (let red = Reduce3S_b64 mode b11 b22 b33 b12 b13 b23 c1 c2 c3;
                    b11 = r_d1 red
                in case Eigenvalues2S_b64 (r_d23 red) (r_d2 red) (r_d3 red) of
                     (b22, b33) \<Rightarrow>
                       if i = 2 then min (min b11 b22) b33
                       else if i = 1 then
                         (if b11 \<le> b22 then (if b22 \<le> b33 then b22 else max b11 b33)
                          else (if b11 \<le> b33 then b11 else max b33 b22))
                       else max (max b11 b22) b33))"

definition CalcSingularvalue_3_root_b64 ::
  "int \<Rightarrow> real \<Rightarrow> real \<Rightarrow> real \<Rightarrow> real \<Rightarrow> real \<Rightarrow> real \<Rightarrow> real \<Rightarrow> real \<Rightarrow> real \<Rightarrow> real \<Rightarrow> real
   \<Rightarrow> real \<Rightarrow> real" where
  "CalcSingularvalue_3_root_b64 i aa c1 c2 c3 Q R b11 b22 b33 b12 b13 b23 =
     (if Q \<le> 0 then aa
      else
        (let sqrtQ = sqrt64 Q;
             sqrtQ3 = mul64 Q sqrtQ
         in if fabs R \<ge> sqrtQ3 then
              (let r = (if R < 0 then mul64 2 sqrtQ else mul64 (- 2) sqrtQ)
               in CalcSingularvalue_3_reduce_b64 i aa r c1 c2 c3 b11 b22 b33 b12 b13 b23)
            else
              (let R = div64 R sqrtQ3
               in if fabs R \<le> rnd 0.9 then
                    (if i = 2 then
                       sub64 aa (mul64 (mul64 2 sqrtQ) (cos64 (div64 (acos64 R) 3)))
                     else if i = 0 then
                       sub64 aa (mul64 (mul64 2 sqrtQ)
                         (cos64 (div64 (add64 (acos64 R) (mul64 2 M_PI64)) 3)))
                     else
                       sub64 aa (mul64 (mul64 2 sqrtQ)
                         (cos64 (div64 (sub64 (acos64 R) (mul64 2 M_PI64)) 3))))
                  else if R < 0 then
                    (let r = mul64 (mul64 (- 2) sqrtQ)
                               (cos64 (div64 (add64 (acos64 R) (mul64 2 M_PI64)) 3))
                     in if i = 0 then add64 aa r
                        else CalcSingularvalue_3_reduce_b64 i aa r c1 c2 c3
                               b11 b22 b33 b12 b13 b23)
                  else
                    (let r = mul64 (mul64 (- 2) sqrtQ) (cos64 (div64 (acos64 R) 3))
                     in if i = 2 then add64 aa r
                        else CalcSingularvalue_3_reduce_b64 i aa r c1 c2 c3
                               b11 b22 b33 b12 b13 b23))))"

definition CalcSingularvalue_3_b64 :: "real list \<Rightarrow> int \<Rightarrow> real" where
  "CalcSingularvalue_3_b64 d i =
     (let d0 = d ! 0; d3 = d ! 3; d6 = d ! 6;
          d1 = d ! 1; d4 = d ! 4; d7 = d ! 7;
          d2 = d ! 2; d5 = d ! 5; d8 = d ! 8;
          d_max = fabs d0;
          d_max = max_update d_max d1;
          d_max = max_update d_max d2;
          d_max = max_update d_max d3;
          d_max = max_update d_max d4;
          d_max = max_update d_max d5;
          d_max = max_update d_max d6;
          d_max = max_update d_max d7;
          d_max = max_update d_max d8;
          mult = GetScalingFactor d_max;
          d0 = div64 d0 mult; d1 = div64 d1 mult; d2 = div64 d2 mult;
          d3 = div64 d3 mult; d4 = div64 d4 mult; d5 = div64 d5 mult;
          d6 = div64 d6 mult; d7 = div64 d7 mult; d8 = div64 d8 mult;
          b11 = add64 (add64 (mul64 d0 d0) (mul64 d1 d1)) (mul64 d2 d2);
          b12 = add64 (add64 (mul64 d0 d3) (mul64 d1 d4)) (mul64 d2 d5);
          b13 = add64 (add64 (mul64 d0 d6) (mul64 d1 d7)) (mul64 d2 d8);
          b22 = add64 (add64 (mul64 d3 d3) (mul64 d4 d4)) (mul64 d5 d5);
          b23 = add64 (add64 (mul64 d3 d6) (mul64 d4 d7)) (mul64 d5 d8);
          b33 = add64 (add64 (mul64 d6 d6) (mul64 d7 d7)) (mul64 d8 d8);
          aa = div64 (add64 (add64 b11 b22) b33) 3;
          b11_b22 = add64 (add64 (mul64 (sub64 d0 d3) (add64 d0 d3))
                             (mul64 (sub64 d1 d4) (add64 d1 d4)))
                      (mul64 (sub64 d2 d5) (add64 d2 d5));
          b22_b33 = add64 (add64 (mul64 (sub64 d3 d6) (add64 d3 d6))
                             (mul64 (sub64 d4 d7) (add64 d4 d7)))
                      (mul64 (sub64 d5 d8) (add64 d5 d8));
          b33_b11 = add64 (add64 (mul64 (sub64 d6 d0) (add64 d6 d0))
                             (mul64 (sub64 d7 d1) (add64 d7 d1)))
                      (mul64 (sub64 d8 d2) (add64 d8 d2));
          c1 = div64 (sub64 b11_b22 b33_b11) 3;
          c2 = div64 (sub64 b22_b33 b11_b22) 3;
          c3 = div64 (sub64 b33_b11 b22_b33) 3;
          Q = div64 (add64 (add64 (add64
                  (mul64 2 (add64 (add64 (mul64 b12 b12) (mul64 b13 b13)) (mul64 b23 b23)))
                  (mul64 c1 c1)) (mul64 c2 c2)) (mul64 c3 c3)) 6;
          R = div64 (add64 (add64
                  (mul64 c1 (sub64 (mul64 b23 b23) (mul64 c2 c3)))
                  (mul64 b12 (sub64 (mul64 b12 c3) (mul64 (mul64 2 b13) b23))))
                  (mul64 (mul64 b13 b13) c2)) 2;
          aa = CalcSingularvalue_3_root_b64 i aa c1 c2 c3 Q R b11 b22 b33 b12 b13 b23
      in mul64 (sqrt64 (fabs aa)) mult)"

subsection \<open>Notions of the specification\<close>

text \<open>The tangent of claim C2, in the claim's words:
  \<open>t = d12 * sign(zeta) / (|zeta| + sqrt(1 + zeta^2))\<close> with \<open>zeta = (d2 - d1) / (2 * d12)\<close>.\<close>

definition claimed_t :: "real \<Rightarrow> real \<Rightarrow> real \<Rightarrow> real" where
  "claimed_t d1 d12 d2 =
     (let zeta = (d2 - d1) / (2 * d12)
      in d12 * sgn zeta / (\<bar>zeta\<bar> + sqrt (1 + zeta\<^sup>2)))"

text \<open>Vectors and matrices of order 3 (a matrix is the triple of its rows), the symmetric
  matrix with given entries, the permutation matrix that swaps coordinates 1 and \<open>k\<close>, and
  the matrix \<open>I - g v v\<^sup>T\<close>: the notions in which the contract of \<^verbatim>\<open>Reduce3S\<close> is
  stated.\<close>

type_synonym vec3 = "real \<times> real \<times> real"
type_synonym mat3 = "vec3 \<times> vec3 \<times> vec3"

definition mat_vec :: "mat3 \<Rightarrow> vec3 \<Rightarrow> vec3" where
  "mat_vec A x =
     (case A of ((a11, a12, a13), (a21, a22, a23), (a31, a32, a33)) \<Rightarrow>
      case x of (x1, x2, x3) \<Rightarrow>
        (a11 * x1 + a12 * x2 + a13 * x3,
         a21 * x1 + a22 * x2 + a23 * x3,
         a31 * x1 + a32 * x2 + a33 * x3))"

definition mat_mul :: "mat3 \<Rightarrow> mat3 \<Rightarrow> mat3" where
  "mat_mul A B =
     (case A of ((a11, a12, a13), (a21, a22, a23), (a31, a32, a33)) \<Rightarrow>
      case B of ((b11, b12, b13), (b21, b22, b23), (b31, b32, b33)) \<Rightarrow>
        ((a11 * b11 + a12 * b21 + a13 * b31, a11 * b12 + a12 * b22 + a13 * b32,
          a11 * b13 + a12 * b23 + a13 * b33),
         (a21 * b11 + a22 * b21 + a23 * b31, a21 * b12 + a22 * b22 + a23 * b32,
          a21 * b13 + a22 * b23 + a23 * b33),
         (a31 * b11 + a32 * b21 + a33 * b31, a31 * b12 + a32 * b22 + a33 * b32,
          a31 * b13 + a32 * b23 + a33 * b33)))"

definition sym_matrix :: "real \<Rightarrow> real \<Rightarrow> real \<Rightarrow> real \<Rightarrow> real \<Rightarrow> real \<Rightarrow> mat3" where
  "sym_matrix d1 d2 d3 d12 d13 d23 = ((d1, d12, d13), (d12, d2, d23), (d13, d23, d3))"

definition swap_matrix :: "int \<Rightarrow> mat3" where
  "swap_matrix k =
     (if k = 2 then ((0, 1, 0), (1, 0, 0), (0, 0, 1))
      else if k = 3 then ((0, 0, 1), (0, 1, 0), (1, 0, 0))
      else ((1, 0, 0), (0, 1, 0), (0, 0, 1)))"

definition reflection :: "real \<Rightarrow> vec3 \<Rightarrow> mat3" where
  "reflection g v =
     (case v of (v1, v2, v3) \<Rightarrow>
        ((1 - g * v1 * v1, - (g * v1 * v2), - (g * v1 * v3)),
         (- (g * v2 * v1), 1 - g * v2 * v2, - (g * v2 * v3)),
         (- (g * v3 * v1), - (g * v3 * v2), 1 - g * v3 * v3)))"

subsection \<open>Notions of linear algebra used in the proofs\<close>

text \<open>The Euclidean norm of a 3-vector; determinant, identity, trace, scalar product and
  positive semi-definiteness for matrices of order 3.\<close>

definition norm3 :: "real \<Rightarrow> real \<Rightarrow> real \<Rightarrow> real" where
  "norm3 x1 x2 x3 = sqrt (x1 * x1 + x2 * x2 + x3 * x3)"

definition det3 :: "mat3 \<Rightarrow> real" where
  "det3 A =
     (case A of ((a11, a12, a13), (a21, a22, a23), (a31, a32, a33)) \<Rightarrow>
        a11 * (a22 * a33 - a23 * a32) - a12 * (a21 * a33 - a23 * a31)
          + a13 * (a21 * a32 - a22 * a31))"

definition mat_one :: mat3 where
  "mat_one = ((1, 0, 0), (0, 1, 0), (0, 0, 1))"

definition trace3 :: "mat3 \<Rightarrow> real" where
  "trace3 A = (case A of ((a11, a12, a13), (a21, a22, a23), (a31, a32, a33)) \<Rightarrow> a11 + a22 + a33)"

definition dot3 :: "vec3 \<Rightarrow> vec3 \<Rightarrow> real" where
  "dot3 x y = (case x of (x1, x2, x3) \<Rightarrow> case y of (y1, y2, y3) \<Rightarrow> x1 * y1 + x2 * y2 + x3 * y3)"

definition psd3 :: "mat3 \<Rightarrow> bool" where
  "psd3 A = (\<forall>x. 0 \<le> dot3 x (mat_vec A x))"

text \<open>What \<^verbatim>\<open>KernelVector3S\<close> delivers on a singular symmetric matrix \<open>C\<close> when it returns
  1 or 2: a unit vector \<open>z\<close> with \<open>C z = 0\<close> (kernel of dimension 1), or the unit normal of
  the kernel, \<open>C = sg z z\<^sup>T\<close> (kernel of dimension 2).\<close>

definition kernel_result :: "mat3 \<Rightarrow> int \<times> real \<times> real \<times> real \<Rightarrow> bool" where
  "kernel_result C r =
     (case r of (kdim, z1, z2, z3) \<Rightarrow>
        z1 * z1 + z2 * z2 + z3 * z3 = 1 \<and>
        ((kdim = 1 \<and> mat_vec C (z1, z2, z3) = (0, 0, 0)) \<or>
         (kdim = 2 \<and>
          (\<exists>sg. C = ((sg * z1 * z1, sg * z1 * z2, sg * z1 * z3),
                      (sg * z1 * z2, sg * z2 * z2, sg * z2 * z3),
                      (sg * z1 * z3, sg * z2 * z3, sg * z3 * z3))))))"

text \<open>The coefficients of the characteristic polynomial \<open>y^3 - 3 Q y + 2 R\<close> of the trace-free
  symmetric matrix with diagonal \<open>c1, c2, c3\<close>: the expressions that both 3x3 routines
  evaluate for \<open>Q\<close> and \<open>R\<close>.\<close>

definition char_Q :: "real \<Rightarrow> real \<Rightarrow> real \<Rightarrow> real \<Rightarrow> real \<Rightarrow> real \<Rightarrow> real" where
  "char_Q c1 c2 c3 b12 b13 b23 =
     (2 * (b12 * b12 + b13 * b13 + b23 * b23) + c1 * c1 + c2 * c2 + c3 * c3) / 6"

definition char_R :: "real \<Rightarrow> real \<Rightarrow> real \<Rightarrow> real \<Rightarrow> real \<Rightarrow> real \<Rightarrow> real" where
  "char_R c1 c2 c3 b12 b13 b23 =
     (c1 * (b23 * b23 - c2 * c3) + b12 * (b12 * c3 - 2 * b13 * b23) + b13 * b13 * c2) / 2"

section \<open>Properties\<close>

subsection \<open>The scaling factor\<close>

lemma GetScalingFactor_pos: "0 < GetScalingFactor x"
  by (auto simp: GetScalingFactor_def frexp_def Let_def radix_def split: prod.splits if_splits)

text \<open>For \<open>x\<close> in \<open>[2^e, 2^(e+1))\<close> the factor is \<open>2^(e+1)\<close>, unless the exponent is the
  largest one of the format.\<close>

lemma GetScalingFactor_eq:
  assumes "0 < x" "2 powi e \<le> x" "x < 2 powi (e + 1)" "e + 1 \<noteq> 1024"
  shows "GetScalingFactor x = 2 powi (e + 1)"
proof -
  have a: "2 powr real_of_int e = (2::real) powi e"
    "2 powr real_of_int (e + 1) = (2::real) powi (e + 1)"
    by (rule powr_real_of_int'; simp)+
  have "\<lfloor>log 2 x\<rfloor> = e"
    using assms(2,3) floor_log_eq_powr_iff[of x 2 e] assms(1) unfolding a by simp
  then show ?thesis
    using assms by (simp add: GetScalingFactor_def frexp_def Let_def max_exponent_def)
qed

lemma GetScalingFactor_5: "GetScalingFactor 5 = 8"
  using GetScalingFactor_eq[of 5 2] by simp

subsection \<open>Singular value of a 1x1 matrix\<close>

text \<open>
  Claim C1 says that \<^verbatim>\<open>CalcSingularvalue(0)\<close> of a 1x1 matrix is the absolute value of
  its entry. The branch \<^verbatim>\<open>n == 1\<close> returns \<open>d[0]\<close> itself: for the matrix \<open>(-2)\<close> the
  result is \<open>-2\<close>, not the singular value \<open>2\<close>.
\<close>

theorem CalcSingularvalue_1x1_negative:
  "CalcSingularvalue False \<lparr>Height = 1, Width = 1, data = [- 2]\<rparr> 0 = Inr (- 2) \<and>
   CalcSingularvalue True \<lparr>Height = 1, Width = 1, data = [- 2]\<rparr> 0 = Inr (- 2)"
  by (simp add: CalcSingularvalue_def)

theorem CalcSingularvalue_1x1_negative_witness:
  "CalcSingularvalue False \<lparr>Height = 1, Width = 1, data = [- 2]\<rparr> 0 \<noteq> Inr \<bar>- 2\<bar>"
  using CalcSingularvalue_1x1_negative by simp

subsection \<open>The triple root\<close>

text \<open>
  Claim C3: when the invariant \<open>Q\<close> of the scaled symmetric 3x3 matrix is not positive,
  \<^verbatim>\<open>CalcEigenvalues\<close> returns three eigenvalues equal to \<open>aa * mult\<close>, where \<open>aa\<close> is a
  third of the trace of the scaled matrix, and the identity as eigenvector matrix.
\<close>

theorem CalcEigenvalues_triple_root:
  assumes "Height M = 3" "Width M = 3" "length (data M) = 9"
    and "mult = GetScalingFactor (max_update (max_update (max_update (max_update (max_update
           (fabs (data M ! 0)) (data M ! 4)) (data M ! 8)) (data M ! 3)) (data M ! 6))
           (data M ! 7))"
    and "d11 = data M ! 0 / mult" "d22 = data M ! 4 / mult" "d33 = data M ! 8 / mult"
    and "d12 = data M ! 3 / mult" "d13 = data M ! 6 / mult" "d23 = data M ! 7 / mult"
    and "aa = (d11 + d22 + d33) / 3"
    and "c1 = d11 - aa" "c2 = d22 - aa" "c3 = d33 - aa"
    and "(2 * (d12 * d12 + d13 * d13 + d23 * d23) + c1 * c1 + c2 * c2 + c3 * c3) / 6 \<le> 0"
  shows "CalcEigenvalues dbg M =
           Inr ([aa * mult, aa * mult, aa * mult], [1, 0, 0, 0, 1, 0, 0, 0, 1])"
proof -
  have "CalcEigenvalues_3_scaled d11 d22 d33 d12 d13 d23 =
          ([aa, aa, aa], [1, 0, 0, 0, 1, 0, 0, 0, 1])"
  proof -
    have Q: "(2 * (d12 * d12 + d13 * d13 + d23 * d23) +
              (d11 - (d11 + d22 + d33) / 3) * (d11 - (d11 + d22 + d33) / 3) +
              (d22 - (d11 + d22 + d33) / 3) * (d22 - (d11 + d22 + d33) / 3) +
              (d33 - (d11 + d22 + d33) / 3) * (d33 - (d11 + d22 + d33) / 3)) / 6 \<le> 0"
      using assms(15) unfolding assms(11-14) .
    show ?thesis
      unfolding CalcEigenvalues_3_scaled_def Let_def assms(11)
      by (simp only: Q if_True)
  qed
  then have "CalcEigenvalues_3 (data M) =
      ([aa * mult, aa * mult, aa * mult], [1, 0, 0, 0, 1, 0, 0, 0, 1])"
    using assms(4-10) unfolding CalcEigenvalues_3_def Let_def by simp
  then show ?thesis
    using assms(1-3) by (simp add: CalcEigenvalues_def)
qed

theorem CalcEigenvalues_triple_root_witness:
  "CalcEigenvalues False \<lparr>Height = 3, Width = 3, data = [5, 0, 0, 0, 5, 0, 0, 0, 5]\<rparr> =
     Inr ([5, 5, 5], [1, 0, 0, 0, 1, 0, 0, 0, 1])"
proof -
  let ?M = "\<lparr>Height = 3, Width = 3, data = [5, 0, 0, 0, 5, 0, 0, 0, 5]\<rparr>"
  have m: "(8::real) = GetScalingFactor (max_update (max_update (max_update (max_update
      (max_update (fabs (data ?M ! 0)) (data ?M ! 4)) (data ?M ! 8)) (data ?M ! 3))
      (data ?M ! 6)) (data ?M ! 7))"
    by (simp add: max_update_def fabs_def GetScalingFactor_5)
  have "CalcEigenvalues False ?M =
      Inr ([5 / 8 * 8, 5 / 8 * 8, 5 / 8 * 8], [1, 0, 0, 0, 1, 0, 0, 0, 1])"
    by (rule CalcEigenvalues_triple_root [where mult = 8 and ?d11.0 = "5 / 8"
          and ?d22.0 = "5 / 8" and ?d33.0 = "5 / 8" and ?d12.0 = 0 and ?d13.0 = 0
          and ?d23.0 = 0 and aa = "5 / 8" and ?c1.0 = 0 and ?c2.0 = 0 and ?c3.0 = 0,
          OF _ _ _ m]) simp_all
  then show ?thesis by simp
qed

subsection \<open>Size checks\<close>

text \<open>
  Claim C8 says that a call on a matrix that is not square, or whose order is outside
  \<open>{1,2,3}\<close> (\<open>{2,3}\<close> for the eigenvalues), always aborts. The check is compiled only
  under \<^verbatim>\<open>MFEM_DEBUG\<close>. Without it a 1x2 matrix is treated as the 1x1 matrix of its
  first entry and a value is returned.
\<close>

theorem CalcSingularvalue_nonsquare_no_debug:
  "CalcSingularvalue False \<lparr>Height = 1, Width = 2, data = [3, 4]\<rparr> 0 = Inr 3"
  by (simp add: CalcSingularvalue_def)

text \<open>
  Claim C8, amended: in a build with \<^verbatim>\<open>MFEM_DEBUG\<close>, a call on a matrix that is not
  square or whose order is outside the supported range ends in \<^verbatim>\<open>mfem_error\<close> with the
  name of the function as message, and yields no value.
\<close>

theorem size_check_in_debug_build:
  "(Height M \<noteq> Width M \<or> Height M < 1 \<or> 3 < Height M \<longrightarrow>
      CalcSingularvalue True M i = Inl (MfemError ''DenseMatrix::CalcSingularvalue'')) \<and>
   (Height M \<noteq> Width M \<or> Height M < 2 \<or> 3 < Height M \<longrightarrow>
      CalcEigenvalues True M = Inl (MfemError ''DenseMatrix::CalcEigenvalues''))"
  by (simp add: CalcSingularvalue_def CalcEigenvalues_def)

theorem size_check_in_debug_build_witness:
  "CalcSingularvalue True \<lparr>Height = 2, Width = 3, data = [1, 0, 0, 1, 0, 0]\<rparr> 0 =
     Inl (MfemError ''DenseMatrix::CalcSingularvalue'') \<and>
   CalcEigenvalues True \<lparr>Height = 2, Width = 3, data = [1, 0, 0, 1, 0, 0]\<rparr> =
     Inl (MfemError ''DenseMatrix::CalcEigenvalues'')"
  using size_check_in_debug_build [of "\<lparr>Height = 2, Width = 3, data = [1, 0, 0, 1, 0, 0]\<rparr>" 0]
  by simp

subsection \<open>Entries read by the eigenvalue routine\<close>

text \<open>
  Claim C9: \<^verbatim>\<open>CalcEigenvalues\<close> reads only the diagonal and the strictly upper
  triangular entries of the column-major array. Two square matrices of the same order 2
  or 3 that agree on \<open>d[0], d[2], d[3]\<close> (order 2) or on \<open>d[0], d[3], d[4], d[6], d[7], d[8]\<close>
  (order 3) give the same eigenvalues and eigenvectors.
\<close>

theorem CalcEigenvalues_reads_upper_triangle:
  assumes "Height A = Width A" "Height B = Width B" "Height A = Height B"
    and "Height A = 2 \<or> Height A = 3"
    and "length (data A) = nat (Height A * Width A)"
    and "length (data B) = nat (Height B * Width B)"
    and "Height A = 2 \<longrightarrow> (\<forall>j \<in> {0, 2, 3}. data A ! j = data B ! j)"
    and "Height A = 3 \<longrightarrow> (\<forall>j \<in> {0, 3, 4, 6, 7, 8}. data A ! j = data B ! j)"
  shows "CalcEigenvalues dbg A = CalcEigenvalues dbg B"
proof -
  from assms(4) show ?thesis
  proof
    assume h: "Height A = 2"
    with assms have "CalcEigenvalues_2 (data A) = CalcEigenvalues_2 (data B)"
      by (simp add: CalcEigenvalues_2_def)
    with h assms(1,2,3,5,6) show ?thesis
      by (simp add: CalcEigenvalues_def)
  next
    assume h: "Height A = 3"
    with assms have "CalcEigenvalues_3 (data A) = CalcEigenvalues_3 (data B)"
      by (simp add: CalcEigenvalues_3_def)
    with h assms(1,2,3,5,6) show ?thesis
      by (simp add: CalcEigenvalues_def)
  qed
qed

theorem CalcEigenvalues_reads_upper_triangle_witness:
  "CalcEigenvalues False \<lparr>Height = 2, Width = 2, data = [2, 7, 1, 2]\<rparr> =
   CalcEigenvalues False \<lparr>Height = 2, Width = 2, data = [2, - 5, 1, 2]\<rparr>"
  using CalcEigenvalues_reads_upper_triangle
    [of "\<lparr>Height = 2, Width = 2, data = [2, 7, 1, 2]\<rparr>"
        "\<lparr>Height = 2, Width = 2, data = [2, - 5, 1, 2]\<rparr>" False]
  by simp

subsection \<open>The guarded quotient of the 2x2 singular values\<close>

lemma CalcSingularvalue_2_s_zero_iff:
  "CalcSingularvalue_2_s d0 d1 d2 d3 = 0 \<longleftrightarrow> d0 = 0 \<and> d1 = 0 \<and> d2 = 0 \<and> d3 = 0"
proof -
  define S where "S = 0.5 * (d0 * d0 + d1 * d1 + d2 * d2 + d3 * d3)"
  define T where "T =
     (0.5 * ((d0 + d2) * (d0 - d2) + (d1 - d3) * (d1 + d3))) *
     (0.5 * ((d0 + d2) * (d0 - d2) + (d1 - d3) * (d1 + d3)))
     + (d0 * d2 + d1 * d3) * (d0 * d2 + d1 * d3)"
  have s: "CalcSingularvalue_2_s d0 d1 d2 d3 = sqrt (S + sqrt T)"
    by (simp add: CalcSingularvalue_2_s_def Let_def S_def T_def)
  have S0: "0 \<le> S" by (simp add: S_def)
  have T0: "0 \<le> sqrt T" by (simp add: T_def)
  have "sqrt (S + sqrt T) = 0 \<longleftrightarrow> S + sqrt T = 0" by simp
  also have "\<dots> \<longleftrightarrow> S = 0 \<and> sqrt T = 0" using S0 T0 by linarith
  also have "\<dots> \<longleftrightarrow> d0 = 0 \<and> d1 = 0 \<and> d2 = 0 \<and> d3 = 0"
  proof
    assume "S = 0 \<and> sqrt T = 0"
    then have e: "d0 * d0 + d1 * d1 + d2 * d2 + d3 * d3 = 0" by (simp add: S_def)
    have p: "0 \<le> d0 * d0" "0 \<le> d1 * d1" "0 \<le> d2 * d2" "0 \<le> d3 * d3" by simp_all
    have "d0 * d0 = 0" "d1 * d1 = 0" "d2 * d2 = 0" "d3 * d3 = 0"
      using p e by linarith+
    then show "d0 = 0 \<and> d1 = 0 \<and> d2 = 0 \<and> d3 = 0" by simp
  next
    assume "d0 = 0 \<and> d1 = 0 \<and> d2 = 0 \<and> d3 = 0"
    then show "S = 0 \<and> sqrt T = 0" by (simp add: S_def T_def)
  qed
  finally show ?thesis using s by simp
qed

text \<open>
  Claim C10: in the 2x2 branch of \<^verbatim>\<open>CalcSingularvalue\<close> the value \<open>s\<close> of the scaled
  matrix is zero exactly for the zero matrix; in that case the function returns 0 for
  every index without forming the quotient by \<open>s\<close>; and for no input does the quotient
  have a zero divisor.
\<close>

theorem CalcSingularvalue_2x2_quotient_guarded:
  assumes "Height M = 2" "Width M = 2" "length (data M) = 4"
    and "mult = GetScalingFactor (max_update (max_update (max_update
           (fabs (data M ! 0)) (data M ! 1)) (data M ! 2)) (data M ! 3))"
    and "s = CalcSingularvalue_2_s (data M ! 0 / mult) (data M ! 1 / mult)
               (data M ! 2 / mult) (data M ! 3 / mult)"
  shows "CalcSingularvalue dbg M i \<noteq> Inl DivisionByZero \<and>
         (s = 0 \<longleftrightarrow> (\<forall>j < 4. data M ! j = 0)) \<and>
         (s = 0 \<longrightarrow> CalcSingularvalue dbg M i = Inr 0)"
proof -
  have m: "mult \<noteq> 0"
    using GetScalingFactor_pos[of "max_update (max_update (max_update
           (fabs (data M ! 0)) (data M ! 1)) (data M ! 2)) (data M ! 3)"] assms(4) by simp
  have eq: "CalcSingularvalue dbg M i = CalcSingularvalue_2 (data M) i"
    using assms(1-3) by (simp add: CalcSingularvalue_def)
  have all4: "(\<forall>j < 4. data M ! j = 0) \<longleftrightarrow>
      data M ! 0 = 0 \<and> data M ! 1 = 0 \<and> data M ! 2 = 0 \<and> data M ! 3 = 0"
  proof -
    have "{..<4::nat} = {0, 1, 2, 3}" by auto
    then have "(\<forall>j < 4. data M ! j = 0) \<longleftrightarrow> (\<forall>j \<in> {0, 1, 2, 3::nat}. data M ! j = 0)"
      by (metis lessThan_iff)
    then show ?thesis by simp
  qed
  have 1: "s = 0 \<longleftrightarrow> (\<forall>j < 4. data M ! j = 0)"
    unfolding all4 assms(5) CalcSingularvalue_2_s_zero_iff using m by simp
  have 2: "s = 0 \<longrightarrow> CalcSingularvalue dbg M i = Inr 0"
    unfolding eq CalcSingularvalue_2_def Let_def assms(5) assms(4) by simp
  have 3: "CalcSingularvalue dbg M i \<noteq> Inl DivisionByZero"
    unfolding eq CalcSingularvalue_2_def Let_def fdiv_def by simp
  from 1 2 3 show ?thesis by blast
qed

theorem CalcSingularvalue_2x2_quotient_guarded_witness:
  "CalcSingularvalue False \<lparr>Height = 2, Width = 2, data = [0, 0, 0, 0]\<rparr> 1 \<noteq> Inl DivisionByZero \<and>
   CalcSingularvalue_2_s (0 / 1) (0 / 1) (0 / 1) (0 / 1) = 0 \<and>
   CalcSingularvalue False \<lparr>Height = 2, Width = 2, data = [0, 0, 0, 0]\<rparr> 1 = Inr 0"
proof -
  let ?M = "\<lparr>Height = 2, Width = 2, data = [0, 0, 0, 0]\<rparr>"
  have m: "(1::real) = GetScalingFactor (max_update (max_update (max_update
           (fabs (data ?M ! 0)) (data ?M ! 1)) (data ?M ! 2)) (data ?M ! 3))"
    by (simp add: max_update_def fabs_def GetScalingFactor_def)
  have z: "\<forall>j < 4. data ?M ! j = (0::real)"
    by (simp add: nth_Cons split: nat.splits)
  from CalcSingularvalue_2x2_quotient_guarded [where M = ?M and mult = 1 and dbg = False
        and i = 1, OF _ _ _ m refl] z
  show ?thesis by simp
qed

subsection \<open>The 2x2 rotation\<close>

lemma sqrt_1_eps_eq: "sqrt_1_eps = 2 ^ 26"
proof -
  have "sqrt (2 ^ 52) = (2 ^ 26 :: real)"
    by (rule real_sqrt_unique) simp_all
  then show ?thesis
    by (simp add: sqrt_1_eps_def epsilon_def)
qed

lemma sqrt_1_plus_sq_3_4: "sqrt (1 + (3 / 4)\<^sup>2) = 5 / 4"
  by (rule real_sqrt_unique) (simp_all add: power2_eq_square)

lemma sqrt_25_16: "sqrt (25 / 16) = 5 / 4"
  by (rule real_sqrt_unique) (simp_all add: power2_eq_square)

lemma Eigenvalues2S_0_2_3: "Eigenvalues2S 2 0 3 = (- 1, 4)"
proof -
  have "1 + (3 / 4) * (3 / 4) = (25 / 16 :: real)" by simp
  then show ?thesis
    by (simp add: Eigenvalues2S_def Let_def fabs_def copysign_signbit_def signbit_quotient_def
        sqrt_1_eps_eq sqrt_25_16)
qed

lemma claimed_t_0_2_3: "claimed_t 0 2 3 = 1"
  by (simp add: claimed_t_def Let_def sqrt_1_plus_sq_3_4)

text \<open>
  Claim C2 gives the eigenvalues as \<open>d1 - t * d12\<close> and \<open>d2 + t * d12\<close> for the tangent
  \<open>t\<close> that already carries the factor \<open>d12\<close>. For \<open>(d1, d12, d2) = (0, 2, 3)\<close> the
  code returns \<open>(-1, 4)\<close>, the claim's formula gives \<open>(-2, 5)\<close>.
\<close>

theorem Eigenvalues2S_claimed_formula_fails:
  "(2::real) \<noteq> 0 \<and> \<bar>(3 - 0) / (2 * 2)\<bar> < sqrt_1_eps \<and>
   Eigenvalues2S 2 0 3 \<noteq> (0 - claimed_t 0 2 3 * 2, 3 + claimed_t 0 2 3 * 2)"
  by (simp add: Eigenvalues2S_0_2_3 claimed_t_0_2_3 sqrt_1_eps_eq)

lemma copysign_signbit_inverse:
  assumes "0 < a"
  shows "copysign_signbit (1 / a) b = (if b then - 1 else 1) / a"
  using assms by (simp add: copysign_signbit_def)

lemma signbit_quotient_zeta:
  assumes "d12 \<noteq> 0"
  shows "signbit_quotient (d2 - d1) (2 * d12) =
         ((d2 - d1) / (2 * d12) < 0 \<or> (d2 - d1) / (2 * d12) = 0 \<and> d12 < 0)"
  using assms by (auto simp: signbit_quotient_def)

text \<open>
  Claim C2, amended: for \<open>d12 \<noteq> 0\<close> and \<open>|zeta| < sqrt(1/epsilon)\<close> both 2x2 routines
  return \<open>d1 - t * d12\<close> and \<open>d2 + t * d12\<close> where
  \<open>t = sigma / (|zeta| + sqrt(1 + zeta^2))\<close> has no factor \<open>d12\<close>, and the rotation is
  \<open>c = sqrt(1 / (1 + t^2))\<close>, \<open>s = c * t\<close>. Here \<open>sigma\<close> is the sign that \<^verbatim>\<open>copysign\<close>
  reads from the computed \<open>zeta\<close>: \<open>-1\<close> for \<open>zeta < 0\<close>, \<open>+1\<close> for \<open>zeta > 0\<close>, and for
  \<open>zeta = 0\<close> (that is \<open>d1 = d2\<close>) the sign of the zero \<open>0.0 / (2 * d12)\<close>, which is the
  sign of \<open>d12\<close> (a zero input being \<open>+0.0\<close>).
\<close>

theorem Eigen2S_rotation_formula:
  assumes "d12 \<noteq> 0" and "zeta = (d2 - d1) / (2 * d12)" and "\<bar>zeta\<bar> < sqrt_1_eps"
    and "sigma = (if zeta < 0 \<or> zeta = 0 \<and> d12 < 0 then - 1 else 1)"
    and "t = sigma / (\<bar>zeta\<bar> + sqrt (1 + zeta\<^sup>2))"
  shows "Eigenvalues2S d12 d1 d2 = (d1 - t * d12, d2 + t * d12) \<and>
         Eigensystem2S d12 d1 d2 =
           (d1 - t * d12, d2 + t * d12, sqrt (1 / (1 + t\<^sup>2)), sqrt (1 / (1 + t\<^sup>2)) * t)"
proof -
  have pos: "0 < fabs zeta + sqrt (1 + zeta * zeta)"
  proof -
    have "0 < sqrt (1 + zeta * zeta)"
      by (metis add_pos_nonneg real_sqrt_gt_zero zero_less_one zero_le_square)
    then show ?thesis by (simp add: fabs_def add_nonneg_pos)
  qed
  have sb: "signbit_quotient (d2 - d1) (2 * d12) = (zeta < 0 \<or> zeta = 0 \<and> d12 < 0)"
    unfolding assms(2) by (rule signbit_quotient_zeta[OF assms(1)])
  have t: "copysign_signbit (1 / (fabs zeta + sqrt (1 + zeta * zeta)))
      (signbit_quotient (d2 - d1) (2 * d12)) = t"
    unfolding copysign_signbit_inverse[OF pos] sb assms(5) assms(4)
    by (simp add: fabs_def power2_eq_square)
  have c: "fabs ((d2 - d1) / (2 * d12)) < sqrt_1_eps"
    using assms(2,3) by (simp add: fabs_def)
  have 1: "Eigenvalues2S d12 d1 d2 = (d1 - t * d12, d2 + t * d12)"
    unfolding Eigenvalues2S_def Let_def using assms(1) c t[unfolded assms(2)]
    by (simp add: mult.commute)
  have 2: "Eigensystem2S d12 d1 d2 =
           (d1 - t * d12, d2 + t * d12, sqrt (1 / (1 + t\<^sup>2)), sqrt (1 / (1 + t\<^sup>2)) * t)"
    unfolding Eigensystem2S_def Let_def using assms(1) c t[unfolded assms(2)]
    by (simp add: power2_eq_square)
  from 1 2 show ?thesis by simp
qed

text \<open>The instance \<open>(d1, d12, d2) = (2, -1, 2)\<close>: \<open>zeta\<close> is the zero \<open>0.0 / -2.0\<close>, so
  \<open>sigma = -1\<close> and \<open>t = -1\<close>; the eigenvalues are returned as \<open>(1, 3)\<close> and \<open>s\<close> is
  negative.\<close>

theorem Eigen2S_rotation_formula_witness:
  "Eigenvalues2S (- 1) 2 2 = (2 - (- 1) * (- 1), 2 + (- 1) * (- 1)) \<and>
   Eigensystem2S (- 1) 2 2 = (2 - (- 1) * (- 1), 2 + (- 1) * (- 1), sqrt (1 / (1 + (- 1)\<^sup>2)),
      sqrt (1 / (1 + (- 1)\<^sup>2)) * (- 1))"
proof -
  have h1: "(- 1::real) \<noteq> 0" by simp
  have h2: "(0::real) = (2 - 2) / (2 * (- 1))" by simp
  have h3: "\<bar>0 :: real\<bar> < sqrt_1_eps" by (simp add: sqrt_1_eps_eq)
  have h4: "(- 1::real) = (if (0::real) < 0 \<or> (0::real) = 0 \<and> (- 1::real) < 0 then - 1 else 1)"
    by simp
  have h5: "(- 1::real) = (- 1) / (\<bar>0\<bar> + sqrt (1 + 0\<^sup>2))" by simp
  show ?thesis
    by (rule Eigen2S_rotation_formula [OF h1 h2 h3 h4 h5])
qed

subsection \<open>The kernel dimension\<close>

lemma KernelVector3G_aux_kdim:
  "fst (KernelVector3G_aux mode d1 d2 d3 c12 c13 c23 c21 c31 c32) \<in> {1, 2}"
  unfolding KernelVector3G_aux_def
  by (simp add: case_prod_beta if_distrib[of fst])

lemma KernelVector3S_col_zero_iff:
  "snd (KernelVector3S_col d12 d13 d23 d1 d2 d3) = 0 \<longleftrightarrow>
     d1 = 0 \<and> d2 = 0 \<and> d3 = 0 \<and> d12 = 0 \<and> d13 = 0 \<and> d23 = 0"
proof -
  define n1 where "n1 = fabs d1 + fabs d12 + fabs d13"
  define n2 where "n2 = fabs d2 + fabs d12 + fabs d23"
  define n3 where "n3 = fabs d3 + fabs d13 + fabs d23"
  have nn: "0 \<le> n1" "0 \<le> n2" "0 \<le> n3"
    by (simp_all add: n1_def n2_def n3_def fabs_def)
  have s: "snd (KernelVector3S_col d12 d13 d23 d1 d2 d3) =
      (if n1 \<ge> n3 then (if n1 \<ge> n2 then n1 else n2) else (if n2 \<ge> n3 then n2 else n3))"
    unfolding KernelVector3S_col_def Let_def n1_def n2_def n3_def by simp
  have "snd (KernelVector3S_col d12 d13 d23 d1 d2 d3) = 0 \<longleftrightarrow> n1 = 0 \<and> n2 = 0 \<and> n3 = 0"
    unfolding s using nn by auto
  also have "\<dots> \<longleftrightarrow> d1 = 0 \<and> d2 = 0 \<and> d3 = 0 \<and> d12 = 0 \<and> d13 = 0 \<and> d23 = 0"
    unfolding n1_def n2_def n3_def fabs_def by auto
  finally show ?thesis .
qed

text \<open>
  Claim C6: \<^verbatim>\<open>KernelVector3S\<close> returns 1, 2 or 3, and it returns 3 exactly when all six
  entries are zero; so every nonzero input yields 1 or 2 (with the vector in the other
  three components of the result).
\<close>

theorem KernelVector3S_dimension:
  "fst (KernelVector3S mode d12 d13 d23 d1 d2 d3) \<in> {1, 2, 3} \<and>
   (fst (KernelVector3S mode d12 d13 d23 d1 d2 d3) = 3 \<longleftrightarrow>
      d1 = 0 \<and> d2 = 0 \<and> d3 = 0 \<and> d12 = 0 \<and> d13 = 0 \<and> d23 = 0)"
proof -
  obtain col n where cn: "KernelVector3S_col d12 d13 d23 d1 d2 d3 = (col, n)"
    by (cases "KernelVector3S_col d12 d13 d23 d1 d2 d3")
  have z: "n = 0 \<longleftrightarrow> d1 = 0 \<and> d2 = 0 \<and> d3 = 0 \<and> d12 = 0 \<and> d13 = 0 \<and> d23 = 0"
    using KernelVector3S_col_zero_iff[of d12 d13 d23 d1 d2 d3] cn by simp
  show ?thesis
  proof (cases "n = 0")
    case True
    then have "fst (KernelVector3S mode d12 d13 d23 d1 d2 d3) = 3"
      by (simp add: KernelVector3S_def cn)
    with True z show ?thesis by simp
  next
    case False
    have aux: "\<And>a b c d e f g h i. fst (KernelVector3G_aux mode a b c d e f g h i) = 1 \<or>
        fst (KernelVector3G_aux mode a b c d e f g h i) = 2"
      using KernelVector3G_aux_kdim by simp
    have "fst (KernelVector3S mode d12 d13 d23 d1 d2 d3) = 1 \<or>
          fst (KernelVector3S mode d12 d13 d23 d1 d2 d3) = 2"
      unfolding KernelVector3S_def cn Let_def using False aux
      by (simp add: case_prod_beta if_distrib[of fst])
    with False z show ?thesis by auto
  qed
qed

subsection \<open>Householder deflation\<close>

text \<open>The entries that \<^verbatim>\<open>Reduce3S\<close> computes through the vector \<open>w\<close> are those of the
  product \<open>Q A Q\<close>, for any \<open>g\<close> and \<open>v\<close>.\<close>

lemma reflect_entries:
  fixes d1 d2 d3 d12 d13 d23 v1 v2 v3 g :: real
  defines "u1 \<equiv> g * (d1 * v1 + d12 * v2 + d13 * v3)"
    and "u2 \<equiv> g * (d12 * v1 + d2 * v2 + d23 * v3)"
    and "u3 \<equiv> g * (d13 * v1 + d23 * v2 + d3 * v3)"
  defines "s \<equiv> (g / 2) * (v1 * u1 + v2 * u2 + v3 * u3)"
  defines "w1 \<equiv> u1 - s * v1" and "w2 \<equiv> u2 - s * v2" and "w3 \<equiv> u3 - s * v3"
  shows "mat_mul (reflection g (v1, v2, v3))
           (mat_mul (sym_matrix d1 d2 d3 d12 d13 d23) (reflection g (v1, v2, v3))) =
         ((d1 - 2 * v1 * w1, d12 - v1 * w2 - v2 * w1, d13 - v1 * w3 - v3 * w1),
          (d12 - v1 * w2 - v2 * w1, d2 - 2 * v2 * w2, d23 - (v2 * w3 + v3 * w2)),
          (d13 - v1 * w3 - v3 * w1, d23 - (v2 * w3 + v3 * w2), d3 - 2 * v3 * w3))"
  unfolding mat_mul_def reflection_def sym_matrix_def assms
  by (simp add: algebra_simps)

lemma mat_vec_reflection:
  "mat_vec (reflection g (v1, v2, v3)) (y1, y2, y3) =
     (y1 - g * (v1 * y1 + v2 * y2 + v3 * y3) * v1,
      y2 - g * (v1 * y1 + v2 * y2 + v3 * y3) * v2,
      y3 - g * (v1 * y1 + v2 * y2 + v3 * y3) * v3)"
  by (simp add: mat_vec_def reflection_def algebra_simps)

lemma copysign_1_cases: "copysign 1 x = 1 \<or> copysign 1 x = - 1"
  by (simp add: copysign_def)

lemma copysign_1_mult: "copysign 1 x * x = \<bar>x\<bar>"
  by (simp add: copysign_def)

lemma Reduce3S_reflect_nonzero:
  assumes unit: "y1 * y1 + y2 * y2 + y3 * y3 = 1"
    and s: "hypot y2 y3 \<noteq> 0"
  obtains m where "0 < m"
    and "Reduce3S_reflect d1 d2 d3 d12 d13 d23 y1 y2 y3 =
      (let v1 = (y1 - copysign 1 y1) / m; v2 = y2 / m; v3 = y3 / m;
           g = (m * m) / (1 - \<bar>y1\<bar>);
           w1 = g * (d1 * v1 + d12 * v2 + d13 * v3);
           w2 = g * (d12 * v1 + d2 * v2 + d23 * v3);
           w3 = g * (d13 * v1 + d23 * v2 + d3 * v3);
           s = (g / 2) * (v1 * w1 + v2 * w2 + v3 * w3);
           w1 = w1 - s * v1;
           w2 = w2 - s * v2;
           w3 = w3 - s * v3
       in ((d1 - 2 * v1 * w1, d2 - 2 * v2 * w2, d3 - 2 * v3 * w3, d23 - (v2 * w3 + v3 * w2)),
           (v1, v2, v3, g)))"
    and "\<bar>y1\<bar> < 1"
proof -
  define sg where "sg = copysign 1 y1"
  define s where "s = hypot y2 y3"
  have sg2: "sg * sg = 1" using copysign_1_cases[of y1] by (auto simp: sg_def)
  have sgy: "sg * y1 = \<bar>y1\<bar>" by (simp add: sg_def copysign_1_mult)
  have ss: "s * s = y2 * y2 + y3 * y3"
    by (simp add: s_def hypot_def)
  have spos: "0 < s * s" using s by (simp add: s_def zero_less_mult_iff less_le not_le)
  have y1lt: "\<bar>y1\<bar> < 1"
  proof -
    have "y1 * y1 < 1" using spos ss unit by linarith
    then have "y1\<^sup>2 < 1" by (simp add: power2_eq_square)
    then show ?thesis using abs_square_less_1[of y1] by simp
  qed
  have den: "y1 + sg \<noteq> 0"
    using copysign_1_cases[of y1] y1lt by (auto simp: sg_def)
  have v1': "- s * (s / (y1 + sg)) = y1 - sg"
  proof -
    have "s * s = (sg - y1) * (sg + y1)"
      using ss unit sg2 by (simp add: algebra_simps)
    then have "- s * (s / (y1 + sg)) = - ((sg - y1) * (sg + y1)) / (y1 + sg)" by simp
    also have "\<dots> = y1 - sg" using den by (simp add: field_simps)
    finally show ?thesis .
  qed
  define m where "m = (let g = fabs (y1 - sg); g = (if fabs y2 > g then fabs y2 else g)
      in (if fabs y3 > g then fabs y3 else g))"
  have mpos: "0 < m"
  proof -
    have "y2 \<noteq> 0 \<or> y3 \<noteq> 0" using spos ss by auto
    then show ?thesis by (auto simp: m_def Let_def fabs_def)
  qed
  have p: "0 < 1 - \<bar>y1\<bar>" using y1lt by simp
  have vv: "((y1 - sg) / m) * ((y1 - sg) / m) + (y2 / m) * (y2 / m) + (y3 / m) * (y3 / m)
      = 2 * (1 - \<bar>y1\<bar>) / (m * m)"
  proof -
    have "(y1 - sg) * (y1 - sg) + y2 * y2 + y3 * y3 = 2 * (1 - \<bar>y1\<bar>)"
      using unit sg2 sgy by (simp add: algebra_simps)
    then show ?thesis using mpos
      by (simp add: add_divide_distrib[symmetric])
  qed
  have g: "2 / (((y1 - sg) / m) * ((y1 - sg) / m) + (y2 / m) * (y2 / m) + (y3 / m) * (y3 / m))
      = (m * m) / (1 - \<bar>y1\<bar>)"
    unfolding vv using p mpos by (simp add: field_simps)
  have "Reduce3S_reflect d1 d2 d3 d12 d13 d23 y1 y2 y3 =
      (let v1 = (y1 - copysign 1 y1) / m; v2 = y2 / m; v3 = y3 / m;
           g = (m * m) / (1 - \<bar>y1\<bar>);
           w1 = g * (d1 * v1 + d12 * v2 + d13 * v3);
           w2 = g * (d12 * v1 + d2 * v2 + d23 * v3);
           w3 = g * (d13 * v1 + d23 * v2 + d3 * v3);
           s = (g / 2) * (v1 * w1 + v2 * w2 + v3 * w3);
           w1 = w1 - s * v1;
           w2 = w2 - s * v2;
           w3 = w3 - s * v3
       in ((d1 - 2 * v1 * w1, d2 - 2 * v2 * w2, d3 - 2 * v3 * w3, d23 - (v2 * w3 + v3 * w2)),
           (v1, v2, v3, g)))"
    using s unfolding Reduce3S_reflect_def Let_def s_def[symmetric] sg_def[symmetric] v1'
      m_def[unfolded Let_def, symmetric] g
    by (simp only: if_False)
  then show ?thesis using that mpos y1lt by blast
qed

lemma mat_vec_mat_mul: "mat_vec (mat_mul A B) x = mat_vec A (mat_vec B x)"
  by (cases A; cases B; cases x) (auto simp: mat_vec_def mat_mul_def algebra_simps)

lemma mat_vec_scale:
  "mat_vec A (c * x1, c * x2, c * x3) =
     (case mat_vec A (x1, x2, x3) of (r1, r2, r3) \<Rightarrow> (c * r1, c * r2, c * r3))"
  by (cases A) (auto simp: mat_vec_def algebra_simps)

lemma mat_vec_e1:
  "mat_vec ((a11, a12, a13), (a21, a22, a23), (a31, a32, a33)) (1, 0, 0) = (a11, a21, a31)"
  by (simp add: mat_vec_def)

lemma reflect_deflates:
  assumes unit: "y1 * y1 + y2 * y2 + y3 * y3 = 1"
    and eig: "mat_vec (sym_matrix d1 d2 d3 d12 d13 d23) (y1, y2, y3) =
               (lam * y1, lam * y2, lam * y3)"
    and red: "Reduce3S_reflect d1 d2 d3 d12 d13 d23 y1 y2 y3 = ((b1, b2, b3, b23), (v1, v2, v3, g))"
  shows "mat_vec (reflection g (v1, v2, v3)) (y1, y2, y3) = (copysign 1 y1, 0, 0) \<and>
         mat_mul (reflection g (v1, v2, v3))
           (mat_mul (sym_matrix d1 d2 d3 d12 d13 d23) (reflection g (v1, v2, v3))) =
         ((lam, 0, 0), (0, b2, b23), (0, b23, b3)) \<and> b1 = lam"
proof (cases "hypot y2 y3 = 0")
  case True
  then have "y2 * y2 + y3 * y3 = 0" by (simp add: hypot_def)
  then have y23: "y2 = 0" "y3 = 0"
    by simp_all
  with unit have y1: "y1 * y1 = 1" by simp
  then have y1n: "y1 \<noteq> 0" by auto
  have "y1 = 1 \<or> y1 = - 1"
    using y1 square_eq_1_iff[of y1] by simp
  then have cs: "copysign 1 y1 = y1"
    by (auto simp: copysign_def)
  from red True have r: "b1 = d1" "b2 = d2" "b3 = d3" "b23 = d23" "v1 = 0" "v2 = 0" "v3 = 0" "g = 1"
    by (simp_all add: Reduce3S_reflect_def)
  from eig y23 y1n have d: "d1 = lam" "d12 = 0" "d13 = 0"
    by (simp_all add: mat_vec_def sym_matrix_def)
  show ?thesis
    unfolding r d
    by (simp add: mat_vec_def mat_mul_def reflection_def sym_matrix_def y23 cs)
next
  case False
  from Reduce3S_reflect_nonzero[OF unit False, of d1 d2 d3 d12 d13 d23]
  obtain m where m: "0 < m"
    and R: "Reduce3S_reflect d1 d2 d3 d12 d13 d23 y1 y2 y3 =
      (let v1 = (y1 - copysign 1 y1) / m; v2 = y2 / m; v3 = y3 / m;
           g = (m * m) / (1 - \<bar>y1\<bar>);
           w1 = g * (d1 * v1 + d12 * v2 + d13 * v3);
           w2 = g * (d12 * v1 + d2 * v2 + d23 * v3);
           w3 = g * (d13 * v1 + d23 * v2 + d3 * v3);
           s = (g / 2) * (v1 * w1 + v2 * w2 + v3 * w3);
           w1 = w1 - s * v1;
           w2 = w2 - s * v2;
           w3 = w3 - s * v3
       in ((d1 - 2 * v1 * w1, d2 - 2 * v2 * w2, d3 - 2 * v3 * w3, d23 - (v2 * w3 + v3 * w2)),
           (v1, v2, v3, g)))"
    and y1lt: "\<bar>y1\<bar> < 1" by blast
  define sg where "sg = copysign 1 y1"
  have sg2: "sg * sg = 1" using copysign_1_cases[of y1] by (auto simp: sg_def)
  have sgy: "sg * y1 = \<bar>y1\<bar>" by (simp add: sg_def copysign_1_mult)
  have p: "1 - \<bar>y1\<bar> \<noteq> 0" using y1lt by simp
  have mn: "m \<noteq> 0" using m by simp
  define a1 where "a1 = (y1 - copysign 1 y1) / m"
  define a2 where "a2 = y2 / m"
  define a3 where "a3 = y3 / m"
  define h where "h = (m * m) / (1 - \<bar>y1\<bar>)"
  define u1 where "u1 = h * (d1 * a1 + d12 * a2 + d13 * a3)"
  define u2 where "u2 = h * (d12 * a1 + d2 * a2 + d23 * a3)"
  define u3 where "u3 = h * (d13 * a1 + d23 * a2 + d3 * a3)"
  define s where "s = (h / 2) * (a1 * u1 + a2 * u2 + a3 * u3)"
  define w1 where "w1 = u1 - s * a1"
  define w2 where "w2 = u2 - s * a2"
  define w3 where "w3 = u3 - s * a3"
  have R': "Reduce3S_reflect d1 d2 d3 d12 d13 d23 y1 y2 y3 =
      ((d1 - 2 * a1 * w1, d2 - 2 * a2 * w2, d3 - 2 * a3 * w3, d23 - (a2 * w3 + a3 * w2)),
       (a1, a2, a3, h))"
    unfolding R w1_def w2_def w3_def s_def u1_def u2_def u3_def h_def a1_def a2_def a3_def Let_def
    by (rule refl)
  from red R' have va: "v1 = a1" "v2 = a2" "v3 = a3" "g = h"
    and b: "b1 = d1 - 2 * a1 * w1" "b2 = d2 - 2 * a2 * w2" "b3 = d3 - 2 * a3 * w3"
    "b23 = d23 - (a2 * w3 + a3 * w2)"
    by auto
  have v: "a1 = (y1 - sg) / m" "a2 = y2 / m" "a3 = y3 / m"
    and g: "h = (m * m) / (1 - \<bar>y1\<bar>)"
    by (simp_all add: a1_def a2_def a3_def h_def sg_def)
  let ?Q = "reflection h (a1, a2, a3)"
  let ?A = "sym_matrix d1 d2 d3 d12 d13 d23"
  have B: "mat_mul ?Q (mat_mul ?A ?Q) =
      ((b1, d12 - a1 * w2 - a2 * w1, d13 - a1 * w3 - a3 * w1),
       (d12 - a1 * w2 - a2 * w1, b2, b23),
       (d13 - a1 * w3 - a3 * w1, b23, b3))"
    unfolding b w1_def w2_def w3_def s_def u1_def u2_def u3_def
    by (rule reflect_entries)
  have vy: "a1 * y1 + a2 * y2 + a3 * y3 = (1 - \<bar>y1\<bar>) / m"
  proof -
    have "(y1 - sg) * y1 + y2 * y2 + y3 * y3 = 1 - \<bar>y1\<bar>"
      using unit sgy by (simp add: algebra_simps)
    then show ?thesis unfolding v using mn
      by (simp add: add_divide_distrib[symmetric] mult.commute)
  qed
  have gvy: "h * (a1 * y1 + a2 * y2 + a3 * y3) = m"
    unfolding vy g using p mn by simp
  have Qy: "mat_vec ?Q (y1, y2, y3) = (sg, 0, 0)"
  proof -
    have "mat_vec ?Q (y1, y2, y3) = (y1 - m * a1, y2 - m * a2, y3 - m * a3)"
      unfolding mat_vec_reflection gvy by simp
    also have "\<dots> = (sg, 0, 0)"
      unfolding v using mn by simp
    finally show ?thesis .
  qed
  have gv1: "h * a1 = - sg * m"
  proof -
    have "y1 - sg = - sg * (1 - \<bar>y1\<bar>)"
      using sg2 sgy by (simp add: algebra_simps)
    then show ?thesis unfolding g v(1) using p mn by (simp add: field_simps)
  qed
  have Qe: "mat_vec ?Q (1, 0, 0) = (sg * y1, sg * y2, sg * y3)"
  proof -
    have "h * (a1 * 1 + a2 * 0 + a3 * 0) = - sg * m" using gv1 by simp
    then have "mat_vec ?Q (1, 0, 0) = (1 - (- sg * m) * a1, 0 - (- sg * m) * a2, 0 - (- sg * m) * a3)"
      unfolding mat_vec_reflection by simp
    also have "\<dots> = (1 + sg * (m * a1), sg * (m * a2), sg * (m * a3))"
      by (simp add: algebra_simps)
    also have "\<dots> = (1 + sg * (y1 - sg), sg * y2, sg * y3)"
      unfolding v using mn by simp
    also have "\<dots> = (sg * y1, sg * y2, sg * y3)"
      using sg2 by (simp add: algebra_simps)
    finally show ?thesis .
  qed
  have A1: "mat_vec ?A (sg * y1, sg * y2, sg * y3) = (sg * (lam * y1), sg * (lam * y2), sg * (lam * y3))"
    using mat_vec_scale[of ?A sg y1 y2 y3] eig by simp
  have Q1: "mat_vec ?Q ((sg * lam) * y1, (sg * lam) * y2, (sg * lam) * y3) = ((sg * lam) * sg, 0, 0)"
    using mat_vec_scale[of ?Q "sg * lam" y1 y2 y3] Qy by simp
  have "mat_vec (mat_mul ?Q (mat_mul ?A ?Q)) (1, 0, 0) = mat_vec ?Q (mat_vec ?A (mat_vec ?Q (1, 0, 0)))"
    by (simp add: mat_vec_mat_mul)
  also have "\<dots> = mat_vec ?Q (sg * (lam * y1), sg * (lam * y2), sg * (lam * y3))"
    unfolding Qe A1 by (rule refl)
  also have "\<dots> = mat_vec ?Q ((sg * lam) * y1, (sg * lam) * y2, (sg * lam) * y3)"
    by (simp add: mult.assoc)
  also have "\<dots> = (sg * lam * sg, 0, 0)"
    by (rule Q1)
  also have "\<dots> = (lam, 0, 0)" using sg2 by (simp add: mult.commute mult.left_commute)
  finally have "mat_vec (mat_mul ?Q (mat_mul ?A ?Q)) (1, 0, 0) = (lam, 0, 0)" .
  then have col: "b1 = lam" "d12 - a1 * w2 - a2 * w1 = 0" "d13 - a1 * w3 - a3 * w1 = 0"
    unfolding B mat_vec_e1 by simp_all
  show ?thesis
    unfolding va using Qy B col by (simp add: sg_def)
qed

lemma Reduce3S_k_range: "Reduce3S_k mode z1 z2 z3 \<in> {1, 2, 3}"
  by (simp add: Reduce3S_k_def)

text \<open>
  Claim C5, amended: for a symmetric matrix \<open>A\<close> and a unit eigenvector \<open>z\<close> with
  eigenvalue \<open>lam\<close>, \<^verbatim>\<open>Reduce3S\<close> produces \<open>k\<close> in \<open>{1,2,3}\<close>, \<open>g\<close> and \<open>v\<close> such that
  \<open>Q = I - g v v\<^sup>T\<close> maps \<open>P z\<close> to \<open>e1\<close> or to \<open>- e1\<close>, with the sign of the pivot
  component of \<open>P z\<close>; the matrix \<open>Q P A P Q\<close> has first row and column \<open>(lam, 0, 0)\<close>, and
  its other entries are the returned \<open>d2, d23, d3\<close>; the returned \<open>d1\<close> is \<open>lam\<close>.
\<close>

theorem Reduce3S_deflates:
  assumes unit: "z1 * z1 + z2 * z2 + z3 * z3 = 1"
    and eig: "mat_vec (sym_matrix d1 d2 d3 d12 d13 d23) (z1, z2, z3) =
               (lam * z1, lam * z2, lam * z3)"
    and red: "red = Reduce3S mode d1 d2 d3 d12 d13 d23 z1 z2 z3"
    and Q: "Q = reflection (r_g red) (r_v1 red, r_v2 red, r_v3 red)"
    and P: "P = swap_matrix (r_k red)"
  shows "r_k red \<in> {1, 2, 3} \<and>
         mat_vec Q (mat_vec P (z1, z2, z3)) = (copysign 1 (fst (mat_vec P (z1, z2, z3))), 0, 0) \<and>
         mat_mul Q (mat_mul (mat_mul P (mat_mul (sym_matrix d1 d2 d3 d12 d13 d23) P)) Q) =
           ((lam, 0, 0), (0, r_d2 red, r_d23 red), (0, r_d23 red, r_d3 red)) \<and>
         r_d1 red = lam"
proof -
  define k where "k = Reduce3S_k mode z1 z2 z3"
  have kr: "k = 1 \<or> k = 2 \<or> k = 3" using Reduce3S_k_range[of mode z1 z2 z3] by (simp add: k_def)
  have eqs: "d1 * z1 + d12 * z2 + d13 * z3 = lam * z1"
    "d12 * z1 + d2 * z2 + d23 * z3 = lam * z2"
    "d13 * z1 + d23 * z2 + d3 * z3 = lam * z3"
    using eig by (simp_all add: mat_vec_def sym_matrix_def)
  from kr show ?thesis
  proof (elim disjE)
    assume k1: "k = 1"
    obtain b1 b2 b3 b23 v1 v2 v3 g where
      R: "Reduce3S_reflect d1 d2 d3 d12 d13 d23 z1 z2 z3 = ((b1, b2, b3, b23), (v1, v2, v3, g))"
      by (metis prod_cases4)
    have f: "r_k red = 1" "r_d1 red = b1" "r_d2 red = b2" "r_d3 red = b3" "r_d23 red = b23"
      "r_v1 red = v1" "r_v2 red = v2" "r_v3 red = v3" "r_g red = g"
      using R by (simp_all add: red Reduce3S_def Let_def k_def[symmetric] k1)
    have PA: "mat_mul P (mat_mul (sym_matrix d1 d2 d3 d12 d13 d23) P) = sym_matrix d1 d2 d3 d12 d13 d23"
      unfolding P f by (simp add: swap_matrix_def mat_mul_def sym_matrix_def)
    have Pz: "mat_vec P (z1, z2, z3) = (z1, z2, z3)"
      unfolding P f by (simp add: swap_matrix_def mat_vec_def)
    show ?thesis
      unfolding PA Pz Q f using reflect_deflates[OF unit eig R] by simp
  next
    assume k2: "k = 2"
    obtain b1 b2 b3 b23 v1 v2 v3 g where
      R: "Reduce3S_reflect d2 d1 d3 d12 d23 d13 z2 z1 z3 = ((b1, b2, b3, b23), (v1, v2, v3, g))"
      by (metis prod_cases4)
    have f: "r_k red = 2" "r_d1 red = b1" "r_d2 red = b2" "r_d3 red = b3" "r_d23 red = b23"
      "r_v1 red = v1" "r_v2 red = v2" "r_v3 red = v3" "r_g red = g"
      using R by (simp_all add: red Reduce3S_def Let_def k_def[symmetric] k2)
    have PA: "mat_mul P (mat_mul (sym_matrix d1 d2 d3 d12 d13 d23) P) = sym_matrix d2 d1 d3 d12 d23 d13"
      unfolding P f by (simp add: swap_matrix_def mat_mul_def sym_matrix_def)
    have Pz: "mat_vec P (z1, z2, z3) = (z2, z1, z3)"
      unfolding P f by (simp add: swap_matrix_def mat_vec_def)
    have unit': "z2 * z2 + z1 * z1 + z3 * z3 = 1" using unit by simp
    have eig': "mat_vec (sym_matrix d2 d1 d3 d12 d23 d13) (z2, z1, z3) = (lam * z2, lam * z1, lam * z3)"
      using eqs by (simp add: mat_vec_def sym_matrix_def algebra_simps)
    show ?thesis
      unfolding PA Pz Q f using reflect_deflates[OF unit' eig' R] by simp
  next
    assume k3: "k = 3"
    obtain b1 b2 b3 b23 v1 v2 v3 g where
      R: "Reduce3S_reflect d3 d2 d1 d23 d13 d12 z3 z2 z1 = ((b1, b2, b3, b23), (v1, v2, v3, g))"
      by (metis prod_cases4)
    have f: "r_k red = 3" "r_d1 red = b1" "r_d2 red = b2" "r_d3 red = b3" "r_d23 red = b23"
      "r_v1 red = v1" "r_v2 red = v2" "r_v3 red = v3" "r_g red = g"
      using R by (simp_all add: red Reduce3S_def Let_def k_def[symmetric] k3)
    have PA: "mat_mul P (mat_mul (sym_matrix d1 d2 d3 d12 d13 d23) P) = sym_matrix d3 d2 d1 d23 d13 d12"
      unfolding P f by (simp add: swap_matrix_def mat_mul_def sym_matrix_def)
    have Pz: "mat_vec P (z1, z2, z3) = (z3, z2, z1)"
      unfolding P f by (simp add: swap_matrix_def mat_vec_def)
    have unit': "z3 * z3 + z2 * z2 + z1 * z1 = 1" using unit by simp
    have eig': "mat_vec (sym_matrix d3 d2 d1 d23 d13 d12) (z3, z2, z1) = (lam * z3, lam * z2, lam * z1)"
      using eqs by (simp add: mat_vec_def sym_matrix_def algebra_simps)
    show ?thesis
      unfolding PA Pz Q f using reflect_deflates[OF unit' eig' R] by simp
  qed
qed

text \<open>
  Claim C5 says \<open>Q P z = e1\<close>. For \<open>A = diag(1, 2, 3)\<close> and its unit eigenvector
  \<open>z = - e1\<close> (mode 1) the routine takes \<open>k = 1\<close> and \<open>Q = I\<close>, so \<open>Q P z = - e1\<close>.
\<close>

theorem Reduce3S_maps_to_minus_e1:
  "(- 1) * (- 1) + 0 * 0 + 0 * 0 = (1::real) \<and>
   mat_vec (sym_matrix 1 2 3 0 0 0) (- 1, 0, 0) = (1 * (- 1), 1 * 0, 1 * 0) \<and>
   mat_vec (reflection (r_g (Reduce3S 1 1 2 3 0 0 0 (- 1) 0 0))
       (r_v1 (Reduce3S 1 1 2 3 0 0 0 (- 1) 0 0), r_v2 (Reduce3S 1 1 2 3 0 0 0 (- 1) 0 0),
        r_v3 (Reduce3S 1 1 2 3 0 0 0 (- 1) 0 0)))
     (mat_vec (swap_matrix (r_k (Reduce3S 1 1 2 3 0 0 0 (- 1) 0 0))) (- 1, 0, 0)) \<noteq> (1, 0, 0)"
  by (simp add: Reduce3S_def Reduce3S_k_def Reduce3S_reflect_def hypot_def fabs_def
      mat_vec_def sym_matrix_def reflection_def swap_matrix_def)

theorem Reduce3S_deflates_witness:
  "r_k (Reduce3S 1 9 16 0 (- 12) 0 0 (- 3 / 5) (4 / 5) 0) \<in> {1, 2, 3} \<and>
   r_d1 (Reduce3S 1 9 16 0 (- 12) 0 0 (- 3 / 5) (4 / 5) 0) = 25"
proof -
  have u: "(- 3 / 5) * (- 3 / 5) + (4 / 5) * (4 / 5) + 0 * 0 = (1::real)" by simp
  have e: "mat_vec (sym_matrix 9 16 0 (- 12) 0 0) (- 3 / 5, 4 / 5, 0) =
      (25 * (- 3 / 5), 25 * (4 / 5), 25 * 0)"
    by (simp add: mat_vec_def sym_matrix_def)
  from Reduce3S_deflates [OF u e refl refl refl, of 1] show ?thesis by simp
qed

subsection \<open>Scale linearity\<close>

text \<open>Every routine of the kernel is positively homogeneous: entries of the matrix scale
  with \<open>k > 0\<close>, vectors, rotations and indices do not change. The rules below move the
  factor \<open>k\<close> outwards through the arithmetic of one routine.\<close>

lemma fabs_scale: "0 < k \<Longrightarrow> fabs (k * x) = k * fabs x"
  by (simp add: fabs_def abs_mult)

lemma copysign_scale_left: "0 < k \<Longrightarrow> copysign (k * x) y = k * copysign x y"
  by (simp add: copysign_def abs_mult)

lemma copysign_scale_right: "0 < k \<Longrightarrow> copysign x (k * y) = copysign x y"
  by (simp add: copysign_def zero_le_mult_iff)

lemma hypot_scale: "0 < k \<Longrightarrow> hypot (k * x) (k * y) = k * hypot x y"
proof -
  assume k: "0 < k"
  have "(k * x) * (k * x) + (k * y) * (k * y) = k\<^sup>2 * (x * x + y * y)"
    by (simp add: power2_eq_square algebra_simps)
  then show ?thesis using k by (simp add: hypot_def real_sqrt_mult)
qed

lemma pull:
  fixes k :: real
  assumes k: "0 < k"
  shows "k * a + k * b = k * (a + b)"
    and "k * a - k * b = k * (a - b)"
    and "- (k * a) = k * (- a)"
    and "(k * a) * b = k * (a * b)"
    and "(k * a) / (k * b) = a / b"
    and "(k * a \<le> k * b) = (a \<le> b)"
    and "(k * a < k * b) = (a < b)"
    and "(k * a = 0) = (a = 0)"
    and "(k * a = k * b) = (a = b)"
  using assms by (simp_all add: algebra_simps)

lemma pull_right:
  fixes k :: real
  shows "a * (k * b) = k * (a * b)"
  by simp

lemma KernelVector2G_pivot_scale:
  assumes k: "0 < k"
  shows "KernelVector2G_pivot mode sc (k * d1) (k * d12) (k * d21) (k * d2) =
    (case KernelVector2G_pivot mode sc d1 d12 d21 d2 of
       (e1, e12, e21, e2) \<Rightarrow> (k * e1, k * e12, k * e21, k * e2))"
  unfolding KernelVector2G_pivot_def
  by (simp add: fabs_scale[OF k] pull[OF k])

lemma KernelVector2G_eliminate_scale:
  assumes k: "0 < k"
  shows "KernelVector2G_eliminate (k * d1) (k * d12) (k * d21) (k * d2) =
    (case KernelVector2G_eliminate d1 d12 d21 d2 of
       (e1, e12, e2) \<Rightarrow> (k * e1, k * e12, k * e2))"
  unfolding KernelVector2G_eliminate_def Let_def
  apply (simp only: fabs_scale[OF k] copysign_scale_left[OF k] copysign_scale_right[OF k]
      hypot_scale[OF k] pull[OF k] pull_right[where k=k])
  apply (simp only: if_distrib[of "case_prod _"] prod.case cong: if_cong)
  done

lemma KernelVector2G_solve_scale:
  assumes k: "0 < k"
  shows "KernelVector2G_solve (k * d1) (k * d12) (k * d2) = KernelVector2G_solve d1 d12 d2"
  unfolding KernelVector2G_solve_def Let_def
  by (simp only: fabs_scale[OF k] pull[OF k] pull_right[where k=k])

lemmas scale_rules = fabs_scale copysign_scale_left copysign_scale_right hypot_scale pull

lemma KernelVector2G_scale:
  assumes k: "0 < k"
  shows "KernelVector2G mode (k * d1) (k * d12) (k * d21) (k * d2) =
    (case KernelVector2G mode d1 d12 d21 d2 of
       (zero, z1, e12, e21, z2) \<Rightarrow>
         if zero then (True, k * z1, k * e12, k * e21, k * z2)
         else (False, z1, k * e12, k * e21, z2))"
proof -
  obtain p1 p12 p21 p2 where P:
    "KernelVector2G_pivot mode (fabs d2 + fabs d12 > fabs d1 + fabs d21) d1 d12 d21 d2 = (p1, p12, p21, p2)"
    by (metis prod_cases4)
  obtain e1 e12 e2 where E: "KernelVector2G_eliminate p1 p12 p21 p2 = (e1, e12, e2)"
    by (metis prod_cases3)
  obtain z1 z2 where S: "KernelVector2G_solve e1 e12 e2 = (z1, z2)"
    by (metis prod.exhaust)
  have P': "KernelVector2G_pivot mode (fabs d2 + fabs d12 > fabs d1 + fabs d21)
      (k * d1) (k * d12) (k * d21) (k * d2) = (k * p1, k * p12, k * p21, k * p2)"
    by (simp add: KernelVector2G_pivot_scale[OF k] P)
  have E': "KernelVector2G_eliminate (k * p1) (k * p12) (k * p21) (k * p2) = (k * e1, k * e12, k * e2)"
    by (simp add: KernelVector2G_eliminate_scale[OF k] E)
  have S': "KernelVector2G_solve (k * e1) (k * e12) (k * e2) = (z1, z2)"
    by (simp add: KernelVector2G_solve_scale[OF k] S)
  have L: "KernelVector2G mode (k * d1) (k * d12) (k * d21) (k * d2) =
     (if \<not> (fabs d2 + fabs d12 > fabs d1 + fabs d21) \<and> fabs d1 + fabs d21 = 0
      then (True, k * d1, k * d12, k * d21, k * d2)
      else if fabs d2 + fabs d12 > fabs d1 + fabs d21 then (False, z2, k * e12, k * p21, z1)
      else (False, z1, k * e12, k * p21, z2))"
    unfolding KernelVector2G_def Let_def
    by (simp only: scale_rules[OF k] P' E' S' prod.case)
  have R: "KernelVector2G mode d1 d12 d21 d2 =
     (if \<not> (fabs d2 + fabs d12 > fabs d1 + fabs d21) \<and> fabs d1 + fabs d21 = 0
      then (True, d1, d12, d21, d2)
      else if fabs d2 + fabs d12 > fabs d1 + fabs d21 then (False, z2, e12, p21, z1)
      else (False, z1, e12, p21, z2))"
    unfolding KernelVector2G_def Let_def
    by (simp only: P E S prod.case)
  show ?thesis unfolding L R by simp
qed

lemma KernelVector3G_eliminate_scale:
  assumes k: "0 < k"
  shows "KernelVector3G_eliminate (k * d1) (k * d2) (k * d3) (k * c12) (k * c13) (k * c23)
            (k * c21) (k * c31) (k * c32) =
    (case KernelVector3G_eliminate d1 d2 d3 c12 c13 c23 c21 c31 c32 of
       (e1, e2, e3, e12, e13, e23, e32) \<Rightarrow>
         (k * e1, k * e2, k * e3, k * e12, k * e13, k * e23, k * e32))"
  unfolding KernelVector3G_eliminate_def Let_def
  apply (simp only: scale_rules[OF k] pull_right[where k=k])
  apply (simp only: if_distrib[of "case_prod _"] prod.case cong: if_cong)
  done

lemma KernelVector3G_aux_scale:
  assumes k: "0 < k"
  shows "KernelVector3G_aux mode (k * d1) (k * d2) (k * d3) (k * c12) (k * c13) (k * c23)
            (k * c21) (k * c31) (k * c32) =
         KernelVector3G_aux mode d1 d2 d3 c12 c13 c23 c21 c31 c32"
proof -
  obtain e1 e2 e3 e12 e13 e23 e32 where E:
    "KernelVector3G_eliminate d1 d2 d3 c12 c13 c23 c21 c31 c32 = (e1, e2, e3, e12, e13, e23, e32)"
    by (metis prod_cases7)
  obtain zero z2 f23 f32 z3 where G: "KernelVector2G mode e2 e23 e32 e3 = (zero, z2, f23, f32, z3)"
    by (metis prod_cases5)
  have E': "KernelVector3G_eliminate (k * d1) (k * d2) (k * d3) (k * c12) (k * c13) (k * c23)
            (k * c21) (k * c31) (k * c32) = (k * e1, k * e2, k * e3, k * e12, k * e13, k * e23, k * e32)"
    by (simp add: KernelVector3G_eliminate_scale[OF k] E)
  have G': "KernelVector2G mode (k * e2) (k * e23) (k * e32) (k * e3) =
      (if zero then (True, k * z2, k * f23, k * f32, k * z3) else (False, z2, k * f23, k * f32, z3))"
    by (simp add: KernelVector2G_scale[OF k] G)
  show ?thesis
    unfolding KernelVector3G_aux_def E E' G G' prod.case
    by (cases zero) (simp_all only: if_True if_False prod.case pull[OF k] pull_right[where k=k])
qed

lemma KernelVector3S_col_scale:
  assumes k: "0 < k"
  shows "KernelVector3S_col (k * d12) (k * d13) (k * d23) (k * d1) (k * d2) (k * d3) =
    (case KernelVector3S_col d12 d13 d23 d1 d2 d3 of (col, n) \<Rightarrow> (col, k * n))"
  unfolding KernelVector3S_col_def Let_def
  apply (simp only: scale_rules[OF k] pull_right[where k=k])
  apply (simp only: if_distrib[of "case_prod _"] prod.case cong: if_cong)
  done

lemma KernelVector3S_row_scale:
  assumes k: "0 < k"
  shows "KernelVector3S_row mode (k * d1) (k * c12) (k * c13) = KernelVector3S_row mode d1 c12 c13"
  unfolding KernelVector3S_row_def
  by (simp only: scale_rules[OF k])

lemma KernelVector3S_col_zero:
  "snd (KernelVector3S_col d12 d13 d23 d1 d2 d3) = 0 \<Longrightarrow> d1 = 0 \<and> d2 = 0 \<and> d3 = 0"
  by (simp add: KernelVector3S_col_zero_iff)

lemma KernelVector3S_scale:
  assumes k: "0 < k"
  shows "KernelVector3S mode (k * d12) (k * d13) (k * d23) (k * d1) (k * d2) (k * d3) =
         KernelVector3S mode d12 d13 d23 d1 d2 d3"
proof -
  obtain col n where C: "KernelVector3S_col d12 d13 d23 d1 d2 d3 = (col, n)"
    by (metis prod.exhaust)
  have C': "KernelVector3S_col (k * d12) (k * d13) (k * d23) (k * d1) (k * d2) (k * d3) = (col, k * n)"
    by (simp add: KernelVector3S_col_scale[OF k] C)
  show ?thesis
  proof (cases "n = 0")
    case True
    then have "d1 = 0 \<and> d2 = 0 \<and> d3 = 0"
      using KernelVector3S_col_zero[of d12 d13 d23 d1 d2 d3] C by simp
    with True show ?thesis
      unfolding KernelVector3S_def C C' prod.case by simp
  next
    case False
    then have kn: "k * n \<noteq> 0" using k by simp
    show ?thesis
      unfolding KernelVector3S_def C C' prod.case Let_def
      by (simp only: False kn if_False prod.case KernelVector3S_row_scale[OF k]
          KernelVector3G_aux_scale[OF k] if_distrib[of "case_prod _"] cong: if_cong)
  qed
qed

lemma Reduce3S_reflect_scale:
  assumes k: "0 < k"
  shows "Reduce3S_reflect (k * d1) (k * d2) (k * d3) (k * d12) (k * d13) (k * d23) z1 z2 z3 =
    (case Reduce3S_reflect d1 d2 d3 d12 d13 d23 z1 z2 z3 of
       ((b1, b2, b3, b23), vg) \<Rightarrow> ((k * b1, k * b2, k * b3, k * b23), vg))"
  unfolding Reduce3S_reflect_def Let_def
  apply (simp only: pull[OF k] pull_right[where k=k])
  apply (simp only: if_distrib[of "case_prod _"] prod.case cong: if_cong)
  done

lemma Reduce3S_scale:
  assumes k: "0 < k"
  shows "Reduce3S mode (k * d1) (k * d2) (k * d3) (k * d12) (k * d13) (k * d23) z1 z2 z3 =
    (let red = Reduce3S mode d1 d2 d3 d12 d13 d23 z1 z2 z3
     in red \<lparr> r_d1 := k * r_d1 red, r_d2 := k * r_d2 red, r_d3 := k * r_d3 red,
              r_d12 := k * r_d12 red, r_d13 := k * r_d13 red, r_d23 := k * r_d23 red \<rparr>)"
  unfolding Reduce3S_def Let_def
  by (simp add: Reduce3S_reflect_scale[OF k] split: prod.splits)

lemma Eigensystem2S_scale:
  assumes k: "0 < k"
  shows "Eigensystem2S (k * d12) (k * d1) (k * d2) =
    (case Eigensystem2S d12 d1 d2 of (e1, e2, c, s) \<Rightarrow> (k * e1, k * e2, c, s))"
proof -
  have z: "(k * d2 - k * d1) / (2 * (k * d12)) = (d2 - d1) / (2 * d12)"
    by (simp only: pull[OF k] pull_right[where k=k])
  have sb: "signbit_quotient (k * d2 - k * d1) (2 * (k * d12)) = signbit_quotient (d2 - d1) (2 * d12)"
  proof -
    have "(k * d2 - k * d1 = 0) = (d2 - d1 = 0)" using k by (simp add: algebra_simps)
    moreover have "(2 * (k * d12) < 0) = (2 * d12 < 0)" using k by (simp add: mult_less_0_iff)
    ultimately show ?thesis unfolding signbit_quotient_def z by simp
  qed
  show ?thesis
    unfolding Eigensystem2S_def Let_def z sb
    apply (simp only: pull[OF k] pull_right[where k=k])
    apply (simp only: if_distrib[of "case_prod _"] prod.case cong: if_cong)
    done
qed

lemma CalcEigenvalues_3_r_scale:
  assumes k: "0 < k"
  shows "CalcEigenvalues_3_r (k * k * Q) (k * k * k * R) = k * CalcEigenvalues_3_r Q R"
proof -
  define K where "K = k * k * k"
  have K: "0 < K" using k by (simp add: K_def)
  have sq: "sqrt (k * k * Q) = k * sqrt Q"
    using k by (simp add: real_sqrt_mult)
  have q3: "k * k * Q * (k * sqrt Q) = K * (Q * sqrt Q)" by (simp add: K_def)
  have fa: "fabs (K * R) = K * fabs R"
    by (rule fabs_scale[OF K])
  have c1: "(K * (Q * sqrt Q) \<le> K * fabs R) = (Q * sqrt Q \<le> fabs R)"
    by (rule pull(6)[OF K])
  have c2: "(K * R < 0) = (R < 0)"
    using pull(7)[OF K, of R 0] by simp
  have dv: "K * R / (K * (Q * sqrt Q)) = R / (Q * sqrt Q)"
    by (rule pull(5)[OF K])
  show ?thesis
    unfolding CalcEigenvalues_3_r_def Let_def sq K_def[symmetric] q3 fa c1 c2 dv
    by (simp add: algebra_simps)
qed

lemma CalcEigenvalues_3_deflate_scale:
  assumes k: "0 < k"
  shows "CalcEigenvalues_3_deflate (k * aa) (k * d11) (k * d22) (k * d33) (k * d12) (k * d13) (k * d23) =
    (case CalcEigenvalues_3_deflate aa d11 d22 d33 d12 d13 d23 of
       (lam, vec) \<Rightarrow> (map ((*) k) lam, vec))"
proof -
  obtain kdim z1 z2 z3 where K:
    "KernelVector3S 0 d12 d13 d23 (d11 - aa) (d22 - aa) (d33 - aa) = (kdim, z1, z2, z3)"
    by (metis prod_cases4)
  have K': "KernelVector3S 0 (k * d12) (k * d13) (k * d23) (k * d11 - k * aa) (k * d22 - k * aa)
      (k * d33 - k * aa) = (kdim, z1, z2, z3)"
    unfolding pull[OF k] KernelVector3S_scale[OF k] K by (rule refl)
  define red where "red = Reduce3S 0 d11 d22 d33 d12 d13 d23 z1 z2 z3"
  have Rd: "Reduce3S 0 (k * d11) (k * d22) (k * d33) (k * d12) (k * d13) (k * d23) z1 z2 z3 =
     red \<lparr> r_d1 := k * r_d1 red, r_d2 := k * r_d2 red, r_d3 := k * r_d3 red,
              r_d12 := k * r_d12 red, r_d13 := k * r_d13 red, r_d23 := k * r_d23 red \<rparr>"
    unfolding Reduce3S_scale[OF k] red_def Let_def by (rule refl)
  obtain e2 e3 c s where E: "Eigensystem2S (r_d23 red) (r_d2 red) (r_d3 red) = (e2, e3, c, s)"
    by (metis prod_cases4)
  have E': "Eigensystem2S (k * r_d23 red) (k * r_d2 red) (k * r_d3 red) = (k * e2, k * e3, c, s)"
    by (simp add: Eigensystem2S_scale[OF k] E)
  show ?thesis
    unfolding CalcEigenvalues_3_deflate_def Let_def K K' prod.case red_def[symmetric] Rd
    by (simp add: E E' k)
qed

lemma CalcEigenvalues_3_scaled_scale:
  assumes k: "0 < k"
  shows "CalcEigenvalues_3_scaled (k * d11) (k * d22) (k * d33) (k * d12) (k * d13) (k * d23) =
    (case CalcEigenvalues_3_scaled d11 d22 d33 d12 d13 d23 of
       (lam, vec) \<Rightarrow> (map ((*) k) lam, vec))"
proof -
  define aa where "aa = (d11 + d22 + d33) / 3"
  define c1 where "c1 = d11 - aa"
  define c2 where "c2 = d22 - aa"
  define c3 where "c3 = d33 - aa"
  define Q where "Q = (2 * (d12 * d12 + d13 * d13 + d23 * d23) + c1 * c1 + c2 * c2 + c3 * c3) / 6"
  define R where "R = (c1 * (d23 * d23 - c2 * c3) + d12 * (d12 * c3 - 2 * d13 * d23) + d13 * d13 * c2) / 2"
  have U: "CalcEigenvalues_3_scaled d11 d22 d33 d12 d13 d23 =
     (if Q \<le> 0 then ([aa, aa, aa], [1, 0, 0, 0, 1, 0, 0, 0, 1])
      else CalcEigenvalues_3_deflate (aa + CalcEigenvalues_3_r Q R) d11 d22 d33 d12 d13 d23)"
    unfolding CalcEigenvalues_3_scaled_def Let_def Q_def R_def c1_def c2_def c3_def aa_def
    by (rule refl)
  have aa': "(k * d11 + k * d22 + k * d33) / 3 = k * aa"
    by (simp add: aa_def algebra_simps)
  have c': "k * d11 - k * aa = k * c1" "k * d22 - k * aa = k * c2" "k * d33 - k * aa = k * c3"
    by (simp_all add: c1_def c2_def c3_def algebra_simps)
  have Q': "(2 * (k * d12 * (k * d12) + k * d13 * (k * d13) + k * d23 * (k * d23)) +
       k * c1 * (k * c1) + k * c2 * (k * c2) + k * c3 * (k * c3)) / 6 = k * k * Q"
    by (simp add: Q_def algebra_simps)
  have R': "(k * c1 * (k * d23 * (k * d23) - k * c2 * (k * c3)) +
       k * d12 * (k * d12 * (k * c3) - 2 * (k * d13) * (k * d23)) + k * d13 * (k * d13) * (k * c2)) / 2
       = k * k * k * R"
    by (simp add: R_def algebra_simps)
  have S: "CalcEigenvalues_3_scaled (k * d11) (k * d22) (k * d33) (k * d12) (k * d13) (k * d23) =
     (if k * k * Q \<le> 0 then ([k * aa, k * aa, k * aa], [1, 0, 0, 0, 1, 0, 0, 0, 1])
      else CalcEigenvalues_3_deflate (k * aa + CalcEigenvalues_3_r (k * k * Q) (k * k * k * R))
             (k * d11) (k * d22) (k * d33) (k * d12) (k * d13) (k * d23))"
    unfolding CalcEigenvalues_3_scaled_def Let_def aa' c' Q' R'
    by (rule refl)
  have qc: "(k * k * Q \<le> 0) = (Q \<le> 0)"
    using k by (simp add: mult_le_0_iff)
  have ar: "k * aa + k * CalcEigenvalues_3_r Q R = k * (aa + CalcEigenvalues_3_r Q R)"
    by (simp add: algebra_simps)
  show ?thesis
    unfolding S U qc CalcEigenvalues_3_r_scale[OF k] ar CalcEigenvalues_3_deflate_scale[OF k]
    by simp
qed

text \<open>Consequently the division by \<open>mult\<close> and the multiplication of the eigenvalues
  by \<open>mult\<close> cancel.\<close>

lemma CalcEigenvalues_3_unscaled:
  "CalcEigenvalues_3 d = CalcEigenvalues_3_scaled (d ! 0) (d ! 4) (d ! 8) (d ! 3) (d ! 6) (d ! 7)"
proof -
  define m where "m = GetScalingFactor (max_update (max_update (max_update (max_update (max_update
           (fabs (d ! 0)) (d ! 4)) (d ! 8)) (d ! 3)) (d ! 6)) (d ! 7))"
  have m: "0 < m" unfolding m_def by (rule GetScalingFactor_pos)
  obtain lam vec where S: "CalcEigenvalues_3_scaled (d ! 0 / m) (d ! 4 / m) (d ! 8 / m)
      (d ! 3 / m) (d ! 6 / m) (d ! 7 / m) = (lam, vec)"
    by (metis prod.exhaust)
  have L: "CalcEigenvalues_3 d = (map (\<lambda>l. l * m) lam, vec)"
    unfolding CalcEigenvalues_3_def Let_def m_def[symmetric] S by simp
  have "CalcEigenvalues_3_scaled (m * (d ! 0 / m)) (m * (d ! 4 / m)) (m * (d ! 8 / m))
      (m * (d ! 3 / m)) (m * (d ! 6 / m)) (m * (d ! 7 / m)) = (map ((*) m) lam, vec)"
    unfolding CalcEigenvalues_3_scaled_scale[OF m] S by simp
  moreover have "m * (x / m) = x" for x using m by simp
  ultimately have "CalcEigenvalues_3_scaled (d ! 0) (d ! 4) (d ! 8) (d ! 3) (d ! 6) (d ! 7) =
      (map ((*) m) lam, vec)" by simp
  with L show ?thesis by (simp add: mult.commute)
qed



subsection \<open>Ordering of the results\<close>

text \<open>The eigenvalue arrays are sorted by the code itself. For the singular values of a 3x3
  matrix the order rests on the exactness of the closed formulas in real arithmetic: the
  value \<open>aa + r\<close> is an eigenvalue of \<open>B = A\<^sup>T A\<close>, the kernel vector is an eigenvector, and
  the deflated 2x2 block carries the other two eigenvalues, none of them negative. The code
  selects the smallest, the middle or the largest of the three signed values and takes the
  absolute value afterwards. In exact arithmetic this is harmless and the order is proved
  below; in binary64 arithmetic a rounding residue can be negative, and the last part of
  this subsection evaluates an input on which the order fails.\<close>

subsubsection \<open>Normalisation of a nonzero vector\<close>

text \<open>A nonzero vector is mapped by \<^verbatim>\<open>vec_normalize3\<close> to its quotient by the Euclidean norm.\<close>

lemma norm3_pos: "x1 \<noteq> 0 \<or> x2 \<noteq> 0 \<or> x3 \<noteq> 0 \<Longrightarrow> 0 < norm3 x1 x2 x3"
proof -
  assume a: "x1 \<noteq> 0 \<or> x2 \<noteq> 0 \<or> x3 \<noteq> 0"
  have "0 \<le> x1 * x1" "0 \<le> x2 * x2" "0 \<le> x3 * x3" by simp_all
  moreover have "0 < x1 * x1 \<or> 0 < x2 * x2 \<or> 0 < x3 * x3"
    using a by (auto simp: zero_less_mult_iff not_less_iff_gr_or_eq)
  ultimately have "0 < x1 * x1 + x2 * x2 + x3 * x3" by linarith
  then show ?thesis by (simp add: norm3_def)
qed

lemma norm3_sq: "norm3 x1 x2 x3 * norm3 x1 x2 x3 = x1 * x1 + x2 * x2 + x3 * x3"
proof -
  have "0 \<le> x1 * x1 + x2 * x2 + x3 * x3"
    by (intro add_nonneg_nonneg) simp_all
  then show ?thesis by (simp add: norm3_def)
qed

lemma vec_normalize3_aux_eq:
  assumes "x1 \<noteq> 0"
  shows "vec_normalize3_aux x1 x2 x3 =
           (x1 / norm3 x1 x2 x3, x2 / norm3 x1 x2 x3, x3 / norm3 x1 x2 x3)"
proof -
  define n where "n = norm3 x1 x2 x3"
  define m where "m = \<bar>x1\<bar>"
  have m: "0 < m" using assms by (simp add: m_def)
  have n: "0 < n" unfolding n_def using assms by (intro norm3_pos) simp
  have mm: "m * m = x1 * x1" by (simp add: m_def)
  have nn: "n * n = m * m + x2 * x2 + x3 * x3"
    by (simp add: n_def norm3_sq mm)
  have "1 + (x2 / m) * (x2 / m) + (x3 / m) * (x3 / m) = (m * m + x2 * x2 + x3 * x3) / (m * m)"
    using m by (simp add: field_simps)
  also have "\<dots> = (n * n) / (m * m)" by (simp only: nn)
  finally have e: "1 + (x2 / m) * (x2 / m) + (x3 / m) * (x3 / m) = (n / m) * (n / m)" by simp
  have t: "sqrt (1 / (1 + (x2 / m) * (x2 / m) + (x3 / m) * (x3 / m))) = m / n"
  proof -
    have a: "1 / ((n / m) * (n / m)) = (m / n)\<^sup>2"
      using m n by (simp add: field_simps power2_eq_square)
    have b: "0 \<le> m / n" using m n by simp
    show ?thesis unfolding e a using m n by simp
  qed
  have c: "copysign (m / n) x1 = x1 / n"
  proof (cases "0 \<le> x1")
    case True
    then show ?thesis using n by (simp add: copysign_def m_def)
  next
    case False
    then show ?thesis using n by (simp add: copysign_def m_def)
  qed
  have q: "m / n / m = 1 / n" using m by simp
  show ?thesis
    unfolding vec_normalize3_aux_def Let_def fabs_def m_def[symmetric] t c q n_def[symmetric]
    by simp
qed

lemma vec_normalize3_eq:
  assumes "x1 \<noteq> 0 \<or> x2 \<noteq> 0 \<or> x3 \<noteq> 0"
  shows "vec_normalize3 x1 x2 x3 =
           (x1 / norm3 x1 x2 x3, x2 / norm3 x1 x2 x3, x3 / norm3 x1 x2 x3)"
proof -
  have p: "norm3 x3 x1 x2 = norm3 x1 x2 x3" "norm3 x2 x1 x3 = norm3 x1 x2 x3"
    by (simp_all add: norm3_def add.commute add.left_commute)
  consider (a) "fabs x1 \<ge> fabs x2" "fabs x1 \<ge> fabs x3"
    | (b) "fabs x1 \<ge> fabs x2" "\<not> fabs x1 \<ge> fabs x3"
    | (c) "\<not> fabs x1 \<ge> fabs x2" "fabs x2 \<ge> fabs x3"
    | (d) "\<not> fabs x1 \<ge> fabs x2" "\<not> fabs x2 \<ge> fabs x3"
    by blast
  then show ?thesis
  proof cases
    case a
    then have "x1 \<noteq> 0" using assms by (auto simp: fabs_def)
    then show ?thesis using a by (simp add: vec_normalize3_def vec_normalize3_aux_eq)
  next
    case b
    then have "x3 \<noteq> 0" by (auto simp: fabs_def)
    then show ?thesis using b by (simp add: vec_normalize3_def vec_normalize3_aux_eq p)
  next
    case c
    then have "x2 \<noteq> 0" by (auto simp: fabs_def)
    then show ?thesis using c by (simp add: vec_normalize3_def vec_normalize3_aux_eq p)
  next
    case d
    then have "x3 \<noteq> 0" by (auto simp: fabs_def)
    then show ?thesis using d by (simp add: vec_normalize3_def vec_normalize3_aux_eq p)
  qed
qed

subsubsection \<open>Kernel vectors of singular matrices\<close>

text \<open>On a singular matrix the elimination in \<^verbatim>\<open>KernelVector2G\<close> and \<^verbatim>\<open>KernelVector3G_aux\<close>
  is exact: the Householder reflection of the pivot column leaves a singular block, and the
  vector that is returned is a unit vector of the kernel (dimension 1) or the unit normal of
  the kernel (dimension 2). \<^verbatim>\<open>KernelVector3S\<close> inherits this through its pivoting.\<close>

lemma square_pos: "(x::real) \<noteq> 0 \<Longrightarrow> 0 < x * x"
  using zero_less_power2[of x] by (simp add: power2_eq_square)

lemma householder_pivot:
  fixes d s :: real
  assumes s: "s \<noteq> 0"
  defines "mu \<equiv> copysign (hypot d s) d"
  shows "mu * mu = d * d + s * s" and "d + mu \<noteq> 0" and "mu \<noteq> 0"
    and "- s * (s / (d + mu)) = d - mu"
proof -
  have h: "0 < hypot d s"
  proof -
    have "0 < s * s" using s by (rule square_pos)
    moreover have "0 \<le> d * d" by simp
    ultimately have "0 < d * d + s * s" by linarith
    then show ?thesis by (simp add: hypot_def)
  qed
  have hh: "hypot d s * hypot d s = d * d + s * s"
  proof -
    have "0 \<le> d * d + s * s" by (intro add_nonneg_nonneg) simp_all
    then show ?thesis by (simp add: hypot_def)
  qed
  show mm: "mu * mu = d * d + s * s"
    using hh h by (simp add: mu_def copysign_def)
  show dm: "d + mu \<noteq> 0"
    using h by (auto simp: mu_def copysign_def)
  show "mu \<noteq> 0" using h by (auto simp: mu_def copysign_def)
  have "s * s = - ((d - mu) * (d + mu))"
    using mm by (simp add: algebra_simps)
  then have "- s * (s / (d + mu)) = ((d - mu) * (d + mu)) / (d + mu)" by simp
  also have "\<dots> = d - mu" using dm by simp
  finally show "- s * (s / (d + mu)) = d - mu" .
qed

lemma KernelVector2G_eliminate_singular:
  assumes c2: "p12 = kap * p1" "p2 = kap * p21"
    and c1: "p1 \<noteq> 0 \<or> p21 \<noteq> 0"
  shows "\<exists>e1. e1 \<noteq> 0 \<and> KernelVector2G_eliminate p1 p12 p21 p2 = (e1, kap * e1, 0)"
proof (cases "p21 = 0")
  case True
  then show ?thesis using c1 c2 by (simp add: KernelVector2G_eliminate_def)
next
  case False
  define mu where "mu = copysign (hypot p1 p21) p1"
  define n1 where "n1 = - p21 * (p21 / (p1 + mu))"
  have mm: "mu * mu = p1 * p1 + p21 * p21" and mu0: "mu \<noteq> 0" and n1: "n1 = p1 - mu"
    using householder_pivot[OF False, of p1] by (simp_all add: mu_def n1_def)
  define S where "S = n1 * n1 + p21 * p21"
  define T where "T = n1 * p1 + p21 * p21"
  have key: "2 * T = S"
    unfolding S_def T_def n1 using mm by (simp add: algebra_simps)
  have pos: "S \<noteq> 0"
  proof -
    have "0 < p21 * p21" using False by (rule square_pos)
    moreover have "0 \<le> n1 * n1" by simp
    ultimately show ?thesis unfolding S_def by linarith
  qed
  show ?thesis
  proof (cases "fabs n1 \<le> fabs p21")
    case True
    define nu where "nu = n1 / p21"
    have a: "1 + nu * nu = S / (p21 * p21)"
      using False by (simp add: nu_def S_def field_simps)
    have b: "nu * p1 + p21 = T / p21"
      using False by (simp add: nu_def T_def field_simps)
    have X: "(2 / (1 + nu * nu)) * (nu * p1 + p21) = p21"
    proof -
      have "(2 / (1 + nu * nu)) * (nu * p1 + p21) = (2 * T) * p21 / S"
        unfolding a b using False pos by (simp add: field_simps)
      also have "\<dots> = p21" unfolding key using pos by simp
      finally show ?thesis .
    qed
    have m2: "(2 / (1 + nu * nu)) * (nu * p12 + p2) = kap * p21"
    proof -
      have "(2 / (1 + nu * nu)) * (nu * p12 + p2) = kap * ((2 / (1 + nu * nu)) * (nu * p1 + p21))"
        unfolding c2 by (simp add: algebra_simps)
      then show ?thesis unfolding X .
    qed
    have e12: "p12 - kap * p21 * nu = kap * mu"
    proof -
      have "p21 * nu = n1" using False by (simp add: nu_def)
      then have "p12 - kap * p21 * nu = kap * p1 - kap * n1" by (simp add: c2 mult.assoc)
      then show ?thesis unfolding n1 by (simp add: algebra_simps)
    qed
    have "KernelVector2G_eliminate p1 p12 p21 p2 = (mu, kap * mu, 0)"
      unfolding KernelVector2G_eliminate_def Let_def mu_def[symmetric] n1_def[symmetric]
        nu_def[symmetric] m2
      using False True e12 c2 by simp
    then show ?thesis using mu0 by blast
  next
    case nT: False
    then have n10: "n1 \<noteq> 0" by (auto simp: fabs_def)
    define n2 where "n2 = p21 / n1"
    have a: "1 + n2 * n2 = S / (n1 * n1)"
      using n10 by (simp add: n2_def S_def field_simps)
    have b: "p1 + n2 * p21 = T / n1"
      using n10 by (simp add: n2_def T_def field_simps)
    have X: "(2 / (1 + n2 * n2)) * (p1 + n2 * p21) = n1"
    proof -
      have "(2 / (1 + n2 * n2)) * (p1 + n2 * p21) = (2 * T) * n1 / S"
        unfolding a b using n10 pos by (simp add: field_simps)
      also have "\<dots> = n1" unfolding key using pos by simp
      finally show ?thesis .
    qed
    have m2: "(2 / (1 + n2 * n2)) * (p12 + n2 * p2) = kap * n1"
    proof -
      have "(2 / (1 + n2 * n2)) * (p12 + n2 * p2) = kap * ((2 / (1 + n2 * n2)) * (p1 + n2 * p21))"
        unfolding c2 by (simp add: algebra_simps)
      then show ?thesis unfolding X .
    qed
    have e2: "p2 - kap * n1 * n2 = 0"
    proof -
      have "n1 * n2 = p21" using n10 by (simp add: n2_def)
      then show ?thesis by (simp add: c2 mult.assoc)
    qed
    have e12: "p12 - kap * n1 = kap * mu"
      unfolding n1 c2 by (simp add: algebra_simps)
    have "KernelVector2G_eliminate p1 p12 p21 p2 = (mu, kap * mu, 0)"
      unfolding KernelVector2G_eliminate_def Let_def mu_def[symmetric] n1_def[symmetric]
        n2_def[symmetric] m2
      using False nT e12 e2 by simp
    then show ?thesis using mu0 by blast
  qed
qed

lemma KernelVector2G_solve_singular:
  assumes "e1 \<noteq> 0"
  shows "KernelVector2G_solve e1 (kap * e1) 0 = (- kap / (1 + \<bar>kap\<bar>), 1 / (1 + \<bar>kap\<bar>))"
  using assms by (simp add: KernelVector2G_solve_def Let_def fabs_def)

lemma KernelVector2G_core:
  assumes "p12 = kap * p1" "p2 = kap * p21" "p1 \<noteq> 0 \<or> p21 \<noteq> 0"
  shows "\<exists>e1 e12 e2. KernelVector2G_eliminate p1 p12 p21 p2 = (e1, e12, e2) \<and>
     KernelVector2G_solve e1 e12 e2 = (- kap / (1 + \<bar>kap\<bar>), 1 / (1 + \<bar>kap\<bar>))"
proof -
  from KernelVector2G_eliminate_singular[OF assms]
  obtain e1 where e: "e1 \<noteq> 0" "KernelVector2G_eliminate p1 p12 p21 p2 = (e1, kap * e1, 0)"
    by blast
  show ?thesis
    using e(2) KernelVector2G_solve_singular[OF e(1), of kap] by blast
qed

lemma dependent_column:
  fixes a b c d :: real
  assumes det: "a * d = b * c" and nz: "a \<noteq> 0 \<or> c \<noteq> 0"
  shows "\<exists>kap. b = kap * a \<and> d = kap * c"
proof -
  define S where "S = a * a + c * c"
  have S: "S \<noteq> 0"
  proof -
    have "0 \<le> a * a" "0 \<le> c * c" by simp_all
    moreover have "0 < a * a \<or> 0 < c * c" using nz square_pos by blast
    ultimately show ?thesis unfolding S_def by linarith
  qed
  define kap where "kap = (a * b + c * d) / S"
  have "kap * a * S = (a * b + c * d) * a" using S by (simp add: kap_def)
  also have "\<dots> = b * (a * a) + c * (a * d)" by (simp add: algebra_simps)
  also have "\<dots> = b * S" unfolding det S_def by (simp add: algebra_simps)
  finally have 1: "b = kap * a" using S by simp
  have "kap * c * S = (a * b + c * d) * c" using S by (simp add: kap_def)
  also have "\<dots> = a * (b * c) + d * (c * c)" by (simp add: algebra_simps)
  also have "\<dots> = d * S" unfolding det[symmetric] S_def by (simp add: algebra_simps)
  finally have 2: "d = kap * c" using S by simp
  from 1 2 show ?thesis by blast
qed

lemma KernelVector2G_singular:
  assumes det: "a * d = b * c"
  shows "case KernelVector2G mode a b c d of
           (zero, z1, e12, e21, z2) \<Rightarrow>
             (zero \<longrightarrow> a = 0 \<and> b = 0 \<and> c = 0 \<and> d = 0) \<and>
             (\<not> zero \<longrightarrow> a * z1 + b * z2 = 0 \<and> c * z1 + d * z2 = 0 \<and> (z1 \<noteq> 0 \<or> z2 \<noteq> 0))"
proof -
  define n1 where "n1 = fabs a + fabs c"
  define n2 where "n2 = fabs d + fabs b"
  have nn: "0 \<le> n1" "0 \<le> n2" by (simp_all add: n1_def n2_def fabs_def)
  show ?thesis
  proof (cases "\<not> n2 > n1 \<and> n1 = 0")
    case True
    then have "n2 = 0" using nn by linarith
    with True have "a = 0 \<and> b = 0 \<and> c = 0 \<and> d = 0"
      by (auto simp: n1_def n2_def fabs_def)
    moreover have "fst (KernelVector2G mode a b c d) = True"
      using True by (simp add: KernelVector2G_def Let_def n1_def n2_def)
    ultimately show ?thesis by (auto split: prod.splits)
  next
    case False
    show ?thesis
    proof (cases "n2 > n1")
      case sw: False
      with False have "n1 \<noteq> 0" by simp
      then have nz: "a \<noteq> 0 \<or> c \<noteq> 0" by (auto simp: n1_def fabs_def)
      from dependent_column[OF det nz] obtain kap where k: "b = kap * a" "d = kap * c" by blast
      define q where "q = 1 / (1 + \<bar>kap\<bar>)"
      have q: "q \<noteq> 0" by (simp add: q_def) 
      obtain p1 p12 p21 p2 where P: "KernelVector2G_pivot mode False a b c d = (p1, p12, p21, p2)"
        by (metis prod_cases4)
      have pk: "p12 = kap * p1 \<and> p2 = kap * p21 \<and> (p1 \<noteq> 0 \<or> p21 \<noteq> 0)"
        using P k nz by (auto simp: KernelVector2G_pivot_def split: if_splits)
      from KernelVector2G_core[of p12 kap p1 p2 p21] pk
      obtain e1 e12 e2 where E: "KernelVector2G_eliminate p1 p12 p21 p2 = (e1, e12, e2)"
        and S: "KernelVector2G_solve e1 e12 e2 = (- kap * q, q)"
        by (auto simp: q_def)
      have "KernelVector2G mode a b c d = (False, - kap * q, e12, p21, q)"
        using sw False
        by (simp add: KernelVector2G_def Let_def n1_def[symmetric] n2_def[symmetric] P E S)
      then show ?thesis using k q by (simp add: algebra_simps)
    next
      case sw: True
      then have "n2 \<noteq> 0" using nn by linarith
      then have nz: "b \<noteq> 0 \<or> d \<noteq> 0" by (auto simp: n2_def fabs_def)
      have det': "b * c = a * d" using det by simp
      from dependent_column[OF det' nz] obtain kap where k: "a = kap * b" "c = kap * d" by blast
      define q where "q = 1 / (1 + \<bar>kap\<bar>)"
      have q: "q \<noteq> 0" by (simp add: q_def) 
      obtain p1 p12 p21 p2 where P: "KernelVector2G_pivot mode True a b c d = (p1, p12, p21, p2)"
        by (metis prod_cases4)
      have pk: "p12 = kap * p1 \<and> p2 = kap * p21 \<and> (p1 \<noteq> 0 \<or> p21 \<noteq> 0)"
        using P k nz by (auto simp: KernelVector2G_pivot_def split: if_splits)
      from KernelVector2G_core[of p12 kap p1 p2 p21] pk
      obtain e1 e12 e2 where E: "KernelVector2G_eliminate p1 p12 p21 p2 = (e1, e12, e2)"
        and S: "KernelVector2G_solve e1 e12 e2 = (- kap * q, q)"
        by (auto simp: q_def)
      have "KernelVector2G mode a b c d = (False, q, e12, p21, - kap * q)"
        using sw False
        by (simp add: KernelVector2G_def Let_def n1_def[symmetric] n2_def[symmetric] P E S)
      then show ?thesis using k q by (simp add: algebra_simps)
    qed
  qed
qed

lemma mat_mul_columns:
  "mat_mul A ((m11, m12, m13), (m21, m22, m23), (m31, m32, m33)) =
     (case mat_vec A (m11, m21, m31) of (a1, a2, a3) \<Rightarrow>
      case mat_vec A (m12, m22, m32) of (b1, b2, b3) \<Rightarrow>
      case mat_vec A (m13, m23, m33) of (c1, c2, c3) \<Rightarrow>
        ((a1, b1, c1), (a2, b2, c2), (a3, b3, c3)))"
  by (cases A) (auto simp: mat_mul_def mat_vec_def)

lemma householder_column:
  fixes d1 c21 c31 mu m :: real
  assumes m: "m \<noteq> 0"
    and mm: "mu * mu = d1 * d1 + (c21 * c21 + c31 * c31)"
    and nz: "c21 \<noteq> 0 \<or> c31 \<noteq> 0"
  defines "s1 \<equiv> (d1 - mu) / m" and "s2 \<equiv> c21 / m" and "s3 \<equiv> c31 / m"
  defines "g \<equiv> 2 / (s1 * s1 + s2 * s2 + s3 * s3)"
  shows "g * (s1 * s1 + s2 * s2 + s3 * s3) = 2"
    and "mat_vec (reflection g (s1, s2, s3)) (d1, c21, c31) = (mu, 0, 0)"
proof -
  define S where "S = (d1 - mu) * (d1 - mu) + c21 * c21 + c31 * c31"
  define T where "T = (d1 - mu) * d1 + c21 * c21 + c31 * c31"
  have key: "2 * T = S"
    unfolding S_def T_def using mm by (simp add: algebra_simps)
  have S: "0 < S"
  proof -
    have "0 < c21 * c21 \<or> 0 < c31 * c31" using nz square_pos by blast
    moreover have "0 \<le> c21 * c21" "0 \<le> c31 * c31" "0 \<le> (d1 - mu) * (d1 - mu)" by simp_all
    ultimately show ?thesis unfolding S_def by linarith
  qed
  have ss: "s1 * s1 + s2 * s2 + s3 * s3 = S / (m * m)"
    using m by (simp add: s1_def s2_def s3_def S_def add_divide_distrib)
  have ssn: "s1 * s1 + s2 * s2 + s3 * s3 \<noteq> 0"
    unfolding ss using S m by simp
  have dm: "2 / X * X = 2" if "X \<noteq> 0" for X :: real using that by simp
  show "g * (s1 * s1 + s2 * s2 + s3 * s3) = 2"
    unfolding g_def by (rule dm[OF ssn])
  have sc: "s1 * d1 + s2 * c21 + s3 * c31 = T / m"
    using m by (simp add: s1_def s2_def s3_def T_def add_divide_distrib)
  have g: "g = 2 * (m * m) / S"
    unfolding g_def ss using S m by simp
  have gm: "g * (s1 * d1 + s2 * c21 + s3 * c31) = m"
  proof -
    have "g * (s1 * d1 + s2 * c21 + s3 * c31) = (2 * T) * m / S"
      unfolding g sc using m S by (simp add: field_simps)
    also have "\<dots> = m" unfolding key using S by simp
    finally show ?thesis .
  qed
  have "mat_vec (reflection g (s1, s2, s3)) (d1, c21, c31) =
      (d1 - m * s1, c21 - m * s2, c31 - m * s3)"
    unfolding mat_vec_reflection gm by (rule refl)
  also have "\<dots> = (mu, 0, 0)"
    using m by (simp add: s1_def s2_def s3_def)
  finally show "mat_vec (reflection g (s1, s2, s3)) (d1, c21, c31) = (mu, 0, 0)" .
qed

lemma KernelVector3G_eliminate_reflection:
  assumes c1: "d1 \<noteq> 0 \<or> c21 \<noteq> 0 \<or> c31 \<noteq> 0"
  shows "\<exists>g s1 s2 s3 e1 e2 e3 e12 e13 e23 e32.
     KernelVector3G_eliminate d1 d2 d3 c12 c13 c23 c21 c31 c32 = (e1, e2, e3, e12, e13, e23, e32) \<and>
     e1 \<noteq> 0 \<and> (g = 0 \<or> g * (s1 * s1 + s2 * s2 + s3 * s3) = 2) \<and>
     mat_mul (reflection g (s1, s2, s3)) ((d1, c12, c13), (c21, d2, c23), (c31, c32, d3)) =
       ((e1, e12, e13), (0, e2, e23), (0, e32, e3))"
proof (cases "hypot c21 c31 = 0")
  case True
  then have "c21 * c21 + c31 * c31 = 0" by (simp add: hypot_def)
  then have z: "c21 = 0" "c31 = 0" by simp_all
  with c1 have d: "d1 \<noteq> 0" by simp
  have E: "KernelVector3G_eliminate d1 d2 d3 c12 c13 c23 c21 c31 c32 = (d1, d2, d3, c12, c13, c23, c32)"
    using True by (simp add: KernelVector3G_eliminate_def)
  have "mat_mul (reflection 0 (0, 0, 0)) ((d1, c12, c13), (c21, d2, c23), (c31, c32, d3)) =
       ((d1, c12, c13), (0, d2, c23), (0, c32, d3))"
    by (simp add: mat_mul_def reflection_def z)
  with E d show ?thesis by blast
next
  case False
  define sn where "sn = hypot c21 c31"
  define mu where "mu = copysign (hypot d1 sn) d1"
  define n1 where "n1 = - sn * (sn / (d1 + mu))"
  have sn: "sn \<noteq> 0" using False by (simp add: sn_def)
  then have snF: "(sn = 0) = False" by simp
  have sn2: "sn * sn = c21 * c21 + c31 * c31"
  proof -
    have "0 \<le> c21 * c21 + c31 * c31" by (intro add_nonneg_nonneg) simp_all
    then show ?thesis by (simp add: sn_def hypot_def)
  qed
  have nz: "c21 \<noteq> 0 \<or> c31 \<noteq> 0" using False by (auto simp: hypot_def)
  have mm: "mu * mu = d1 * d1 + (c21 * c21 + c31 * c31)" and mu0: "mu \<noteq> 0" and n1: "n1 = d1 - mu"
    using householder_pivot[OF sn, of d1] by (simp_all add: mu_def n1_def sn2)
  consider (A) "fabs n1 \<ge> fabs c21 \<and> fabs n1 \<ge> fabs c31"
    | (B) "\<not> (fabs n1 \<ge> fabs c21 \<and> fabs n1 \<ge> fabs c31)" "\<not> fabs n1 \<ge> fabs c21 \<and> fabs c21 \<ge> fabs c31"
    | (C) "\<not> (fabs n1 \<ge> fabs c21 \<and> fabs n1 \<ge> fabs c31)" "\<not> (\<not> fabs n1 \<ge> fabs c21 \<and> fabs c21 \<ge> fabs c31)"
    by blast
  then show ?thesis
  proof cases
    case A
    then have m: "n1 \<noteq> 0" using nz by (auto simp: fabs_def)
    define s2 where "s2 = c21 / n1"
    define s3 where "s3 = c31 / n1"
    define g where "g = 2 / (1 + s2 * s2 + s3 * s3)"
    have one: "(d1 - mu) / n1 = 1" using m n1 by simp
    from householder_column[OF m mm nz, unfolded one]
    have G: "g * (1 * 1 + s2 * s2 + s3 * s3) = 2"
      and H1: "mat_vec (reflection g (1, s2, s3)) (d1, c21, c31) = (mu, 0, 0)"
      by (simp_all add: g_def s2_def s3_def)
    define x2 where "x2 = g * (c12 + s2 * d2 + s3 * c32)"
    define x3 where "x3 = g * (c13 + s2 * c23 + s3 * d3)"
    have cA: "(fabs n1 \<ge> fabs c21 \<and> fabs n1 \<ge> fabs c31) = True" using A by simp
    have E: "KernelVector3G_eliminate d1 d2 d3 c12 c13 c23 c21 c31 c32 =
        (mu, d2 - s2 * x2, d3 - s3 * x3, c12 - x2, c13 - x3, c23 - s2 * x3, c32 - s3 * x2)"
      unfolding x2_def x3_def g_def s2_def s3_def
      unfolding KernelVector3G_eliminate_def Let_def
      unfolding sn_def[symmetric]
      unfolding mu_def[symmetric]
      unfolding n1_def[symmetric]
      by (simp only: snF cA if_True if_False simp_thms)
    have M: "mat_mul (reflection g (1, s2, s3)) ((d1, c12, c13), (c21, d2, c23), (c31, c32, d3)) =
       ((mu, c12 - x2, c13 - x3), (0, d2 - s2 * x2, c23 - s2 * x3), (0, c32 - s3 * x2, d3 - s3 * x3))"
      unfolding mat_mul_columns H1
      by (simp add: mat_vec_reflection x2_def x3_def algebra_simps)
    from E M G mu0 show ?thesis by blast
  next
    case B
    then have m: "c21 \<noteq> 0" by (auto simp: fabs_def)
    define s1 where "s1 = n1 / c21"
    define s3 where "s3 = c31 / c21"
    define g where "g = 2 / (1 + s1 * s1 + s3 * s3)"
    have one: "c21 / c21 = 1" using m by simp
    from householder_column[OF m mm nz, unfolded one n1[symmetric]]
    have G: "g * (s1 * s1 + 1 * 1 + s3 * s3) = 2"
      and H1: "mat_vec (reflection g (s1, 1, s3)) (d1, c21, c31) = (mu, 0, 0)"
      by (simp_all add: g_def s1_def s3_def add.commute add.left_commute)
    define x2 where "x2 = g * (s1 * c12 + d2 + s3 * c32)"
    define x3 where "x3 = g * (s1 * c13 + c23 + s3 * d3)"
    have cA: "(fabs n1 \<ge> fabs c21 \<and> fabs n1 \<ge> fabs c31) = False" using B(1) by simp
    have cB: "(\<not> fabs n1 \<ge> fabs c21 \<and> fabs c21 \<ge> fabs c31) = True" using B(2) by simp
    have E: "KernelVector3G_eliminate d1 d2 d3 c12 c13 c23 c21 c31 c32 =
        (mu, d2 - x2, d3 - s3 * x3, c12 - s1 * x2, c13 - s1 * x3, c23 - x3, c32 - s3 * x2)"
      unfolding x2_def x3_def g_def s1_def s3_def
      unfolding KernelVector3G_eliminate_def Let_def
      unfolding sn_def[symmetric]
      unfolding mu_def[symmetric]
      unfolding n1_def[symmetric]
      by (simp only: snF cA cB if_True if_False simp_thms)
    have M: "mat_mul (reflection g (s1, 1, s3)) ((d1, c12, c13), (c21, d2, c23), (c31, c32, d3)) =
       ((mu, c12 - s1 * x2, c13 - s1 * x3), (0, d2 - x2, c23 - x3), (0, c32 - s3 * x2, d3 - s3 * x3))"
      unfolding mat_mul_columns H1
      by (simp add: mat_vec_reflection x2_def x3_def algebra_simps)
    from E M G mu0 show ?thesis by blast
  next
    case C
    then have m: "c31 \<noteq> 0" using nz by (auto simp: fabs_def)
    define s1 where "s1 = n1 / c31"
    define s2 where "s2 = c21 / c31"
    define g where "g = 2 / (1 + s1 * s1 + s2 * s2)"
    have one: "c31 / c31 = 1" using m by simp
    from householder_column[OF m mm nz, unfolded one n1[symmetric]]
    have G: "g * (s1 * s1 + s2 * s2 + 1 * 1) = 2"
      and H1: "mat_vec (reflection g (s1, s2, 1)) (d1, c21, c31) = (mu, 0, 0)"
      by (simp_all add: g_def s1_def s2_def add.commute add.left_commute)
    define x2 where "x2 = g * (s1 * c12 + s2 * d2 + c32)"
    define x3 where "x3 = g * (s1 * c13 + s2 * c23 + d3)"
    have cA: "(fabs n1 \<ge> fabs c21 \<and> fabs n1 \<ge> fabs c31) = False" using C(1) by simp
    have cB: "(\<not> fabs n1 \<ge> fabs c21 \<and> fabs c21 \<ge> fabs c31) = False" using C(2) by simp
    have E: "KernelVector3G_eliminate d1 d2 d3 c12 c13 c23 c21 c31 c32 =
        (mu, d2 - s2 * x2, d3 - x3, c12 - s1 * x2, c13 - s1 * x3, c23 - s2 * x3, c32 - x2)"
      unfolding x2_def x3_def g_def s1_def s2_def
      unfolding KernelVector3G_eliminate_def Let_def
      unfolding sn_def[symmetric]
      unfolding mu_def[symmetric]
      unfolding n1_def[symmetric]
      by (simp only: snF cA cB if_True if_False simp_thms)
    have M: "mat_mul (reflection g (s1, s2, 1)) ((d1, c12, c13), (c21, d2, c23), (c31, c32, d3)) =
       ((mu, c12 - s1 * x2, c13 - s1 * x3), (0, d2 - s2 * x2, c23 - s2 * x3), (0, c32 - x2, d3 - x3))"
      unfolding mat_mul_columns H1
      by (simp add: mat_vec_reflection x2_def x3_def algebra_simps)
    from E M G mu0 show ?thesis by blast
  qed
qed

lemma det3_mat_mul: "det3 (mat_mul A B) = det3 A * det3 B"
  by (cases A; cases B) (auto simp: det3_def mat_mul_def algebra_simps)

lemma mat_mul_assoc: "mat_mul (mat_mul A B) C = mat_mul A (mat_mul B C)"
  by (cases A; cases B; cases C) (auto simp: mat_mul_def algebra_simps)

lemma mat_mul_one [simp]: "mat_mul mat_one A = A" "mat_mul A mat_one = A"
  by (cases A; auto simp: mat_mul_def mat_one_def)+

lemma mat_vec_one [simp]: "mat_vec mat_one x = x"
  by (cases x) (auto simp: mat_vec_def mat_one_def)

lemma mat_vec_zero [simp]: "mat_vec A (0, 0, 0) = (0, 0, 0)"
  by (cases A) (auto simp: mat_vec_def)

lemma reflection_involution:
  assumes "g = 0 \<or> g * (s1 * s1 + s2 * s2 + s3 * s3) = 2"
  shows "mat_mul (reflection g (s1, s2, s3)) (reflection g (s1, s2, s3)) = mat_one"
proof -
  have e: "g * g * (s1 * s1 + s2 * s2 + s3 * s3) = 2 * g"
    using assms by auto
  have "mat_mul (reflection g (s1, s2, s3)) (reflection g (s1, s2, s3)) =
    ((1 - (2 * g - g * g * (s1 * s1 + s2 * s2 + s3 * s3)) * (s1 * s1),
      - (2 * g - g * g * (s1 * s1 + s2 * s2 + s3 * s3)) * (s1 * s2),
      - (2 * g - g * g * (s1 * s1 + s2 * s2 + s3 * s3)) * (s1 * s3)),
     (- (2 * g - g * g * (s1 * s1 + s2 * s2 + s3 * s3)) * (s2 * s1),
      1 - (2 * g - g * g * (s1 * s1 + s2 * s2 + s3 * s3)) * (s2 * s2),
      - (2 * g - g * g * (s1 * s1 + s2 * s2 + s3 * s3)) * (s2 * s3)),
     (- (2 * g - g * g * (s1 * s1 + s2 * s2 + s3 * s3)) * (s3 * s1),
      - (2 * g - g * g * (s1 * s1 + s2 * s2 + s3 * s3)) * (s3 * s2),
      1 - (2 * g - g * g * (s1 * s1 + s2 * s2 + s3 * s3)) * (s3 * s3)))"
    by (simp add: mat_mul_def reflection_def algebra_simps)
  then show ?thesis unfolding e by (simp add: mat_one_def)
qed

lemma unit_normalized:
  assumes "x1 \<noteq> 0 \<or> x2 \<noteq> 0 \<or> x3 \<noteq> 0"
  defines "n \<equiv> norm3 x1 x2 x3"
  shows "(x1 / n) * (x1 / n) + (x2 / n) * (x2 / n) + (x3 / n) * (x3 / n) = 1"
proof -
  have n: "0 < n" unfolding n_def using assms(1) by (rule norm3_pos)
  have "(x1 / n) * (x1 / n) + (x2 / n) * (x2 / n) + (x3 / n) * (x3 / n) =
      (x1 * x1 + x2 * x2 + x3 * x3) / (n * n)"
    by (simp add: add_divide_distrib)
  also have "\<dots> = 1" unfolding n_def norm3_sq[symmetric] using n[unfolded n_def] by simp
  finally show ?thesis .
qed

lemma KernelVector3G_aux_singular:
  assumes det: "det3 ((d1, c12, c13), (c21, d2, c23), (c31, c32, d3)) = 0"
    and c1: "d1 \<noteq> 0 \<or> c21 \<noteq> 0 \<or> c31 \<noteq> 0"
  shows "case KernelVector3G_aux mode d1 d2 d3 c12 c13 c23 c21 c31 c32 of
           (kdim, z1, z2, z3) \<Rightarrow>
             z1 * z1 + z2 * z2 + z3 * z3 = 1 \<and>
             ((kdim = 1 \<and>
               mat_vec ((d1, c12, c13), (c21, d2, c23), (c31, c32, d3)) (z1, z2, z3) = (0, 0, 0)) \<or>
              (kdim = 2 \<and>
               (\<exists>h1 h2 h3. ((d1, c12, c13), (c21, d2, c23), (c31, c32, d3)) =
                  ((h1 * z1, h1 * z2, h1 * z3), (h2 * z1, h2 * z2, h2 * z3),
                   (h3 * z1, h3 * z2, h3 * z3)))))"
proof -
  let ?M0 = "((d1, c12, c13), (c21, d2, c23), (c31, c32, d3))"
  from KernelVector3G_eliminate_reflection[OF c1, of d2 d3 c12 c13 c23 c32]
  obtain g s1 s2 s3 e1 e2 e3 e12 e13 e23 e32 where
    E: "KernelVector3G_eliminate d1 d2 d3 c12 c13 c23 c21 c31 c32 = (e1, e2, e3, e12, e13, e23, e32)"
    and e1: "e1 \<noteq> 0"
    and G: "g = 0 \<or> g * (s1 * s1 + s2 * s2 + s3 * s3) = 2"
    and M: "mat_mul (reflection g (s1, s2, s3)) ?M0 = ((e1, e12, e13), (0, e2, e23), (0, e32, e3))"
    by blast
  let ?H = "reflection g (s1, s2, s3)"
  let ?M1 = "((e1, e12, e13), (0, e2, e23), (0, e32, e3))"
  have HH: "mat_mul ?H ?H = mat_one" by (rule reflection_involution[OF G])
  have M0: "?M0 = mat_mul ?H ?M1"
  proof -
    have "mat_mul ?H ?M1 = mat_mul (mat_mul ?H ?H) ?M0"
      unfolding M[symmetric] by (simp add: mat_mul_assoc)
    then show ?thesis unfolding HH by simp
  qed
  have "det3 ?M1 = det3 ?H * det3 ?M0" unfolding M[symmetric] by (rule det3_mat_mul)
  then have "e1 * (e2 * e3 - e23 * e32) = 0" using det by (simp add: det3_def)
  then have dN: "e2 * e3 = e23 * e32" using e1 by simp
  obtain zero z2 f23 f32 z3 where N: "KernelVector2G mode e2 e23 e32 e3 = (zero, z2, f23, f32, z3)"
    by (metis prod_cases5)
  from KernelVector2G_singular[OF dN, of mode] N
  have Nz: "zero \<longrightarrow> e2 = 0 \<and> e23 = 0 \<and> e32 = 0 \<and> e3 = 0"
    and Nk: "\<not> zero \<longrightarrow> e2 * z2 + e23 * z3 = 0 \<and> e32 * z2 + e3 * z3 = 0 \<and> (z2 \<noteq> 0 \<or> z3 \<noteq> 0)"
    by simp_all
  show ?thesis
  proof (cases zero)
    case True
    define n where "n = norm3 1 (e12 / e1) (e13 / e1)"
    have nz: "(1::real) \<noteq> 0 \<or> e12 / e1 \<noteq> 0 \<or> e13 / e1 \<noteq> 0" by simp
    have n: "0 < n" unfolding n_def using nz by (rule norm3_pos)
    have R: "KernelVector3G_aux mode d1 d2 d3 c12 c13 c23 c21 c31 c32 =
        (2, 1 / n, e12 / e1 / n, e13 / e1 / n)"
      unfolding KernelVector3G_aux_def E N prod.case using True
      by (simp add: vec_normalize3_eq[OF nz] n_def)
    have U: "(1 / n) * (1 / n) + (e12 / e1 / n) * (e12 / e1 / n) + (e13 / e1 / n) * (e13 / e1 / n) = 1"
      unfolding n_def by (rule unit_normalized[OF nz])
    from Nz True have z: "e2 = 0" "e23 = 0" "e32 = 0" "e3 = 0" by simp_all
    obtain h11 h12 h13 h21 h22 h23 h31 h32 h33 where
      H: "?H = ((h11, h12, h13), (h21, h22, h23), (h31, h32, h33))"
      by (metis prod_cases3)
    have row: "e1 = (e1 * n) * (1 / n)" "e12 = (e1 * n) * (e12 / e1 / n)" "e13 = (e1 * n) * (e13 / e1 / n)"
      using e1 n by simp_all
    have "?M0 = ((h11 * e1, h11 * e12, h11 * e13), (h21 * e1, h21 * e12, h21 * e13),
                 (h31 * e1, h31 * e12, h31 * e13))"
      unfolding M0 H z by (simp add: mat_mul_def)
    also have "\<dots> = (((h11 * (e1 * n)) * (1 / n), (h11 * (e1 * n)) * (e12 / e1 / n), (h11 * (e1 * n)) * (e13 / e1 / n)),
        ((h21 * (e1 * n)) * (1 / n), (h21 * (e1 * n)) * (e12 / e1 / n), (h21 * (e1 * n)) * (e13 / e1 / n)),
        ((h31 * (e1 * n)) * (1 / n), (h31 * (e1 * n)) * (e12 / e1 / n), (h31 * (e1 * n)) * (e13 / e1 / n)))"
      using e1 n by simp
    finally have "\<exists>h1 h2 h3. ?M0 =
        ((h1 * (1 / n), h1 * (e12 / e1 / n), h1 * (e13 / e1 / n)),
         (h2 * (1 / n), h2 * (e12 / e1 / n), h2 * (e13 / e1 / n)),
         (h3 * (1 / n), h3 * (e12 / e1 / n), h3 * (e13 / e1 / n)))"
      by blast
    with R U show ?thesis by simp
  next
    case False
    with Nk have k: "e2 * z2 + e23 * z3 = 0" "e32 * z2 + e3 * z3 = 0" and nz23: "z2 \<noteq> 0 \<or> z3 \<noteq> 0"
      by simp_all
    define y1 where "y1 = - (e12 * z2 + e13 * z3) / e1"
    define n where "n = norm3 y1 z2 z3"
    have nz: "y1 \<noteq> 0 \<or> z2 \<noteq> 0 \<or> z3 \<noteq> 0" using nz23 by blast
    have n: "0 < n" unfolding n_def using nz by (rule norm3_pos)
    have R: "KernelVector3G_aux mode d1 d2 d3 c12 c13 c23 c21 c31 c32 = (1, y1 / n, z2 / n, z3 / n)"
      unfolding KernelVector3G_aux_def E N prod.case y1_def[symmetric]
        vec_normalize3_eq[OF nz] n_def[symmetric]
      using False by simp
    have U: "(y1 / n) * (y1 / n) + (z2 / n) * (z2 / n) + (z3 / n) * (z3 / n) = 1"
      unfolding n_def by (rule unit_normalized[OF nz])
    have r1: "e1 * y1 + e12 * z2 + e13 * z3 = 0"
      using e1 by (simp add: y1_def)
    have "mat_vec ?M1 (y1 / n, z2 / n, z3 / n) =
        ((e1 * y1 + e12 * z2 + e13 * z3) / n, (e2 * z2 + e23 * z3) / n, (e32 * z2 + e3 * z3) / n)"
      by (simp add: mat_vec_def add_divide_distrib)
    also have "\<dots> = (0, 0, 0)" unfolding r1 k by simp
    finally have "mat_vec ?M1 (y1 / n, z2 / n, z3 / n) = (0, 0, 0)" .
    then have "mat_vec ?M0 (y1 / n, z2 / n, z3 / n) = (0, 0, 0)"
      unfolding M0 mat_vec_mat_mul by simp
    with R U show ?thesis by simp
  qed
qed

lemma rank_one_symmetric:
  fixes z1 z2 z3 :: real
  assumes u: "z1 * z1 + z2 * z2 + z3 * z3 = 1"
    and C: "sym_matrix a1 a2 a3 a12 a13 a23 =
      ((u1 * z1, u1 * z2, u1 * z3), (u2 * z1, u2 * z2, u2 * z3), (u3 * z1, u3 * z2, u3 * z3))"
  shows "\<exists>sg. sym_matrix a1 a2 a3 a12 a13 a23 =
      ((sg * z1 * z1, sg * z1 * z2, sg * z1 * z3),
       (sg * z1 * z2, sg * z2 * z2, sg * z2 * z3),
       (sg * z1 * z3, sg * z2 * z3, sg * z3 * z3))"
proof -
  from C have e: "a1 = u1 * z1" "a12 = u1 * z2" "a13 = u1 * z3" "a12 = u2 * z1" "a2 = u2 * z2"
    "a23 = u2 * z3" "a13 = u3 * z1" "a23 = u3 * z2" "a3 = u3 * z3"
    by (simp_all add: sym_matrix_def)
  define sg where "sg = u1 * z1 + u2 * z2 + u3 * z3"
  have s12: "u1 * z2 = u2 * z1" and s13: "u1 * z3 = u3 * z1" and s23: "u2 * z3 = u3 * z2"
    using e by simp_all
  have "u1 = u1 * (z1 * z1 + z2 * z2 + z3 * z3)" using u by simp
  also have "\<dots> = (u1 * z1) * z1 + (u1 * z2) * z2 + (u1 * z3) * z3" by (simp add: algebra_simps)
  also have "\<dots> = sg * z1" unfolding s12 s13 sg_def by (simp add: algebra_simps)
  finally have u1: "u1 = sg * z1" .
  have "u2 = u2 * (z1 * z1 + z2 * z2 + z3 * z3)" using u by simp
  also have "\<dots> = (u2 * z1) * z1 + (u2 * z2) * z2 + (u2 * z3) * z3" by (simp add: algebra_simps)
  also have "\<dots> = sg * z2" unfolding s12[symmetric] s23 sg_def by (simp add: algebra_simps)
  finally have u2: "u2 = sg * z2" .
  have "u3 = u3 * (z1 * z1 + z2 * z2 + z3 * z3)" using u by simp
  also have "\<dots> = (u3 * z1) * z1 + (u3 * z2) * z2 + (u3 * z3) * z3" by (simp add: algebra_simps)
  also have "\<dots> = sg * z3" unfolding s13[symmetric] s23[symmetric] sg_def by (simp add: algebra_simps)
  finally have u3: "u3 = sg * z3" .
  have "sym_matrix a1 a2 a3 a12 a13 a23 =
      ((sg * z1 * z1, sg * z1 * z2, sg * z1 * z3),
       (sg * z1 * z2, sg * z2 * z2, sg * z2 * z3),
       (sg * z1 * z3, sg * z2 * z3, sg * z3 * z3))"
    unfolding sym_matrix_def using e u1 u2 u3 by (auto simp: algebra_simps)
  then show ?thesis by blast
qed

lemma kernel_result_rows:
  assumes det: "det3 (sym_matrix e1 e2 e3 c12 c13 c23) = 0"
    and c1: "e1 \<noteq> 0 \<or> c12 \<noteq> 0 \<or> c13 \<noteq> 0"
  shows "kernel_result (sym_matrix e1 e2 e3 c12 c13 c23)
           (KernelVector3G_aux mode e1 e2 e3 c12 c13 c23 c12 c13 c23)"
    and "kernel_result (sym_matrix e1 e2 e3 c12 c13 c23)
           (KernelVector3G_aux mode c12 c12 e3 e2 c23 c13 e1 c13 c23)"
    and "kernel_result (sym_matrix e1 e2 e3 c12 c13 c23)
           (KernelVector3G_aux mode c13 e2 c13 c23 e3 c23 c12 e1 c12)"
proof -
  let ?C = "sym_matrix e1 e2 e3 c12 c13 c23"
  have sym: "?C = ((e1, c12, c13), (c12, e2, c23), (c13, c23, e3))" by (simp add: sym_matrix_def)
  have d1: "det3 ((e1, c12, c13), (c12, e2, c23), (c13, c23, e3)) = 0"
    using det by (simp add: sym_matrix_def)
  obtain k1 x1 x2 x3 where R1: "KernelVector3G_aux mode e1 e2 e3 c12 c13 c23 c12 c13 c23 = (k1, x1, x2, x3)"
    by (metis prod_cases4)
  from KernelVector3G_aux_singular[OF d1 c1, of mode] R1
  have P1: "x1 * x1 + x2 * x2 + x3 * x3 = 1"
    "(k1 = 1 \<and> mat_vec ?C (x1, x2, x3) = (0, 0, 0)) \<or>
     (k1 = 2 \<and> (\<exists>h1 h2 h3. ?C = ((h1 * x1, h1 * x2, h1 * x3), (h2 * x1, h2 * x2, h2 * x3),
                   (h3 * x1, h3 * x2, h3 * x3))))"
    unfolding sym by simp_all
  show "kernel_result ?C (KernelVector3G_aux mode e1 e2 e3 c12 c13 c23 c12 c13 c23)"
    unfolding R1 kernel_result_def prod.case
    using P1 rank_one_symmetric[OF P1(1), of e1 e2 e3 c12 c13 c23] by metis
  have d2: "det3 ((c12, e2, c23), (e1, c12, c13), (c13, c23, e3)) = 0"
    using det by (simp add: sym_matrix_def det3_def algebra_simps)
  have c2: "c12 \<noteq> 0 \<or> e1 \<noteq> 0 \<or> c13 \<noteq> 0" using c1 by blast
  obtain k2 y1 y2 y3 where R2: "KernelVector3G_aux mode c12 c12 e3 e2 c23 c13 e1 c13 c23 = (k2, y1, y2, y3)"
    by (metis prod_cases4)
  from KernelVector3G_aux_singular[OF d2 c2, of mode] R2
  have P2: "y1 * y1 + y2 * y2 + y3 * y3 = 1"
    "(k2 = 1 \<and> mat_vec ((c12, e2, c23), (e1, c12, c13), (c13, c23, e3)) (y1, y2, y3) = (0, 0, 0)) \<or>
     (k2 = 2 \<and> (\<exists>h1 h2 h3. ((c12, e2, c23), (e1, c12, c13), (c13, c23, e3)) =
         ((h1 * y1, h1 * y2, h1 * y3), (h2 * y1, h2 * y2, h2 * y3), (h3 * y1, h3 * y2, h3 * y3))))"
    by simp_all
  have Q2: "(k2 = 1 \<and> mat_vec ?C (y1, y2, y3) = (0, 0, 0)) \<or>
     (k2 = 2 \<and> (\<exists>h1 h2 h3. ?C = ((h1 * y1, h1 * y2, h1 * y3), (h2 * y1, h2 * y2, h2 * y3),
                   (h3 * y1, h3 * y2, h3 * y3))))"
    using P2(2)
  proof
    assume "k2 = 1 \<and> mat_vec ((c12, e2, c23), (e1, c12, c13), (c13, c23, e3)) (y1, y2, y3) = (0, 0, 0)"
    then show ?thesis by (simp add: mat_vec_def sym_matrix_def)
  next
    assume a: "k2 = 2 \<and> (\<exists>h1 h2 h3. ((c12, e2, c23), (e1, c12, c13), (c13, c23, e3)) =
         ((h1 * y1, h1 * y2, h1 * y3), (h2 * y1, h2 * y2, h2 * y3), (h3 * y1, h3 * y2, h3 * y3)))"
    then obtain h1 h2 h3 where "((c12, e2, c23), (e1, c12, c13), (c13, c23, e3)) =
         ((h1 * y1, h1 * y2, h1 * y3), (h2 * y1, h2 * y2, h2 * y3), (h3 * y1, h3 * y2, h3 * y3))"
      by blast
    then have "?C = ((h2 * y1, h2 * y2, h2 * y3), (h1 * y1, h1 * y2, h1 * y3), (h3 * y1, h3 * y2, h3 * y3))"
      by (simp add: sym_matrix_def)
    with a show ?thesis by blast
  qed
  show "kernel_result ?C (KernelVector3G_aux mode c12 c12 e3 e2 c23 c13 e1 c13 c23)"
    unfolding R2 kernel_result_def prod.case
    using P2(1) Q2 rank_one_symmetric[OF P2(1), of e1 e2 e3 c12 c13 c23] by metis
  have d3: "det3 ((c13, c23, e3), (c12, e2, c23), (e1, c12, c13)) = 0"
    using det by (simp add: sym_matrix_def det3_def algebra_simps)
  have c3: "c13 \<noteq> 0 \<or> c12 \<noteq> 0 \<or> e1 \<noteq> 0" using c1 by blast
  obtain k3 w1 w2 w3 where R3: "KernelVector3G_aux mode c13 e2 c13 c23 e3 c23 c12 e1 c12 = (k3, w1, w2, w3)"
    by (metis prod_cases4)
  from KernelVector3G_aux_singular[OF d3 c3, of mode] R3
  have P3: "w1 * w1 + w2 * w2 + w3 * w3 = 1"
    "(k3 = 1 \<and> mat_vec ((c13, c23, e3), (c12, e2, c23), (e1, c12, c13)) (w1, w2, w3) = (0, 0, 0)) \<or>
     (k3 = 2 \<and> (\<exists>h1 h2 h3. ((c13, c23, e3), (c12, e2, c23), (e1, c12, c13)) =
         ((h1 * w1, h1 * w2, h1 * w3), (h2 * w1, h2 * w2, h2 * w3), (h3 * w1, h3 * w2, h3 * w3))))"
    by simp_all
  have Q3: "(k3 = 1 \<and> mat_vec ?C (w1, w2, w3) = (0, 0, 0)) \<or>
     (k3 = 2 \<and> (\<exists>h1 h2 h3. ?C = ((h1 * w1, h1 * w2, h1 * w3), (h2 * w1, h2 * w2, h2 * w3),
                   (h3 * w1, h3 * w2, h3 * w3))))"
    using P3(2)
  proof
    assume "k3 = 1 \<and> mat_vec ((c13, c23, e3), (c12, e2, c23), (e1, c12, c13)) (w1, w2, w3) = (0, 0, 0)"
    then show ?thesis by (simp add: mat_vec_def sym_matrix_def)
  next
    assume a: "k3 = 2 \<and> (\<exists>h1 h2 h3. ((c13, c23, e3), (c12, e2, c23), (e1, c12, c13)) =
         ((h1 * w1, h1 * w2, h1 * w3), (h2 * w1, h2 * w2, h2 * w3), (h3 * w1, h3 * w2, h3 * w3)))"
    then obtain h1 h2 h3 where "((c13, c23, e3), (c12, e2, c23), (e1, c12, c13)) =
         ((h1 * w1, h1 * w2, h1 * w3), (h2 * w1, h2 * w2, h2 * w3), (h3 * w1, h3 * w2, h3 * w3))"
      by blast
    then have "?C = ((h3 * w1, h3 * w2, h3 * w3), (h2 * w1, h2 * w2, h2 * w3), (h1 * w1, h1 * w2, h1 * w3))"
      by (simp add: sym_matrix_def)
    with a show ?thesis by blast
  qed
  show "kernel_result ?C (KernelVector3G_aux mode c13 e2 c13 c23 e3 c23 c12 e1 c12)"
    unfolding R3 kernel_result_def prod.case
    using P3(1) Q3 rank_one_symmetric[OF P3(1), of e1 e2 e3 c12 c13 c23] by metis
qed

lemma kernel_result_swap12:
  assumes "kernel_result (sym_matrix d2 d1 d3 d12 d23 d13) (k, y1, y2, y3)"
  shows "kernel_result (sym_matrix d1 d2 d3 d12 d13 d23) (k, y2, y1, y3)"
  using assms unfolding kernel_result_def prod.case sym_matrix_def mat_vec_def
  by (auto simp: algebra_simps)

lemma kernel_result_swap13:
  assumes "kernel_result (sym_matrix d3 d2 d1 d23 d13 d12) (k, y1, y2, y3)"
  shows "kernel_result (sym_matrix d1 d2 d3 d12 d13 d23) (k, y3, y2, y1)"
  using assms unfolding kernel_result_def prod.case sym_matrix_def mat_vec_def
  by (auto simp: algebra_simps)

lemma KernelVector3S_col_cases:
  assumes "KernelVector3S_col d12 d13 d23 d1 d2 d3 = (col, n)"
  shows "(col = 1 \<and> n = fabs d1 + fabs d12 + fabs d13) \<or>
         (col = 2 \<and> n = fabs d2 + fabs d12 + fabs d23) \<or>
         (col = 3 \<and> n = fabs d3 + fabs d13 + fabs d23)"
  using assms unfolding KernelVector3S_col_def Let_def by (auto split: if_splits)

lemma fabs_sum_nonzero:
  "fabs a + fabs b + fabs c \<noteq> 0 \<Longrightarrow> a \<noteq> 0 \<or> b \<noteq> 0 \<or> c \<noteq> 0"
  by (auto simp: fabs_def)

lemma kernel_result_dispatch:
  assumes det: "det3 (sym_matrix e1 e2 e3 c12 c13 c23) = 0"
    and c1: "e1 \<noteq> 0 \<or> c12 \<noteq> 0 \<or> c13 \<noteq> 0"
  shows "kernel_result (sym_matrix e1 e2 e3 c12 c13 c23)
           (if row = (1::int) then KernelVector3G_aux mode e1 e2 e3 c12 c13 c23 c12 c13 c23
            else if row = 2 then KernelVector3G_aux mode c12 c12 e3 e2 c23 c13 e1 c13 c23
            else KernelVector3G_aux mode c13 e2 c13 c23 e3 c23 c12 e1 c12)"
  using kernel_result_rows[OF det c1, of mode] by simp

lemma KernelVector3S_singular:
  assumes det: "det3 (sym_matrix d1 d2 d3 d12 d13 d23) = 0"
  shows "(fst (KernelVector3S mode d12 d13 d23 d1 d2 d3) = 3 \<and>
          d1 = 0 \<and> d2 = 0 \<and> d3 = 0 \<and> d12 = 0 \<and> d13 = 0 \<and> d23 = 0) \<or>
         kernel_result (sym_matrix d1 d2 d3 d12 d13 d23) (KernelVector3S mode d12 d13 d23 d1 d2 d3)"
proof -
  obtain col n where cn: "KernelVector3S_col d12 d13 d23 d1 d2 d3 = (col, n)"
    by (metis surj_pair)
  show ?thesis
  proof (cases "n = 0")
    case True
    then have "snd (KernelVector3S_col d12 d13 d23 d1 d2 d3) = 0" using cn by simp
    then have z: "d1 = 0 \<and> d2 = 0 \<and> d3 = 0 \<and> d12 = 0 \<and> d13 = 0 \<and> d23 = 0"
      using KernelVector3S_col_zero_iff by blast
    have "fst (KernelVector3S mode d12 d13 d23 d1 d2 d3) = 3"
      unfolding KernelVector3S_def cn using True by simp
    with z show ?thesis by blast
  next
    case False
    from KernelVector3S_col_cases[OF cn]
    consider (c1) "col = 1" "n = fabs d1 + fabs d12 + fabs d13"
      | (c2) "col = 2" "n = fabs d2 + fabs d12 + fabs d23"
      | (c3) "col = 3" "n = fabs d3 + fabs d13 + fabs d23" by blast
    then have "kernel_result (sym_matrix d1 d2 d3 d12 d13 d23) (KernelVector3S mode d12 d13 d23 d1 d2 d3)"
    proof cases
      case c1
      have nz: "d1 \<noteq> 0 \<or> d12 \<noteq> 0 \<or> d13 \<noteq> 0" using False c1(2) fabs_sum_nonzero by blast
      define row where "row = KernelVector3S_row mode d1 d12 d13"
      define res where "res = (if row = (1::int) then KernelVector3G_aux mode d1 d2 d3 d12 d13 d23 d12 d13 d23
            else if row = 2 then KernelVector3G_aux mode d12 d12 d3 d2 d23 d13 d1 d13 d23
            else KernelVector3G_aux mode d13 d2 d13 d23 d3 d23 d12 d1 d12)"
      have kr: "kernel_result (sym_matrix d1 d2 d3 d12 d13 d23) res"
        unfolding res_def by (rule kernel_result_dispatch[OF det nz])
      obtain k y1 y2 y3 where r: "res = (k, y1, y2, y3)" by (metis prod_cases4)
      have "KernelVector3S mode d12 d13 d23 d1 d2 d3 = (k, y1, y2, y3)"
        unfolding KernelVector3S_def cn using False c1(1) r[unfolded res_def]
        by (auto simp: Let_def row_def[symmetric] split: if_splits)
      with kr r show ?thesis by simp
    next
      case c2
      have nz: "d2 \<noteq> 0 \<or> d12 \<noteq> 0 \<or> d23 \<noteq> 0" using False c2(2) fabs_sum_nonzero by blast
      have det': "det3 (sym_matrix d2 d1 d3 d12 d23 d13) = 0"
        using det by (simp add: sym_matrix_def det3_def algebra_simps)
      define row where "row = KernelVector3S_row mode d2 d12 d23"
      define res where "res = (if row = (1::int) then KernelVector3G_aux mode d2 d1 d3 d12 d23 d13 d12 d23 d13
            else if row = 2 then KernelVector3G_aux mode d12 d12 d3 d1 d13 d23 d2 d23 d13
            else KernelVector3G_aux mode d23 d1 d23 d13 d3 d13 d12 d2 d12)"
      have kr: "kernel_result (sym_matrix d2 d1 d3 d12 d23 d13) res"
        unfolding res_def by (rule kernel_result_dispatch[OF det' nz])
      obtain k y1 y2 y3 where r: "res = (k, y1, y2, y3)" by (metis prod_cases4)
      have "KernelVector3S mode d12 d13 d23 d1 d2 d3 = (k, y2, y1, y3)"
        unfolding KernelVector3S_def cn using False c2(1) r[unfolded res_def]
        by (auto simp: Let_def row_def[symmetric] split: if_splits)
      with kernel_result_swap12 kr r show ?thesis by simp
    next
      case c3
      have nz: "d3 \<noteq> 0 \<or> d23 \<noteq> 0 \<or> d13 \<noteq> 0" using False c3(2) fabs_sum_nonzero by blast
      have det': "det3 (sym_matrix d3 d2 d1 d23 d13 d12) = 0"
        using det by (simp add: sym_matrix_def det3_def algebra_simps)
      define row where "row = KernelVector3S_row mode d3 d23 d13"
      define res where "res = (if row = (1::int) then KernelVector3G_aux mode d3 d2 d1 d23 d13 d12 d23 d13 d12
            else if row = 2 then KernelVector3G_aux mode d23 d23 d1 d2 d12 d13 d3 d13 d12
            else KernelVector3G_aux mode d13 d2 d13 d12 d1 d12 d23 d3 d23)"
      have kr: "kernel_result (sym_matrix d3 d2 d1 d23 d13 d12) res"
        unfolding res_def by (rule kernel_result_dispatch[OF det' nz])
      obtain k y1 y2 y3 where r: "res = (k, y1, y2, y3)" by (metis prod_cases4)
      have "KernelVector3S mode d12 d13 d23 d1 d2 d3 = (k, y3, y2, y1)"
        unfolding KernelVector3S_def cn using False c3(1) r[unfolded res_def]
        by (auto simp: Let_def row_def[symmetric] split: if_splits)
      with kernel_result_swap13 kr r show ?thesis by simp
    qed
    then show ?thesis by blast
  qed
qed

subsubsection \<open>Invariants of the Householder deflation\<close>

text \<open>For a unit eigenvector, \<^verbatim>\<open>Reduce3S\<close> returns the entries of \<open>Q P A P Q\<close> with \<open>Q\<close> an
  orthogonal involution: the trace and the Frobenius norm of \<open>A\<close> are kept, and so is
  positive semi-definiteness.\<close>

lemma trace3_mat_mul_commute: "trace3 (mat_mul A B) = trace3 (mat_mul B A)"
  by (cases A; cases B) (auto simp: trace3_def mat_mul_def algebra_simps)

lemma dot3_reflection: "dot3 x (mat_vec (reflection g v) y) = dot3 (mat_vec (reflection g v) x) y"
  by (cases x; cases y; cases v) (auto simp: dot3_def mat_vec_def reflection_def algebra_simps)

lemma psd3_conjugate:
  assumes "psd3 A"
  shows "psd3 (mat_mul (reflection g v) (mat_mul A (reflection g v)))"
  unfolding psd3_def
proof
  fix x
  have e: "dot3 x (mat_vec (mat_mul (reflection g v) (mat_mul A (reflection g v))) x) =
        dot3 (mat_vec (reflection g v) x) (mat_vec A (mat_vec (reflection g v) x))"
    by (simp add: mat_vec_mat_mul dot3_reflection)
  show "0 \<le> dot3 x (mat_vec (mat_mul (reflection g v) (mat_mul A (reflection g v))) x)"
    unfolding e by (rule assms[unfolded psd3_def, rule_format])
qed

lemma psd3_block:
  assumes "psd3 ((lam, 0, 0), (0, b2, b23), (0, b23, b3))"
  shows "0 \<le> lam" "0 \<le> b2" "0 \<le> b3" "b23 * b23 \<le> b2 * b3"
proof -
  have q: "0 \<le> lam * (x1 * x1) + b2 * (x2 * x2) + 2 * b23 * (x2 * x3) + b3 * (x3 * x3)" for x1 x2 x3
    using assms[unfolded psd3_def, rule_format, of "(x1, x2, x3)"]
    by (simp add: dot3_def mat_vec_def algebra_simps)
  show "0 \<le> lam" using q[of 1 0 0] by simp
  show b2: "0 \<le> b2" using q[of 0 1 0] by simp
  show b3: "0 \<le> b3" using q[of 0 0 1] by simp
  show "b23 * b23 \<le> b2 * b3"
  proof (cases "b2 = 0")
    case True
    have "b23 = 0"
    proof (rule ccontr)
      assume "b23 \<noteq> 0"
      then have p: "0 < b23 * b23" by (simp add: square_pos)
      define t where "t = (b3 + 1) / (2 * (b23 * b23))"
      have "0 \<le> 2 * b23 * (- b23 * t) + b3"
        using q[of 0 "- b23 * t" 1] True by simp
      then have "2 * (b23 * b23) * t \<le> b3" by (simp add: algebra_simps)
      moreover have "2 * (b23 * b23) * t = b3 + 1" unfolding t_def using \<open>b23 \<noteq> 0\<close> by simp
      ultimately show False by simp
    qed
    then show ?thesis using True by simp
  next
    case False
    then have p: "0 < b2" using b2 by simp
    have "0 \<le> b2 * (b23 * b23) + 2 * b23 * (- b23 * b2) + b3 * (b2 * b2)"
      using q[of 0 "- b23" b2] by (simp add: algebra_simps)
    then have "0 \<le> b2 * (b2 * b3 - b23 * b23)" by (simp add: algebra_simps)
    then have "0 \<le> b2 * b3 - b23 * b23" using p by (simp add: zero_le_mult_iff)
    then show ?thesis by simp
  qed
qed

lemma Reduce3S_reflect_involution:
  assumes unit: "y1 * y1 + y2 * y2 + y3 * y3 = 1"
    and red: "Reduce3S_reflect d1 d2 d3 d12 d13 d23 y1 y2 y3 = ((b1, b2, b3, b23), (v1, v2, v3, g))"
  shows "mat_mul (reflection g (v1, v2, v3)) (reflection g (v1, v2, v3)) = mat_one"
proof (cases "hypot y2 y3 = 0")
  case True
  from red True have r: "v1 = 0" "v2 = 0" "v3 = 0" "g = 1"
    by (simp_all add: Reduce3S_reflect_def)
  show ?thesis unfolding r by (simp add: reflection_def mat_mul_def mat_one_def)
next
  case False
  from Reduce3S_reflect_nonzero[OF unit False, of d1 d2 d3 d12 d13 d23]
  obtain m where m: "0 < m"
    and R: "Reduce3S_reflect d1 d2 d3 d12 d13 d23 y1 y2 y3 =
      (let v1 = (y1 - copysign 1 y1) / m; v2 = y2 / m; v3 = y3 / m;
           g = (m * m) / (1 - \<bar>y1\<bar>);
           w1 = g * (d1 * v1 + d12 * v2 + d13 * v3);
           w2 = g * (d12 * v1 + d2 * v2 + d23 * v3);
           w3 = g * (d13 * v1 + d23 * v2 + d3 * v3);
           s = (g / 2) * (v1 * w1 + v2 * w2 + v3 * w3);
           w1 = w1 - s * v1;
           w2 = w2 - s * v2;
           w3 = w3 - s * v3
       in ((d1 - 2 * v1 * w1, d2 - 2 * v2 * w2, d3 - 2 * v3 * w3, d23 - (v2 * w3 + v3 * w2)),
           (v1, v2, v3, g)))"
    and y1lt: "\<bar>y1\<bar> < 1" by blast
  define sg where "sg = copysign 1 y1"
  have sg2: "sg * sg = 1" using copysign_1_cases[of y1] by (auto simp: sg_def)
  have sgy: "sg * y1 = \<bar>y1\<bar>" by (simp add: sg_def copysign_1_mult)
  from red R have v: "v1 = (y1 - sg) / m" "v2 = y2 / m" "v3 = y3 / m"
    and g: "g = (m * m) / (1 - \<bar>y1\<bar>)"
    by (simp_all add: Let_def sg_def)
  have p: "1 - \<bar>y1\<bar> \<noteq> 0" using y1lt by simp
  have mn: "m \<noteq> 0" using m by simp
  have "(y1 - sg) * (y1 - sg) + y2 * y2 + y3 * y3 = 2 * (1 - \<bar>y1\<bar>)"
    using unit sg2 sgy by (simp add: algebra_simps)
  then have "v1 * v1 + v2 * v2 + v3 * v3 = 2 * (1 - \<bar>y1\<bar>) / (m * m)"
    unfolding v using mn by (simp add: add_divide_distrib[symmetric])
  then have "g * (v1 * v1 + v2 * v2 + v3 * v3) = 2"
    unfolding g using p mn by (simp add: field_simps)
  then show ?thesis by (intro reflection_involution) simp
qed

lemma conjugate_invariants:
  assumes inv: "mat_mul Q Q = mat_one"
  shows "trace3 (mat_mul Q (mat_mul A Q)) = trace3 A"
    and "trace3 (mat_mul (mat_mul Q (mat_mul A Q)) (mat_mul Q (mat_mul A Q))) = trace3 (mat_mul A A)"
proof -
  have "trace3 (mat_mul Q (mat_mul A Q)) = trace3 (mat_mul (mat_mul A Q) Q)"
    by (rule trace3_mat_mul_commute)
  also have "\<dots> = trace3 A" by (simp add: mat_mul_assoc inv)
  finally show "trace3 (mat_mul Q (mat_mul A Q)) = trace3 A" .
  have "mat_mul (mat_mul Q (mat_mul A Q)) (mat_mul Q (mat_mul A Q)) =
        mat_mul Q (mat_mul A (mat_mul (mat_mul Q Q) (mat_mul A Q)))"
    by (simp add: mat_mul_assoc)
  also have "\<dots> = mat_mul Q (mat_mul (mat_mul A A) Q)"
    by (simp add: inv mat_mul_assoc)
  finally have "trace3 (mat_mul (mat_mul Q (mat_mul A Q)) (mat_mul Q (mat_mul A Q))) =
      trace3 (mat_mul Q (mat_mul (mat_mul A A) Q))" by simp
  also have "\<dots> = trace3 (mat_mul (mat_mul (mat_mul A A) Q) Q)"
    by (rule trace3_mat_mul_commute)
  also have "\<dots> = trace3 (mat_mul A A)" by (simp add: mat_mul_assoc inv)
  finally show "trace3 (mat_mul (mat_mul Q (mat_mul A Q)) (mat_mul Q (mat_mul A Q))) =
      trace3 (mat_mul A A)" .
qed

lemma reflect_invariants:
  assumes unit: "y1 * y1 + y2 * y2 + y3 * y3 = 1"
    and eig: "mat_vec (sym_matrix d1 d2 d3 d12 d13 d23) (y1, y2, y3) =
               (lam * y1, lam * y2, lam * y3)"
    and red: "Reduce3S_reflect d1 d2 d3 d12 d13 d23 y1 y2 y3 = ((b1, b2, b3, b23), (v1, v2, v3, g))"
  shows "b1 = lam"
    and "lam + b2 + b3 = d1 + d2 + d3"
    and "lam * lam + b2 * b2 + b3 * b3 + 2 * (b23 * b23) =
         d1 * d1 + d2 * d2 + d3 * d3 + 2 * (d12 * d12 + d13 * d13 + d23 * d23)"
    and "psd3 (sym_matrix d1 d2 d3 d12 d13 d23) \<Longrightarrow>
         0 \<le> lam \<and> 0 \<le> b2 \<and> 0 \<le> b3 \<and> b23 * b23 \<le> b2 * b3"
proof -
  let ?Q = "reflection g (v1, v2, v3)"
  let ?A = "sym_matrix d1 d2 d3 d12 d13 d23"
  from reflect_deflates[OF unit eig red]
  have A': "mat_mul ?Q (mat_mul ?A ?Q) = ((lam, 0, 0), (0, b2, b23), (0, b23, b3))"
    and b1: "b1 = lam" by simp_all
  have inv: "mat_mul ?Q ?Q = mat_one" by (rule Reduce3S_reflect_involution[OF unit red])
  show "b1 = lam" by (rule b1)
  from conjugate_invariants(1)[OF inv, of ?A]
  show "lam + b2 + b3 = d1 + d2 + d3"
    unfolding A' by (simp add: trace3_def sym_matrix_def)
  from conjugate_invariants(2)[OF inv, of ?A]
  show "lam * lam + b2 * b2 + b3 * b3 + 2 * (b23 * b23) =
         d1 * d1 + d2 * d2 + d3 * d3 + 2 * (d12 * d12 + d13 * d13 + d23 * d23)"
    unfolding A' by (simp add: trace3_def sym_matrix_def mat_mul_def algebra_simps)
  show "0 \<le> lam \<and> 0 \<le> b2 \<and> 0 \<le> b3 \<and> b23 * b23 \<le> b2 * b3" if "psd3 ?A"
    using psd3_block[of lam b2 b23 b3] psd3_conjugate[OF that, of g "(v1, v2, v3)"]
    unfolding A' by simp
qed

lemma psd3_sym_iff:
  "psd3 (sym_matrix d1 d2 d3 d12 d13 d23) \<longleftrightarrow>
   (\<forall>x1 x2 x3. 0 \<le> d1 * (x1 * x1) + d2 * (x2 * x2) + d3 * (x3 * x3)
      + 2 * d12 * (x1 * x2) + 2 * d13 * (x1 * x3) + 2 * d23 * (x2 * x3))"
proof -
  have e: "dot3 (x1, x2, x3) (mat_vec (sym_matrix d1 d2 d3 d12 d13 d23) (x1, x2, x3)) =
      d1 * (x1 * x1) + d2 * (x2 * x2) + d3 * (x3 * x3)
      + 2 * d12 * (x1 * x2) + 2 * d13 * (x1 * x3) + 2 * d23 * (x2 * x3)" for x1 x2 x3
    by (simp add: dot3_def mat_vec_def sym_matrix_def algebra_simps)
  show ?thesis unfolding psd3_def by (simp add: e)
qed

lemma psd3_swap12:
  assumes "psd3 (sym_matrix d1 d2 d3 d12 d13 d23)"
  shows "psd3 (sym_matrix d2 d1 d3 d12 d23 d13)"
  unfolding psd3_sym_iff
proof (intro allI)
  fix x1 x2 x3
  from assms[unfolded psd3_sym_iff, rule_format, of x2 x1 x3]
  show "0 \<le> d2 * (x1 * x1) + d1 * (x2 * x2) + d3 * (x3 * x3)
      + 2 * d12 * (x1 * x2) + 2 * d23 * (x1 * x3) + 2 * d13 * (x2 * x3)"
    by (simp add: algebra_simps)
qed

lemma psd3_swap13:
  assumes "psd3 (sym_matrix d1 d2 d3 d12 d13 d23)"
  shows "psd3 (sym_matrix d3 d2 d1 d23 d13 d12)"
  unfolding psd3_sym_iff
proof (intro allI)
  fix x1 x2 x3
  from assms[unfolded psd3_sym_iff, rule_format, of x3 x2 x1]
  show "0 \<le> d3 * (x1 * x1) + d2 * (x2 * x2) + d1 * (x3 * x3)
      + 2 * d23 * (x1 * x2) + 2 * d13 * (x1 * x3) + 2 * d12 * (x2 * x3)"
    by (simp add: algebra_simps)
qed

lemma Reduce3S_invariants:
  assumes unit: "z1 * z1 + z2 * z2 + z3 * z3 = 1"
    and eig: "mat_vec (sym_matrix d1 d2 d3 d12 d13 d23) (z1, z2, z3) =
               (lam * z1, lam * z2, lam * z3)"
    and red: "red = Reduce3S mode d1 d2 d3 d12 d13 d23 z1 z2 z3"
  shows "r_d1 red = lam"
    and "lam + r_d2 red + r_d3 red = d1 + d2 + d3"
    and "lam * lam + r_d2 red * r_d2 red + r_d3 red * r_d3 red + 2 * (r_d23 red * r_d23 red) =
         d1 * d1 + d2 * d2 + d3 * d3 + 2 * (d12 * d12 + d13 * d13 + d23 * d23)"
    and "psd3 (sym_matrix d1 d2 d3 d12 d13 d23) \<Longrightarrow>
         0 \<le> lam \<and> 0 \<le> r_d2 red \<and> 0 \<le> r_d3 red \<and> r_d23 red * r_d23 red \<le> r_d2 red * r_d3 red"
proof -
  define k where "k = Reduce3S_k mode z1 z2 z3"
  have kr: "k = 1 \<or> k = 2 \<or> k = 3" using Reduce3S_k_range[of mode z1 z2 z3] by (simp add: k_def)
  have eqs: "d1 * z1 + d12 * z2 + d13 * z3 = lam * z1"
    "d12 * z1 + d2 * z2 + d23 * z3 = lam * z2"
    "d13 * z1 + d23 * z2 + d3 * z3 = lam * z3"
    using eig by (simp_all add: mat_vec_def sym_matrix_def)
  have "r_d1 red = lam \<and> lam + r_d2 red + r_d3 red = d1 + d2 + d3 \<and>
     lam * lam + r_d2 red * r_d2 red + r_d3 red * r_d3 red + 2 * (r_d23 red * r_d23 red) =
         d1 * d1 + d2 * d2 + d3 * d3 + 2 * (d12 * d12 + d13 * d13 + d23 * d23) \<and>
     (psd3 (sym_matrix d1 d2 d3 d12 d13 d23) \<longrightarrow>
         0 \<le> lam \<and> 0 \<le> r_d2 red \<and> 0 \<le> r_d3 red \<and> r_d23 red * r_d23 red \<le> r_d2 red * r_d3 red)"
    using kr
  proof (elim disjE)
    assume k1: "k = 1"
    obtain b1 b2 b3 b23 v1 v2 v3 g where
      R: "Reduce3S_reflect d1 d2 d3 d12 d13 d23 z1 z2 z3 = ((b1, b2, b3, b23), (v1, v2, v3, g))"
      by (metis prod_cases4)
    have f: "r_d1 red = b1" "r_d2 red = b2" "r_d3 red = b3" "r_d23 red = b23"
      using R by (simp_all add: red Reduce3S_def Let_def k_def[symmetric] k1)
    show ?thesis
      unfolding f using reflect_invariants[OF unit eig R] by simp
  next
    assume k2: "k = 2"
    obtain b1 b2 b3 b23 v1 v2 v3 g where
      R: "Reduce3S_reflect d2 d1 d3 d12 d23 d13 z2 z1 z3 = ((b1, b2, b3, b23), (v1, v2, v3, g))"
      by (metis prod_cases4)
    have f: "r_d1 red = b1" "r_d2 red = b2" "r_d3 red = b3" "r_d23 red = b23"
      using R by (simp_all add: red Reduce3S_def Let_def k_def[symmetric] k2)
    have unit': "z2 * z2 + z1 * z1 + z3 * z3 = 1" using unit by simp
    have eig': "mat_vec (sym_matrix d2 d1 d3 d12 d23 d13) (z2, z1, z3) = (lam * z2, lam * z1, lam * z3)"
      using eqs by (simp add: mat_vec_def sym_matrix_def algebra_simps)
    show ?thesis
      unfolding f using reflect_invariants[OF unit' eig' R] psd3_swap12[of d1 d2 d3 d12 d13 d23]
      by (simp add: algebra_simps)
  next
    assume k3: "k = 3"
    obtain b1 b2 b3 b23 v1 v2 v3 g where
      R: "Reduce3S_reflect d3 d2 d1 d23 d13 d12 z3 z2 z1 = ((b1, b2, b3, b23), (v1, v2, v3, g))"
      by (metis prod_cases4)
    have f: "r_d1 red = b1" "r_d2 red = b2" "r_d3 red = b3" "r_d23 red = b23"
      using R by (simp_all add: red Reduce3S_def Let_def k_def[symmetric] k3)
    have unit': "z3 * z3 + z2 * z2 + z1 * z1 = 1" using unit by simp
    have eig': "mat_vec (sym_matrix d3 d2 d1 d23 d13 d12) (z3, z2, z1) = (lam * z3, lam * z2, lam * z1)"
      using eqs by (simp add: mat_vec_def sym_matrix_def algebra_simps)
    show ?thesis
      unfolding f using reflect_invariants[OF unit' eig' R] psd3_swap13[of d1 d2 d3 d12 d13 d23]
      by (simp add: algebra_simps)
  qed
  then show "r_d1 red = lam"
    and "lam + r_d2 red + r_d3 red = d1 + d2 + d3"
    and "lam * lam + r_d2 red * r_d2 red + r_d3 red * r_d3 red + 2 * (r_d23 red * r_d23 red) =
         d1 * d1 + d2 * d2 + d3 * d3 + 2 * (d12 * d12 + d13 * d13 + d23 * d23)"
    and "psd3 (sym_matrix d1 d2 d3 d12 d13 d23) \<Longrightarrow>
         0 \<le> lam \<and> 0 \<le> r_d2 red \<and> 0 \<le> r_d3 red \<and> r_d23 red * r_d23 red \<le> r_d2 red * r_d3 red"
    by blast+
qed

subsubsection \<open>The 2x2 eigenvalues of a positive semi-definite block\<close>

text \<open>The two values of \<^verbatim>\<open>Eigenvalues2S\<close> add up to the trace. Below the threshold
  \<open>sqrt(1/epsilon)\<close> their product is the determinant; above it the correction \<open>t\<close> is
  at most half the gap of the diagonal.\<close>

lemma Eigenvalues2S_sum: "fst (Eigenvalues2S d12 d1 d2) + snd (Eigenvalues2S d12 d1 d2) = d1 + d2"
  by (simp add: Eigenvalues2S_def Let_def)

lemma Eigenvalues2S_diagonal: "Eigenvalues2S 0 d1 d2 = (d1, d2)"
  by (simp add: Eigenvalues2S_def)

lemma rotation_tangent:
  fixes zeta sg :: real
  assumes sg: "sg * sg = 1" "zeta * sg = \<bar>zeta\<bar>"
  defines "a \<equiv> \<bar>zeta\<bar> + sqrt (1 + zeta * zeta)"
  defines "tau \<equiv> sg / a"
  shows "tau * tau + 2 * zeta * tau = 1"
proof -
  define q where "q = sqrt (1 + zeta * zeta)"
  have q: "q * q = 1 + zeta * zeta"
    unfolding q_def by (metis add_nonneg_nonneg real_sqrt_mult_self abs_of_nonneg zero_le_one zero_le_square)
  have qpos: "0 < q" unfolding q_def
    by (metis add_pos_nonneg real_sqrt_gt_zero zero_less_one zero_le_square)
  have apos: "0 < a" unfolding a_def q_def[symmetric] using qpos by linarith
  have aa: "a * a = 1 + 2 * \<bar>zeta\<bar> * a"
  proof -
    have "a * a = \<bar>zeta\<bar> * \<bar>zeta\<bar> + 2 * \<bar>zeta\<bar> * q + q * q"
      unfolding a_def q_def[symmetric] by (simp add: algebra_simps)
    also have "\<dots> = 1 + 2 * (zeta * zeta) + 2 * \<bar>zeta\<bar> * q" unfolding q by simp
    also have "\<dots> = 1 + 2 * \<bar>zeta\<bar> * (\<bar>zeta\<bar> + q)" by (simp add: algebra_simps)
    finally show ?thesis unfolding a_def q_def[symmetric] .
  qed
  have "tau * tau + 2 * zeta * tau = (sg * sg + 2 * (zeta * sg) * a) / (a * a)"
    unfolding tau_def using apos by (simp add: field_simps)
  also have "\<dots> = (1 + 2 * \<bar>zeta\<bar> * a) / (a * a)" unfolding sg by simp
  also have "\<dots> = 1" unfolding aa[symmetric] using apos by simp
  finally show ?thesis .
qed

lemma Eigenvalues2S_exact:
  assumes d12: "d12 \<noteq> 0" and z: "fabs ((d2 - d1) / (2 * d12)) < sqrt_1_eps"
    and e: "Eigenvalues2S d12 d1 d2 = (s1, s2)"
  shows "s1 * s2 = d1 * d2 - d12 * d12"
proof -
  define zeta where "zeta = (d2 - d1) / (2 * d12)"
  define a where "a = \<bar>zeta\<bar> + sqrt (1 + zeta * zeta)"
  define sg :: real where "sg = (if signbit_quotient (d2 - d1) (2 * d12) then - 1 else 1)"
  define tau where "tau = sg / a"
  have sb: "signbit_quotient (d2 - d1) (2 * d12) = (zeta < 0 \<or> zeta = 0 \<and> d12 < 0)"
    unfolding zeta_def by (rule signbit_quotient_zeta[OF d12])
  have sg: "sg * sg = 1" "zeta * sg = \<bar>zeta\<bar>" unfolding sg_def sb by auto
  have pos: "0 < fabs zeta + sqrt (1 + zeta * zeta)"
  proof -
    have "0 < sqrt (1 + zeta * zeta)"
      by (metis add_pos_nonneg real_sqrt_gt_zero zero_less_one zero_le_square)
    then show ?thesis by (simp add: fabs_def add_nonneg_pos)
  qed
  have t: "copysign_signbit (1 / (fabs zeta + sqrt (1 + zeta * zeta)))
      (signbit_quotient (d2 - d1) (2 * d12)) = tau"
    unfolding copysign_signbit_inverse[OF pos] tau_def a_def sg_def by (simp add: fabs_def)
  have E: "Eigenvalues2S d12 d1 d2 = (d1 - d12 * tau, d2 + d12 * tau)"
    unfolding Eigenvalues2S_def Let_def zeta_def[symmetric] t using d12 z
    by (simp add: zeta_def)
  have s: "s1 = d1 - d12 * tau" "s2 = d2 + d12 * tau" using e E by simp_all
  have quad: "tau * tau + 2 * zeta * tau = 1"
    unfolding tau_def a_def by (rule rotation_tangent[OF sg])
  have dz: "2 * zeta * d12 = d2 - d1" unfolding zeta_def using d12 by simp
  have "s1 * s2 = d1 * d2 - d12 * tau * (2 * zeta * d12) - d12 * d12 * (tau * tau)"
    unfolding s dz by (simp add: algebra_simps)
  also have "\<dots> = d1 * d2 - d12 * d12 * (tau * tau + 2 * zeta * tau)"
    by (simp add: algebra_simps)
  also have "\<dots> = d1 * d2 - d12 * d12" unfolding quad by simp
  finally show ?thesis .
qed

lemma Eigenvalues2S_approx:
  assumes d12: "d12 \<noteq> 0" and z: "\<not> fabs ((d2 - d1) / (2 * d12)) < sqrt_1_eps"
    and e: "Eigenvalues2S d12 d1 d2 = (s1, s2)"
  shows "\<exists>t. s1 + t = d1 \<and> s2 = d2 + t \<and> 2 * \<bar>t\<bar> \<le> \<bar>d2 - d1\<bar>"
proof -
  define zeta where "zeta = (d2 - d1) / (2 * d12)"
  have zb: "2 ^ 26 \<le> \<bar>zeta\<bar>" using z by (simp add: zeta_def sqrt_1_eps_eq fabs_def)
  have big: "(1::real) \<le> 2 ^ 26" by simp
  have zpos: "0 < \<bar>zeta\<bar>" using zb big by linarith
  define t where "t = d12 * copysign_signbit (0.5 / fabs zeta) (signbit_quotient (d2 - d1) (2 * d12))"
  have E: "Eigenvalues2S d12 d1 d2 = (d1 - t, d2 + t)"
    unfolding Eigenvalues2S_def Let_def zeta_def[symmetric] t_def using d12 z
    by (simp add: zeta_def)
  have s: "s1 = d1 - t" "s2 = d2 + t" using e E by simp_all
  have "\<bar>t\<bar> = \<bar>d12\<bar> * (0.5 / \<bar>zeta\<bar>)"
    unfolding t_def using zpos by (simp add: copysign_signbit_def fabs_def abs_mult)
  also have "\<dots> \<le> \<bar>d12\<bar> * \<bar>zeta\<bar>"
  proof -
    have "1 \<le> \<bar>zeta\<bar>" using zb big by linarith
    then have "1 * 1 \<le> \<bar>zeta\<bar> * \<bar>zeta\<bar>" by (intro mult_mono) simp_all
    then have "0.5 / \<bar>zeta\<bar> \<le> \<bar>zeta\<bar>" using zpos by (simp add: field_simps)
    then show ?thesis by (intro mult_left_mono) simp_all
  qed
  also have "\<dots> = \<bar>d2 - d1\<bar> / 2"
    unfolding zeta_def using d12 by (simp add: abs_mult)
  finally have "2 * \<bar>t\<bar> \<le> \<bar>d2 - d1\<bar>" by simp
  then show ?thesis using s by auto
qed

lemma Eigenvalues2S_psd:
  assumes p: "0 \<le> d1" "0 \<le> d2" "d12 * d12 \<le> d1 * d2"
    and e: "Eigenvalues2S d12 d1 d2 = (s1, s2)"
  shows "s1 + s2 = d1 + d2" and "- (d1 + d2) \<le> 2 * s1" and "- (d1 + d2) \<le> 2 * s2"
proof -
  show sum: "s1 + s2 = d1 + d2" using Eigenvalues2S_sum[of d12 d1 d2] e by simp
  have "- (d1 + d2) \<le> 2 * s1 \<and> - (d1 + d2) \<le> 2 * s2"
  proof (cases "d12 = 0")
    case True
    then have "s1 = d1" "s2 = d2" using e by (simp_all add: Eigenvalues2S_diagonal)
    moreover have "- (d1 + d2) \<le> 2 * d1" using p(1,2) by linarith
    moreover have "- (d1 + d2) \<le> 2 * d2" using p(1,2) by linarith
    ultimately show ?thesis by simp
  next
    case d12: False
    show ?thesis
    proof (cases "fabs ((d2 - d1) / (2 * d12)) < sqrt_1_eps")
      case True
      from Eigenvalues2S_exact[OF d12 True e] p(3) have pr: "0 \<le> s1 * s2" by simp
      have s0: "0 \<le> s1 + s2" using sum p by simp
      have "0 \<le> s1 \<and> 0 \<le> s2"
      proof (rule ccontr)
        assume "\<not> (0 \<le> s1 \<and> 0 \<le> s2)"
        then consider "s1 < 0" | "s2 < 0" by linarith
        then show False
        proof cases
          case 1
          then have "0 < s2" using s0 by linarith
          then have "s1 * s2 < 0" using 1 by (simp add: mult_neg_pos)
          then show False using pr by simp
        next
          case 2
          then have "0 < s1" using s0 by linarith
          then have "s1 * s2 < 0" using 2 by (simp add: mult_pos_neg)
          then show False using pr by simp
        qed
      qed
      then have "- (d1 + d2) \<le> 2 * s1 \<and> - (d1 + d2) \<le> 2 * s2" using p(1,2) by auto
      then show ?thesis by simp
    next
      case False
      from Eigenvalues2S_approx[OF d12 False e]
      obtain t where a: "s1 + t = d1" "s2 = d2 + t" "2 * \<bar>t\<bar> \<le> \<bar>d2 - d1\<bar>" by blast
      have b: "\<bar>d2 - d1\<bar> \<le> d1 + d2" using p(1,2) by linarith
      have "- (d1 + d2) \<le> 2 * s1" using a b p(1,2) by linarith
      moreover have "- (d1 + d2) \<le> 2 * s2" using a b p(1,2) by linarith
      ultimately show ?thesis by simp
    qed
  qed
  then show "- (d1 + d2) \<le> 2 * s1" and "- (d1 + d2) \<le> 2 * s2" by simp_all
qed

subsubsection \<open>The characteristic polynomial\<close>

text \<open>For a trace-free symmetric matrix the determinant of \<open>C - y I\<close> is
  \<open>- (y^3 - 3 Q y + 2 R)\<close>. Every real root satisfies \<open>y^2 \<le> 4 Q\<close>, hence
  \<open>R^2 \<le> Q^3\<close>; a root of the shifted positive semi-definite matrix is non-negative.\<close>

lemma char_polynomial:
  assumes tr: "c1 + c2 + c3 = 0"
  shows "det3 (sym_matrix (c1 - y) (c2 - y) (c3 - y) b12 b13 b23) =
         - (y * y * y - 3 * char_Q c1 c2 c3 b12 b13 b23 * y + 2 * char_R c1 c2 c3 b12 b13 b23)"
proof -
  have c3: "c3 = - c1 - c2" using tr by linarith
  show ?thesis
    unfolding c3 det3_def sym_matrix_def char_Q_def char_R_def
    by (simp add: field_simps)
qed

lemma char_Q_nonneg: "0 \<le> char_Q c1 c2 c3 b12 b13 b23"
  unfolding char_Q_def by simp

lemma char_Q_zero:
  assumes "char_Q c1 c2 c3 b12 b13 b23 = 0"
  shows "c1 = 0 \<and> c2 = 0 \<and> c3 = 0 \<and> b12 = 0 \<and> b13 = 0 \<and> b23 = 0"
proof -
  have s: "b12 * b12 + b12 * b12 + b13 * b13 + b13 * b13 + b23 * b23 + b23 * b23
            + c1 * c1 + c2 * c2 + c3 * c3 = 0"
    using assms unfolding char_Q_def by simp
  have nn: "0 \<le> b12 * b12" "0 \<le> b13 * b13" "0 \<le> b23 * b23" "0 \<le> c1 * c1" "0 \<le> c2 * c2" "0 \<le> c3 * c3"
    by simp_all
  have "b12 * b12 = 0" "b13 * b13 = 0" "b23 * b23 = 0" "c1 * c1 = 0" "c2 * c2 = 0" "c3 * c3 = 0"
    using s nn by linarith+
  then show ?thesis by simp
qed

lemma rank_one_char_Q:
  assumes tr: "c1 + c2 + c3 = 0"
    and unit: "z1 * z1 + z2 * z2 + z3 * z3 = 1"
    and C: "sym_matrix (c1 - y) (c2 - y) (c3 - y) b12 b13 b23 =
      ((sg * z1 * z1, sg * z1 * z2, sg * z1 * z3),
       (sg * z1 * z2, sg * z2 * z2, sg * z2 * z3),
       (sg * z1 * z3, sg * z2 * z3, sg * z3 * z3))"
  shows "char_Q c1 c2 c3 b12 b13 b23 = y * y"
proof -
  from C have e: "c1 = y + sg * z1 * z1" "c2 = y + sg * z2 * z2" "c3 = y + sg * z3 * z3"
    "b12 = sg * z1 * z2" "b13 = sg * z1 * z3" "b23 = sg * z2 * z3"
    by (simp_all add: sym_matrix_def algebra_simps)
  define u where "u = z1 * z1"
  define v where "v = z2 * z2"
  define w where "w = z3 * z3"
  have uvw: "w = 1 - u - v" using unit by (simp add: u_def v_def w_def)
  have "3 * y + sg * (u + v + w) = 0"
    using tr unfolding e u_def v_def w_def by (simp add: algebra_simps)
  then have sg: "sg = - 3 * y" unfolding uvw by simp
  have "6 * char_Q c1 c2 c3 b12 b13 b23 =
      2 * (sg * sg) * (u * v + u * w + v * w) + (y + sg * u) * (y + sg * u)
        + (y + sg * v) * (y + sg * v) + (y + sg * w) * (y + sg * w)"
    unfolding char_Q_def e u_def v_def w_def by (simp add: algebra_simps)
  also have "\<dots> = 6 * (y * y)"
    unfolding sg uvw by (simp add: algebra_simps)
  finally show ?thesis by simp
qed

lemma kernel_block_discriminant:
  assumes tr: "c1 + c2 + c3 = 0"
    and unit: "z1 * z1 + z2 * z2 + z3 * z3 = 1"
    and ker: "mat_vec (sym_matrix (c1 - y) (c2 - y) (c3 - y) b12 b13 b23) (z1, z2, z3) = (0, 0, 0)"
    and red: "red = Reduce3S mode (c1 + aa) (c2 + aa) (c3 + aa) b12 b13 b23 z1 z2 z3"
  shows "r_d1 red = aa + y"
    and "r_d2 red + r_d3 red = 2 * aa - y"
    and "(r_d2 red - r_d3 red) * (r_d2 red - r_d3 red) + 4 * (r_d23 red * r_d23 red) =
         12 * char_Q c1 c2 c3 b12 b13 b23 - 3 * (y * y)"
proof -
  have eig: "mat_vec (sym_matrix (c1 + aa) (c2 + aa) (c3 + aa) b12 b13 b23) (z1, z2, z3) =
      ((aa + y) * z1, (aa + y) * z2, (aa + y) * z3)"
    using ker by (simp add: mat_vec_def sym_matrix_def algebra_simps)
  note I = Reduce3S_invariants(1-3)[OF unit eig red]
  show "r_d1 red = aa + y" by (rule I(1))
  have c3: "c3 = - c1 - c2" using tr by linarith
  have s: "r_d2 red + r_d3 red = 2 * aa - y" using I(2) tr by linarith
  show "r_d2 red + r_d3 red = 2 * aa - y" by (rule s)
  define p where "p = r_d2 red"
  define q where "q = r_d3 red"
  define n where "n = r_d23 red * r_d23 red"
  have F: "p * p + q * q + 2 * n = 6 * char_Q c1 c2 c3 b12 b13 b23 + 3 * (aa * aa) - (aa + y) * (aa + y)"
  proof -
    have "(c1 + aa) * (c1 + aa) + (c2 + aa) * (c2 + aa) + (c3 + aa) * (c3 + aa)
        + 2 * (b12 * b12 + b13 * b13 + b23 * b23) = 6 * char_Q c1 c2 c3 b12 b13 b23 + 3 * (aa * aa)"
      unfolding char_Q_def c3 by (simp add: algebra_simps)
    then show ?thesis using I(3) unfolding p_def q_def n_def by linarith
  qed
  have q: "q = 2 * aa - y - p" using s unfolding p_def q_def by linarith
  have "(p - q) * (p - q) + 4 * n = 2 * (p * p + q * q + 2 * n) - (p + q) * (p + q)"
    by (simp add: algebra_simps)
  also have "\<dots> = 2 * (6 * char_Q c1 c2 c3 b12 b13 b23 + 3 * (aa * aa) - (aa + y) * (aa + y))
      - (2 * aa - y) * (2 * aa - y)"
    unfolding F unfolding q by simp
  also have "\<dots> = 12 * char_Q c1 c2 c3 b12 b13 b23 - 3 * (y * y)"
    by (simp add: algebra_simps)
  finally show "(r_d2 red - r_d3 red) * (r_d2 red - r_d3 red) + 4 * (r_d23 red * r_d23 red) =
         12 * char_Q c1 c2 c3 b12 b13 b23 - 3 * (y * y)"
    unfolding p_def q_def n_def .
qed

lemma cubic_real_root:
  fixes Q R :: real
  shows "\<exists>y. y * y * y - 3 * Q * y + 2 * R = 0"
proof -
  define M where "M = 1 + 3 * \<bar>Q\<bar> + 2 * \<bar>R\<bar>"
  define f where "f = (\<lambda>y. y * y * y - 3 * Q * y + 2 * R)"
  have M1: "1 \<le> M" unfolding M_def by simp
  then have M0: "0 \<le> M" by linarith
  have a: "M * 1 \<le> M * M" using M1 M0 by (intro mult_left_mono) simp_all
  have b: "(M * M) * 1 \<le> (M * M) * M" using M1 M0 by (intro mult_left_mono) simp_all
  have c: "M * M = M + 3 * (\<bar>Q\<bar> * M) + 2 * (\<bar>R\<bar> * M)"
    unfolding M_def by (simp add: algebra_simps)
  have d1: "Q * M \<le> \<bar>Q\<bar> * M"
    using M0 by (intro mult_right_mono) simp_all
  have "(- Q) * M \<le> \<bar>Q\<bar> * M"
    using M0 by (intro mult_right_mono) simp_all
  then have d2: "- (Q * M) \<le> \<bar>Q\<bar> * M" by simp
  note d = d1 d2
  have e: "\<bar>R\<bar> * 1 \<le> \<bar>R\<bar> * M" using M1 by (intro mult_left_mono) simp_all
  have r: "R \<le> \<bar>R\<bar>" "- R \<le> \<bar>R\<bar>" by simp_all
  have hi: "0 \<le> f M"
  proof -
    have "f M = (M * M) * M - 3 * (Q * M) + 2 * R" unfolding f_def by simp
    then show ?thesis using a b c d e r M0 by linarith
  qed
  have lo: "f (- M) \<le> 0"
  proof -
    have "f (- M) = - ((M * M) * M) + 3 * (Q * M) + 2 * R" unfolding f_def by simp
    then show ?thesis using a b c d e r M0 by linarith
  qed
  have cont: "continuous_on {- M..M} f"
    unfolding f_def by (intro continuous_intros)
  have "\<exists>x\<ge>- M. x \<le> M \<and> f x = 0"
    by (rule IVT'[OF lo hi _ cont]) (use M0 in linarith)
  then show ?thesis unfolding f_def by blast
qed

lemma root_bound_imp_discriminant:
  fixes Q R y :: real
  assumes root: "y * y * y - 3 * Q * y + 2 * R = 0" and bound: "y * y \<le> 4 * Q"
  shows "R * R \<le> Q * Q * Q"
proof -
  have R: "2 * R = - (y * y * y - 3 * Q * y)" using root by linarith
  have "4 * (Q * Q * Q) - (2 * R) * (2 * R) = (4 * Q - y * y) * ((Q - y * y) * (Q - y * y))"
    unfolding R by (simp add: algebra_simps)
  moreover have "0 \<le> (4 * Q - y * y) * ((Q - y * y) * (Q - y * y))"
  proof (rule mult_nonneg_nonneg)
    show "0 \<le> 4 * Q - y * y" using bound by simp
    show "0 \<le> (Q - y * y) * (Q - y * y)" by simp
  qed
  ultimately have "(2 * R) * (2 * R) \<le> 4 * (Q * Q * Q)" by linarith
  then show ?thesis by simp
qed

lemma eigenvalue_bound:
  assumes tr: "c1 + c2 + c3 = 0"
    and root: "y * y * y - 3 * char_Q c1 c2 c3 b12 b13 b23 * y + 2 * char_R c1 c2 c3 b12 b13 b23 = 0"
  shows "y * y \<le> 4 * char_Q c1 c2 c3 b12 b13 b23"
proof -
  define Q where "Q = char_Q c1 c2 c3 b12 b13 b23"
  have det: "det3 (sym_matrix (c1 - y) (c2 - y) (c3 - y) b12 b13 b23) = 0"
    unfolding char_polynomial[OF tr] using root by simp
  obtain k z1 z2 z3 where K: "KernelVector3S 1 b12 b13 b23 (c1 - y) (c2 - y) (c3 - y) = (k, z1, z2, z3)"
    by (metis prod_cases4)
  from KernelVector3S_singular[OF det, of 1]
  consider (zero) "c1 - y = 0" "c2 - y = 0" "c3 - y = 0" "b12 = 0" "b13 = 0" "b23 = 0"
    | (ker) "kernel_result (sym_matrix (c1 - y) (c2 - y) (c3 - y) b12 b13 b23) (k, z1, z2, z3)"
    unfolding K by blast
  then show ?thesis
  proof cases
    case zero
    then have "3 * y = 0" using tr by linarith
    then have "y = 0" by simp
    then show ?thesis using char_Q_nonneg[of c1 c2 c3 b12 b13 b23] by simp
  next
    case ker
    then have unit: "z1 * z1 + z2 * z2 + z3 * z3 = 1"
      and alt: "(k = 1 \<and> mat_vec (sym_matrix (c1 - y) (c2 - y) (c3 - y) b12 b13 b23) (z1, z2, z3) = (0, 0, 0)) \<or>
         (k = 2 \<and>
          (\<exists>sg. sym_matrix (c1 - y) (c2 - y) (c3 - y) b12 b13 b23 =
                     ((sg * z1 * z1, sg * z1 * z2, sg * z1 * z3),
                      (sg * z1 * z2, sg * z2 * z2, sg * z2 * z3),
                      (sg * z1 * z3, sg * z2 * z3, sg * z3 * z3))))"
      unfolding kernel_result_def by simp_all
    from alt show ?thesis
    proof
      assume "k = 1 \<and> mat_vec (sym_matrix (c1 - y) (c2 - y) (c3 - y) b12 b13 b23) (z1, z2, z3) = (0, 0, 0)"
      then have kz: "mat_vec (sym_matrix (c1 - y) (c2 - y) (c3 - y) b12 b13 b23) (z1, z2, z3) = (0, 0, 0)"
        by simp
      define red where "red = Reduce3S 1 (c1 + 0) (c2 + 0) (c3 + 0) b12 b13 b23 z1 z2 z3"
      from kernel_block_discriminant(3)[OF tr unit kz red_def]
      have "(r_d2 red - r_d3 red) * (r_d2 red - r_d3 red) + 4 * (r_d23 red * r_d23 red) =
         12 * Q - 3 * (y * y)" unfolding Q_def .
      moreover have "0 \<le> (r_d2 red - r_d3 red) * (r_d2 red - r_d3 red) + 4 * (r_d23 red * r_d23 red)"
        by simp
      ultimately show ?thesis unfolding Q_def by linarith
    next
      assume "k = 2 \<and>
          (\<exists>sg. sym_matrix (c1 - y) (c2 - y) (c3 - y) b12 b13 b23 =
                     ((sg * z1 * z1, sg * z1 * z2, sg * z1 * z3),
                      (sg * z1 * z2, sg * z2 * z2, sg * z2 * z3),
                      (sg * z1 * z3, sg * z2 * z3, sg * z3 * z3)))"
      then obtain sg where "sym_matrix (c1 - y) (c2 - y) (c3 - y) b12 b13 b23 =
                     ((sg * z1 * z1, sg * z1 * z2, sg * z1 * z3),
                      (sg * z1 * z2, sg * z2 * z2, sg * z2 * z3),
                      (sg * z1 * z3, sg * z2 * z3, sg * z3 * z3))" by blast
      from rank_one_char_Q[OF tr unit this]
      have "char_Q c1 c2 c3 b12 b13 b23 = y * y" .
      moreover have "0 \<le> y * y" by simp
      ultimately show ?thesis by linarith
    qed
  qed
qed

lemma discriminant_nonneg:
  assumes tr: "c1 + c2 + c3 = 0"
  shows "char_R c1 c2 c3 b12 b13 b23 * char_R c1 c2 c3 b12 b13 b23 \<le>
         char_Q c1 c2 c3 b12 b13 b23 * char_Q c1 c2 c3 b12 b13 b23 * char_Q c1 c2 c3 b12 b13 b23"
proof -
  obtain y where root:
    "y * y * y - 3 * char_Q c1 c2 c3 b12 b13 b23 * y + 2 * char_R c1 c2 c3 b12 b13 b23 = 0"
    using cubic_real_root by blast
  show ?thesis
    by (rule root_bound_imp_discriminant[OF root eigenvalue_bound[OF tr root]])
qed

lemma eigenvalue_nonneg:
  assumes psd: "psd3 (sym_matrix b11 b22 b33 b12 b13 b23)"
    and det: "det3 (sym_matrix (b11 - lam) (b22 - lam) (b33 - lam) b12 b13 b23) = 0"
  shows "0 \<le> lam"
proof -
  note q = psd[unfolded psd3_sym_iff, rule_format]
  obtain k z1 z2 z3 where K: "KernelVector3S 1 b12 b13 b23 (b11 - lam) (b22 - lam) (b33 - lam) = (k, z1, z2, z3)"
    by (metis prod_cases4)
  from KernelVector3S_singular[OF det, of 1]
  consider (zero) "b11 - lam = 0"
    | (ker) "kernel_result (sym_matrix (b11 - lam) (b22 - lam) (b33 - lam) b12 b13 b23) (k, z1, z2, z3)"
    unfolding K by blast
  then show ?thesis
  proof cases
    case zero
    then show ?thesis using q[of 1 0 0] by simp
  next
    case ker
    then have unit: "z1 * z1 + z2 * z2 + z3 * z3 = 1"
      and alt: "(k = 1 \<and> mat_vec (sym_matrix (b11 - lam) (b22 - lam) (b33 - lam) b12 b13 b23) (z1, z2, z3) = (0, 0, 0)) \<or>
         (k = 2 \<and>
          (\<exists>sg. sym_matrix (b11 - lam) (b22 - lam) (b33 - lam) b12 b13 b23 =
                     ((sg * z1 * z1, sg * z1 * z2, sg * z1 * z3),
                      (sg * z1 * z2, sg * z2 * z2, sg * z2 * z3),
                      (sg * z1 * z3, sg * z2 * z3, sg * z3 * z3))))"
      unfolding kernel_result_def by simp_all
    from alt show ?thesis
    proof
      assume "k = 1 \<and> mat_vec (sym_matrix (b11 - lam) (b22 - lam) (b33 - lam) b12 b13 b23) (z1, z2, z3) = (0, 0, 0)"
      then have e: "b11 * z1 + b12 * z2 + b13 * z3 = lam * z1"
        "b12 * z1 + b22 * z2 + b23 * z3 = lam * z2"
        "b13 * z1 + b23 * z2 + b33 * z3 = lam * z3"
        by (simp_all add: mat_vec_def sym_matrix_def algebra_simps)
      have "b11 * (z1 * z1) + b22 * (z2 * z2) + b33 * (z3 * z3)
          + 2 * b12 * (z1 * z2) + 2 * b13 * (z1 * z3) + 2 * b23 * (z2 * z3) =
          z1 * (b11 * z1 + b12 * z2 + b13 * z3) + z2 * (b12 * z1 + b22 * z2 + b23 * z3)
          + z3 * (b13 * z1 + b23 * z2 + b33 * z3)"
        by (simp add: algebra_simps)
      also have "\<dots> = lam * (z1 * z1 + z2 * z2 + z3 * z3)"
        unfolding e by (simp add: algebra_simps)
      also have "\<dots> = lam" unfolding unit by simp
      finally show ?thesis using q[of z1 z2 z3] by simp
    next
      assume "k = 2 \<and>
          (\<exists>sg. sym_matrix (b11 - lam) (b22 - lam) (b33 - lam) b12 b13 b23 =
                     ((sg * z1 * z1, sg * z1 * z2, sg * z1 * z3),
                      (sg * z1 * z2, sg * z2 * z2, sg * z2 * z3),
                      (sg * z1 * z3, sg * z2 * z3, sg * z3 * z3)))"
      then obtain sg where "sym_matrix (b11 - lam) (b22 - lam) (b33 - lam) b12 b13 b23 =
                     ((sg * z1 * z1, sg * z1 * z2, sg * z1 * z3),
                      (sg * z1 * z2, sg * z2 * z2, sg * z2 * z3),
                      (sg * z1 * z3, sg * z2 * z3, sg * z3 * z3))" by blast
      then have e: "b11 = lam + sg * z1 * z1" "b22 = lam + sg * z2 * z2" "b33 = lam + sg * z3 * z3"
        "b12 = sg * z1 * z2" "b13 = sg * z1 * z3" "b23 = sg * z2 * z3"
        by (simp_all add: sym_matrix_def algebra_simps)
      have form: "b11 * (x1 * x1) + b22 * (x2 * x2) + b33 * (x3 * x3)
          + 2 * b12 * (x1 * x2) + 2 * b13 * (x1 * x3) + 2 * b23 * (x2 * x3) =
          lam * (x1 * x1 + x2 * x2 + x3 * x3)
          + sg * ((z1 * x1 + z2 * x2 + z3 * x3) * (z1 * x1 + z2 * x2 + z3 * x3))" for x1 x2 x3
        unfolding e by (simp add: algebra_simps)
      show ?thesis
      proof (cases "z1 = 0 \<and> z2 = 0")
        case True
        have "0 \<le> lam * (1 * 1 + 0 * 0 + 0 * 0) + sg * ((z1 * 1 + z2 * 0 + z3 * 0) * (z1 * 1 + z2 * 0 + z3 * 0))"
          using q[of 1 0 0] unfolding form[of 1 0 0] .
        then show ?thesis using True by simp
      next
        case False
        then have p: "0 < z2 * z2 + z1 * z1"
          by (metis add_nonneg_pos add_pos_nonneg square_pos zero_le_square)
        have "0 \<le> lam * (z2 * z2 + (- z1) * (- z1) + 0 * 0)
            + sg * ((z1 * z2 + z2 * (- z1) + z3 * 0) * (z1 * z2 + z2 * (- z1) + z3 * 0))"
          using q[of z2 "- z1" 0] unfolding form[of z2 "- z1" 0] .
        then have "0 \<le> lam * (z2 * z2 + z1 * z1)" by simp
        then show ?thesis using p by (simp add: zero_le_mult_iff)
      qed
    qed
  qed
qed

subsubsection \<open>The deflation branch of the singular values\<close>

text \<open>When \<open>r\<close> is a simple root, \<^verbatim>\<open>KernelVector3S\<close> returns 1 and the three values
  selected after the deflation are \<open>aa + r\<close> and the two values of \<^verbatim>\<open>Eigenvalues2S\<close>.\<close>

lemma CalcSingularvalue_3_reduce_structure:
  assumes psd: "psd3 (sym_matrix (c1 + aa) (c2 + aa) (c3 + aa) b12 b13 b23)"
    and tr: "c1 + c2 + c3 = 0"
    and Qpos: "0 < char_Q c1 c2 c3 b12 b13 b23"
    and root: "r * r * r - 3 * char_Q c1 c2 c3 b12 b13 b23 * r + 2 * char_R c1 c2 c3 b12 b13 b23 = 0"
    and simple: "r * r \<noteq> char_Q c1 c2 c3 b12 b13 b23"
  shows "\<exists>s1 s2.
     (\<forall>i. CalcSingularvalue_3_reduce i aa r c1 c2 c3 (c1 + aa) (c2 + aa) (c3 + aa) b12 b13 b23 =
        (if i = 2 then min (min (aa + r) s1) s2
         else if i = 1 then
           (if aa + r \<le> s1 then (if s1 \<le> s2 then s1 else max (aa + r) s2)
            else (if aa + r \<le> s2 then aa + r else max s2 s1))
         else max (max (aa + r) s1) s2)) \<and>
     0 \<le> aa + r \<and> s1 + s2 = 2 * aa - r \<and> 0 \<le> 2 * aa - r \<and>
     r - 2 * aa \<le> 2 * s1 \<and> r - 2 * aa \<le> 2 * s2 \<and>
     (4 * char_Q c1 c2 c3 b12 b13 b23 = r * r \<longrightarrow> s1 = s2)"
proof -
  define Q where "Q = char_Q c1 c2 c3 b12 b13 b23"
  have det: "det3 (sym_matrix (c1 - r) (c2 - r) (c3 - r) b12 b13 b23) = 0"
    unfolding char_polynomial[OF tr] using root by simp
  obtain k z1 z2 z3 where K: "KernelVector3S 1 b12 b13 b23 (c1 - r) (c2 - r) (c3 - r) = (k, z1, z2, z3)"
    by (metis prod_cases4)
  have nz: "\<not> (c1 - r = 0 \<and> c2 - r = 0 \<and> c3 - r = 0 \<and> b12 = 0 \<and> b13 = 0 \<and> b23 = 0)"
  proof
    assume z: "c1 - r = 0 \<and> c2 - r = 0 \<and> c3 - r = 0 \<and> b12 = 0 \<and> b13 = 0 \<and> b23 = 0"
    then have "3 * r = 0" using tr by linarith
    then have "r = 0" by simp
    with z have "c1 = 0" "c2 = 0" "c3 = 0" "b12 = 0" "b13 = 0" "b23 = 0" by simp_all
    then have "char_Q c1 c2 c3 b12 b13 b23 = 0" by (simp add: char_Q_def)
    then show False using Qpos by simp
  qed
  from KernelVector3S_singular[OF det, of 1] nz
  have ker: "kernel_result (sym_matrix (c1 - r) (c2 - r) (c3 - r) b12 b13 b23) (k, z1, z2, z3)"
    unfolding K by blast
  then have unit: "z1 * z1 + z2 * z2 + z3 * z3 = 1"
    and alt: "(k = 1 \<and> mat_vec (sym_matrix (c1 - r) (c2 - r) (c3 - r) b12 b13 b23) (z1, z2, z3) = (0, 0, 0)) \<or>
       (k = 2 \<and>
        (\<exists>sg. sym_matrix (c1 - r) (c2 - r) (c3 - r) b12 b13 b23 =
                   ((sg * z1 * z1, sg * z1 * z2, sg * z1 * z3),
                    (sg * z1 * z2, sg * z2 * z2, sg * z2 * z3),
                    (sg * z1 * z3, sg * z2 * z3, sg * z3 * z3))))"
    unfolding kernel_result_def by simp_all
  have k2: "\<not> (k = 2 \<and>
        (\<exists>sg. sym_matrix (c1 - r) (c2 - r) (c3 - r) b12 b13 b23 =
                   ((sg * z1 * z1, sg * z1 * z2, sg * z1 * z3),
                    (sg * z1 * z2, sg * z2 * z2, sg * z2 * z3),
                    (sg * z1 * z3, sg * z2 * z3, sg * z3 * z3))))"
    using rank_one_char_Q[OF tr unit] simple by metis
  from alt k2 have k1: "k = 1"
    and kz: "mat_vec (sym_matrix (c1 - r) (c2 - r) (c3 - r) b12 b13 b23) (z1, z2, z3) = (0, 0, 0)"
    by blast+
  define red where "red = Reduce3S 1 (c1 + aa) (c2 + aa) (c3 + aa) b12 b13 b23 z1 z2 z3"
  note D = kernel_block_discriminant[OF tr unit kz red_def]
  have eig: "mat_vec (sym_matrix (c1 + aa) (c2 + aa) (c3 + aa) b12 b13 b23) (z1, z2, z3) =
      ((aa + r) * z1, (aa + r) * z2, (aa + r) * z3)"
    using kz by (simp add: mat_vec_def sym_matrix_def algebra_simps)
  from Reduce3S_invariants(4)[OF unit eig red_def psd]
  have P: "0 \<le> aa + r" "0 \<le> r_d2 red" "0 \<le> r_d3 red" "r_d23 red * r_d23 red \<le> r_d2 red * r_d3 red"
    by simp_all
  obtain s1 s2 where E: "Eigenvalues2S (r_d23 red) (r_d2 red) (r_d3 red) = (s1, s2)"
    by (metis surj_pair)
  note S = Eigenvalues2S_psd[OF P(2) P(3) P(4) E]
  have val: "CalcSingularvalue_3_reduce i aa r c1 c2 c3 (c1 + aa) (c2 + aa) (c3 + aa) b12 b13 b23 =
        (if i = 2 then min (min (aa + r) s1) s2
         else if i = 1 then
           (if aa + r \<le> s1 then (if s1 \<le> s2 then s1 else max (aa + r) s2)
            else (if aa + r \<le> s2 then aa + r else max s2 s1))
         else max (max (aa + r) s1) s2)" for i
    unfolding CalcSingularvalue_3_reduce_def Let_def K prod.case k1 red_def[symmetric] E D(1)
    by simp
  have sum: "s1 + s2 = 2 * aa - r" using S(1) D(2) by linarith
  have T: "0 \<le> 2 * aa - r" using D(2) P(2) P(3) by linarith
  have lo: "r - 2 * aa \<le> 2 * s1" "r - 2 * aa \<le> 2 * s2" using S(2,3) D(2) by linarith+
  have dbl: "s1 = s2" if "4 * char_Q c1 c2 c3 b12 b13 b23 = r * r"
  proof -
    have z: "(r_d2 red - r_d3 red) * (r_d2 red - r_d3 red) + 4 * (r_d23 red * r_d23 red) = 0"
      using D(3) that by linarith
    have n: "0 \<le> (r_d2 red - r_d3 red) * (r_d2 red - r_d3 red)" "0 \<le> r_d23 red * r_d23 red"
      by simp_all
    have "(r_d2 red - r_d3 red) * (r_d2 red - r_d3 red) = 0" "r_d23 red * r_d23 red = 0"
      using z n by linarith+
    then have "r_d2 red = r_d3 red" "r_d23 red = 0" by simp_all
    then show ?thesis using E by (simp add: Eigenvalues2S_diagonal)
  qed
  show ?thesis
    using val P(1) sum T lo dbl by blast
qed

subsubsection \<open>The trigonometric roots\<close>

text \<open>The three numbers \<open>- 2 sqrt(Q) cos(phi)\<close> with \<open>cos(3 phi) = R / Q^(3/2)\<close> are roots of
  the cubic, and the three angles of the code order them.\<close>

lemma cos_two_pi_third: "cos (2 * pi / 3) = - (1 / 2)"
proof -
  have "cos (pi - pi / 3) = - cos (pi / 3)" by (rule cos_pi_minus)
  moreover have "pi - pi / 3 = 2 * pi / 3" by simp
  ultimately show ?thesis by (simp add: cos_60)
qed

lemma trig_cubic_root:
  fixes Q R phi :: real
  assumes Q: "0 < Q" and c3: "cos (3 * phi) = R / (Q * sqrt Q)"
  defines "y \<equiv> - 2 * sqrt Q * cos phi"
  shows "y * y * y - 3 * Q * y + 2 * R = 0"
proof -
  define s where "s = sqrt Q"
  define c where "c = cos phi"
  have ss: "s * s = Q" unfolding s_def using Q by simp
  have sp: "0 < s" unfolding s_def using Q by simp
  have t: "4 * (c * c * c) - 3 * c = R / (Q * s)"
    using c3 unfolding cos_treble_cos c_def s_def by (simp add: power3_eq_cube)
  have Qs: "Q * s \<noteq> 0" using Q sp by simp
  have R: "R = (Q * s) * (4 * (c * c * c) - 3 * c)" unfolding t using Qs by simp
  have "y * y * y = - 8 * ((s * s) * s) * (c * c * c)"
    unfolding y_def s_def[symmetric] c_def[symmetric] by (simp add: algebra_simps)
  also have "\<dots> = - 8 * (Q * s) * (c * c * c)" unfolding ss ..
  finally have y3: "y * y * y = - 8 * (Q * s) * (c * c * c)" .
  have y1: "3 * Q * y = - 6 * (Q * s) * c"
    unfolding y_def s_def[symmetric] c_def[symmetric] by (simp add: algebra_simps)
  show ?thesis unfolding y3 y1 R by (simp add: algebra_simps)
qed

lemma trig_angles:
  assumes "- 1 \<le> x" "x \<le> 1"
  shows "cos (3 * (arccos x / 3)) = x"
    and "cos (3 * ((arccos x + 2 * pi) / 3)) = x"
    and "cos (3 * ((arccos x - 2 * pi) / 3)) = x"
proof -
  have c: "cos (arccos x) = x" using assms by (rule cos_arccos)
  show "cos (3 * (arccos x / 3)) = x" using c by simp
  have e1: "3 * ((arccos x + 2 * pi) / 3) = arccos x + 2 * pi" by (simp add: field_simps)
  have e2: "3 * ((arccos x - 2 * pi) / 3) = arccos x - 2 * pi" by (simp add: field_simps)
  have "cos (arccos x + 2 * pi) = cos (arccos x)" by (rule cos_periodic)
  then show "cos (3 * ((arccos x + 2 * pi) / 3)) = x" unfolding e1 using c by simp
  have "cos (arccos x - 2 * pi) = cos ((arccos x - 2 * pi) + 2 * pi)" by (rule cos_periodic[symmetric])
  then show "cos (3 * ((arccos x - 2 * pi) / 3)) = x" unfolding e2 using c by simp
qed

lemma trig_order:
  assumes x: "- 1 \<le> x" "x \<le> 1"
  shows "cos ((arccos x + 2 * pi) / 3) \<le> - (1 / 2)"
    and "- (1 / 2) \<le> cos ((arccos x - 2 * pi) / 3)"
    and "cos ((arccos x - 2 * pi) / 3) \<le> 1 / 2"
    and "1 / 2 \<le> cos (arccos x / 3)"
    and "x < 1 \<Longrightarrow> cos ((arccos x + 2 * pi) / 3) < - (1 / 2)"
    and "- 1 < x \<Longrightarrow> 1 / 2 < cos (arccos x / 3)"
proof -
  define th where "th = arccos x"
  have b: "0 \<le> th" "th \<le> pi" unfolding th_def using x by (simp_all add: arccos_lbound arccos_ubound)
  have p: "0 < pi" by (rule pi_gt_zero)
  have a1: "2 * pi / 3 \<le> (th + 2 * pi) / 3" "(th + 2 * pi) / 3 \<le> pi" "0 \<le> 2 * pi / 3"
    using b p by simp_all
  show "cos ((arccos x + 2 * pi) / 3) \<le> - (1 / 2)"
    unfolding th_def[symmetric] cos_two_pi_third[symmetric]
    by (rule cos_monotone_0_pi_le[OF a1(3) a1(1) a1(2)])
  have m: "cos ((th - 2 * pi) / 3) = cos ((2 * pi - th) / 3)"
  proof -
    have "(th - 2 * pi) / 3 = - ((2 * pi - th) / 3)" by (simp add: field_simps)
    then show ?thesis by (simp only: cos_minus)
  qed
  have a2: "pi / 3 \<le> (2 * pi - th) / 3" "(2 * pi - th) / 3 \<le> 2 * pi / 3" "0 \<le> pi / 3" "2 * pi / 3 \<le> pi"
    using b p by simp_all
  have a2': "0 \<le> (2 * pi - th) / 3" using a2 by linarith
  show "- (1 / 2) \<le> cos ((arccos x - 2 * pi) / 3)"
    unfolding th_def[symmetric] m cos_two_pi_third[symmetric]
    by (rule cos_monotone_0_pi_le[OF a2' a2(2) a2(4)])
  have "cos ((2 * pi - th) / 3) \<le> cos (pi / 3)"
    by (rule cos_monotone_0_pi_le[OF a2(3) a2(1)]) (use a2 in linarith)
  then show "cos ((arccos x - 2 * pi) / 3) \<le> 1 / 2"
    unfolding th_def[symmetric] m by (simp add: cos_60)
  have a3: "0 \<le> th / 3" "th / 3 \<le> pi / 3" "pi / 3 \<le> pi" using b p by simp_all
  have "cos (pi / 3) \<le> cos (th / 3)"
    by (rule cos_monotone_0_pi_le[OF a3])
  then show "1 / 2 \<le> cos (arccos x / 3)" unfolding th_def[symmetric] by (simp add: cos_60)
  show "cos ((arccos x + 2 * pi) / 3) < - (1 / 2)" if "x < 1"
  proof -
    have "0 < th"
    proof (cases "x = - 1")
      case True
      then show ?thesis unfolding th_def using p by simp
    next
      case False
      then have "- 1 < x" using x by simp
      then show ?thesis unfolding th_def using that arccos_lt_bounded[of x] by simp
    qed
    then have s: "2 * pi / 3 < (th + 2 * pi) / 3" by simp
    show ?thesis
      unfolding th_def[symmetric] cos_two_pi_third[symmetric]
      by (rule cos_monotone_0_pi[OF a1(3) s a1(2)])
  qed
  show "1 / 2 < cos (arccos x / 3)" if "- 1 < x"
  proof -
    have "th < pi"
    proof (cases "x = 1")
      case True
      then show ?thesis unfolding th_def using p by simp
    next
      case False
      then have "x < 1" using x by simp
      then show ?thesis unfolding th_def using that arccos_lt_bounded[of x] by simp
    qed
    then have s: "th / 3 < pi / 3" by simp
    have "cos (pi / 3) < cos (th / 3)"
      by (rule cos_monotone_0_pi[OF a3(1) s a3(3)])
    then show ?thesis unfolding th_def[symmetric] by (simp add: cos_60)
  qed
qed

subsubsection \<open>Selection from the deflated triple\<close>

text \<open>The minimum, the median and the maximum that the code selects, compared by magnitude.\<close>

lemma select_separated_max:
  fixes lam s1 s2 T :: real
  assumes "0 \<le> lam" "s1 + s2 = T" "0 \<le> T" "- T \<le> 2 * s1" "- T \<le> 2 * s2" "T \<le> 2 * lam"
  defines "med \<equiv> (if lam \<le> s1 then (if s1 \<le> s2 then s1 else max lam s2)
                    else (if lam \<le> s2 then lam else max s2 s1))"
  shows "\<bar>min (min lam s1) s2\<bar> \<le> \<bar>med\<bar>" and "\<bar>med\<bar> \<le> lam"
  using assms(1-6) unfolding med_def by (auto simp: min_def max_def abs_if)

lemma select_separated_min:
  fixes lam s1 s2 T :: real
  assumes "0 \<le> lam" "s1 + s2 = T" "2 * lam \<le> T"
  defines "med \<equiv> (if lam \<le> s1 then (if s1 \<le> s2 then s1 else max lam s2)
                    else (if lam \<le> s2 then lam else max s2 s1))"
  shows "lam \<le> \<bar>med\<bar>" and "\<bar>med\<bar> \<le> \<bar>max (max lam s1) s2\<bar>"
  using assms(1-3) unfolding med_def by (auto simp: min_def max_def abs_if)

lemma select_double:
  fixes lam s :: real
  assumes "0 \<le> lam" "0 \<le> s"
  defines "med \<equiv> (if lam \<le> s then (if s \<le> s then s else max lam s)
                    else (if lam \<le> s then lam else max s s))"
  shows "\<bar>min (min lam s) s\<bar> \<le> \<bar>med\<bar>" and "\<bar>med\<bar> \<le> \<bar>max (max lam s) s\<bar>"
  using assms(1-2) unfolding med_def by (auto simp: min_def max_def abs_if)

subsubsection \<open>The root at the label have_aa\<close>

text \<open>In each branch of \<^verbatim>\<open>CalcSingularvalue_3_root\<close> the magnitudes of the values for
  \<open>i = 2, 1, 0\<close> are non-decreasing.\<close>

lemma shifted_root_nonneg:
  assumes psd: "psd3 (sym_matrix (c1 + aa) (c2 + aa) (c3 + aa) b12 b13 b23)"
    and tr: "c1 + c2 + c3 = 0"
    and root: "y * y * y - 3 * char_Q c1 c2 c3 b12 b13 b23 * y + 2 * char_R c1 c2 c3 b12 b13 b23 = 0"
  shows "0 \<le> aa + y"
proof -
  have "det3 (sym_matrix (c1 - y) (c2 - y) (c3 - y) b12 b13 b23) = 0"
    unfolding char_polynomial[OF tr] using root by simp
  moreover have "c1 + aa - (aa + y) = c1 - y" "c2 + aa - (aa + y) = c2 - y" "c3 + aa - (aa + y) = c3 - y"
    by simp_all
  ultimately have "det3 (sym_matrix (c1 + aa - (aa + y)) (c2 + aa - (aa + y)) (c3 + aa - (aa + y))
      b12 b13 b23) = 0" by simp
  then show ?thesis by (rule eigenvalue_nonneg[OF psd])
qed

lemma CalcSingularvalue_3_root_trig:
  assumes psd: "psd3 (sym_matrix (c1 + aa) (c2 + aa) (c3 + aa) b12 b13 b23)"
    and tr: "c1 + c2 + c3 = 0"
    and Q: "Q = char_Q c1 c2 c3 b12 b13 b23" and R: "R = char_R c1 c2 c3 b12 b13 b23"
    and Qpos: "0 < Q"
    and small: "\<not> fabs R \<ge> Q * sqrt Q"
    and trig: "fabs (R / (Q * sqrt Q)) \<le> 0.9"
  shows "\<bar>CalcSingularvalue_3_root 2 aa c1 c2 c3 Q R (c1 + aa) (c2 + aa) (c3 + aa) b12 b13 b23\<bar>
       \<le> \<bar>CalcSingularvalue_3_root 1 aa c1 c2 c3 Q R (c1 + aa) (c2 + aa) (c3 + aa) b12 b13 b23\<bar>"
    and "\<bar>CalcSingularvalue_3_root 1 aa c1 c2 c3 Q R (c1 + aa) (c2 + aa) (c3 + aa) b12 b13 b23\<bar>
       \<le> \<bar>CalcSingularvalue_3_root 0 aa c1 c2 c3 Q R (c1 + aa) (c2 + aa) (c3 + aa) b12 b13 b23\<bar>"
proof -
  define s where "s = sqrt Q"
  define Rn where "Rn = R / (Q * s)"
  have sp: "0 < s" unfolding s_def using Qpos by simp
  have nQ: "\<not> Q \<le> 0" using Qpos by simp
  have b: "- 1 \<le> Rn" "Rn \<le> 1" using trig unfolding Rn_def s_def fabs_def by linarith+
  define cA where "cA = cos (arccos Rn / 3)"
  define cB where "cB = cos ((arccos Rn - 2 * pi) / 3)"
  define cC where "cC = cos ((arccos Rn + 2 * pi) / 3)"
  have v2: "CalcSingularvalue_3_root 2 aa c1 c2 c3 Q R (c1 + aa) (c2 + aa) (c3 + aa) b12 b13 b23 =
      aa + (- 2 * s * cA)"
    unfolding CalcSingularvalue_3_root_def Let_def cA_def Rn_def s_def using nQ small trig by simp
  have v1: "CalcSingularvalue_3_root 1 aa c1 c2 c3 Q R (c1 + aa) (c2 + aa) (c3 + aa) b12 b13 b23 =
      aa + (- 2 * s * cB)"
    unfolding CalcSingularvalue_3_root_def Let_def cB_def Rn_def s_def M_PI_def using nQ small trig by simp
  have v0: "CalcSingularvalue_3_root 0 aa c1 c2 c3 Q R (c1 + aa) (c2 + aa) (c3 + aa) b12 b13 b23 =
      aa + (- 2 * s * cC)"
    unfolding CalcSingularvalue_3_root_def Let_def cC_def Rn_def s_def M_PI_def using nQ small trig by simp
  note A = trig_angles[OF b]
  have rA: "(- 2 * s * cA) * (- 2 * s * cA) * (- 2 * s * cA) - 3 * Q * (- 2 * s * cA) + 2 * R = 0"
    unfolding s_def cA_def Rn_def by (rule trig_cubic_root[OF Qpos]) (rule A(1)[unfolded Rn_def s_def])
  have rB: "(- 2 * s * cB) * (- 2 * s * cB) * (- 2 * s * cB) - 3 * Q * (- 2 * s * cB) + 2 * R = 0"
    unfolding s_def cB_def Rn_def by (rule trig_cubic_root[OF Qpos]) (rule A(3)[unfolded Rn_def s_def])
  have rC: "(- 2 * s * cC) * (- 2 * s * cC) * (- 2 * s * cC) - 3 * Q * (- 2 * s * cC) + 2 * R = 0"
    unfolding s_def cC_def Rn_def by (rule trig_cubic_root[OF Qpos]) (rule A(2)[unfolded Rn_def s_def])
  have n2: "0 \<le> aa + (- 2 * s * cA)"
    by (rule shifted_root_nonneg[OF psd tr rA[unfolded Q R]])
  have n1: "0 \<le> aa + (- 2 * s * cB)"
    by (rule shifted_root_nonneg[OF psd tr rB[unfolded Q R]])
  have n0: "0 \<le> aa + (- 2 * s * cC)"
    by (rule shifted_root_nonneg[OF psd tr rC[unfolded Q R]])
  note O = trig_order(1-4)[OF b]
  have "cB \<le> cA" "cC \<le> cB" using O unfolding cA_def cB_def cC_def by linarith+
  then have "s * cB \<le> s * cA" "s * cC \<le> s * cB" using sp by (simp_all add: mult_left_mono)
  then have o: "- 2 * s * cA \<le> - 2 * s * cB" "- 2 * s * cB \<le> - 2 * s * cC" by simp_all
  show "\<bar>CalcSingularvalue_3_root 2 aa c1 c2 c3 Q R (c1 + aa) (c2 + aa) (c3 + aa) b12 b13 b23\<bar>
       \<le> \<bar>CalcSingularvalue_3_root 1 aa c1 c2 c3 Q R (c1 + aa) (c2 + aa) (c3 + aa) b12 b13 b23\<bar>"
    unfolding v2 v1 using n2 n1 o by linarith
  show "\<bar>CalcSingularvalue_3_root 1 aa c1 c2 c3 Q R (c1 + aa) (c2 + aa) (c3 + aa) b12 b13 b23\<bar>
       \<le> \<bar>CalcSingularvalue_3_root 0 aa c1 c2 c3 Q R (c1 + aa) (c2 + aa) (c3 + aa) b12 b13 b23\<bar>"
    unfolding v1 v0 using n1 n0 o by linarith
qed

lemma CalcSingularvalue_3_root_double:
  assumes psd: "psd3 (sym_matrix (c1 + aa) (c2 + aa) (c3 + aa) b12 b13 b23)"
    and tr: "c1 + c2 + c3 = 0"
    and Q: "Q = char_Q c1 c2 c3 b12 b13 b23" and R: "R = char_R c1 c2 c3 b12 b13 b23"
    and Qpos: "0 < Q"
    and big: "fabs R \<ge> Q * sqrt Q"
  shows "\<bar>CalcSingularvalue_3_root 2 aa c1 c2 c3 Q R (c1 + aa) (c2 + aa) (c3 + aa) b12 b13 b23\<bar>
       \<le> \<bar>CalcSingularvalue_3_root 1 aa c1 c2 c3 Q R (c1 + aa) (c2 + aa) (c3 + aa) b12 b13 b23\<bar>"
    and "\<bar>CalcSingularvalue_3_root 1 aa c1 c2 c3 Q R (c1 + aa) (c2 + aa) (c3 + aa) b12 b13 b23\<bar>
       \<le> \<bar>CalcSingularvalue_3_root 0 aa c1 c2 c3 Q R (c1 + aa) (c2 + aa) (c3 + aa) b12 b13 b23\<bar>"
proof -
  define s where "s = sqrt Q"
  have sp: "0 < s" unfolding s_def using Qpos by simp
  have ss: "s * s = Q" unfolding s_def using Qpos by simp
  have nQ: "\<not> Q \<le> 0" using Qpos by simp
  define q3 where "q3 = Q * s"
  have q3p: "0 < q3" unfolding q3_def using Qpos sp by simp
  have q3q3: "q3 * q3 = Q * Q * Q"
  proof -
    have "q3 * q3 = Q * Q * (s * s)" unfolding q3_def by (simp add: algebra_simps)
    then show ?thesis unfolding ss .
  qed
  have D: "R * R \<le> q3 * q3"
    unfolding q3q3 R Q by (rule discriminant_nonneg[OF tr])
  have ge: "q3 \<le> \<bar>R\<bar>" using big unfolding q3_def s_def fabs_def by simp
  have le: "\<bar>R\<bar> \<le> q3"
  proof -
    have "R\<^sup>2 \<le> q3\<^sup>2" using D by (simp add: power2_eq_square)
    then have "\<bar>R\<bar> \<le> \<bar>q3\<bar>" by (simp only: abs_le_square_iff)
    then show ?thesis using q3p by simp
  qed
  have absR: "\<bar>R\<bar> = q3" using ge le by linarith
  define r where "r = (if R < 0 then 2 * s else - 2 * s)"
  have root: "r * r * r - 3 * Q * r + 2 * R = 0"
  proof (cases "R < 0")
    case True
    then have Rv: "R = - (Q * s)" using absR unfolding q3_def by linarith
    have "r = 2 * s" unfolding r_def using True by simp
    then have "r * r * r - 3 * Q * r + 2 * R = 8 * ((s * s) * s) - 6 * (Q * s) + 2 * R"
      by (simp add: algebra_simps)
    then show ?thesis unfolding ss Rv by simp
  next
    case False
    then have Rv: "R = Q * s" using absR unfolding q3_def by linarith
    have "r = - 2 * s" unfolding r_def using False by simp
    then have "r * r * r - 3 * Q * r + 2 * R = - 8 * ((s * s) * s) + 6 * (Q * s) + 2 * R"
      by (simp add: algebra_simps)
    then show ?thesis unfolding ss Rv by simp
  qed
  have rr: "r * r = 4 * Q"
  proof -
    have "r * r = 4 * (s * s)" unfolding r_def by simp
    then show ?thesis unfolding ss .
  qed
  have simple: "r * r \<noteq> char_Q c1 c2 c3 b12 b13 b23"
    unfolding rr Q[symmetric] using Qpos by simp
  from CalcSingularvalue_3_reduce_structure[OF psd tr Qpos[unfolded Q] root[unfolded Q R] simple]
  obtain s1 s2 where
    val: "\<And>i. CalcSingularvalue_3_reduce i aa r c1 c2 c3 (c1 + aa) (c2 + aa) (c3 + aa) b12 b13 b23 =
        (if i = 2 then min (min (aa + r) s1) s2
         else if i = 1 then
           (if aa + r \<le> s1 then (if s1 \<le> s2 then s1 else max (aa + r) s2)
            else (if aa + r \<le> s2 then aa + r else max s2 s1))
         else max (max (aa + r) s1) s2)"
    and lam: "0 \<le> aa + r" and sum: "s1 + s2 = 2 * aa - r" and T: "0 \<le> 2 * aa - r"
    and dbl: "4 * char_Q c1 c2 c3 b12 b13 b23 = r * r \<longrightarrow> s1 = s2"
    by blast
  have eq: "s2 = s1" using dbl rr Q by simp
  have s1: "0 \<le> s1" using sum T eq by linarith
  have a: "CalcSingularvalue_3_root i aa c1 c2 c3 Q R (c1 + aa) (c2 + aa) (c3 + aa) b12 b13 b23 =
      CalcSingularvalue_3_reduce i aa r c1 c2 c3 (c1 + aa) (c2 + aa) (c3 + aa) b12 b13 b23" for i
    unfolding CalcSingularvalue_3_root_def Let_def r_def s_def using nQ big by simp
  show "\<bar>CalcSingularvalue_3_root 2 aa c1 c2 c3 Q R (c1 + aa) (c2 + aa) (c3 + aa) b12 b13 b23\<bar>
       \<le> \<bar>CalcSingularvalue_3_root 1 aa c1 c2 c3 Q R (c1 + aa) (c2 + aa) (c3 + aa) b12 b13 b23\<bar>"
    unfolding a val eq using select_double(1)[OF lam s1] by simp
  show "\<bar>CalcSingularvalue_3_root 1 aa c1 c2 c3 Q R (c1 + aa) (c2 + aa) (c3 + aa) b12 b13 b23\<bar>
       \<le> \<bar>CalcSingularvalue_3_root 0 aa c1 c2 c3 Q R (c1 + aa) (c2 + aa) (c3 + aa) b12 b13 b23\<bar>"
    unfolding a val eq using select_double(2)[OF lam s1] by simp
qed

lemma CalcSingularvalue_3_root_separated:
  assumes psd: "psd3 (sym_matrix (c1 + aa) (c2 + aa) (c3 + aa) b12 b13 b23)"
    and tr: "c1 + c2 + c3 = 0"
    and Q: "Q = char_Q c1 c2 c3 b12 b13 b23" and R: "R = char_R c1 c2 c3 b12 b13 b23"
    and Qpos: "0 < Q"
    and small: "\<not> fabs R \<ge> Q * sqrt Q"
    and trig: "\<not> fabs (R / (Q * sqrt Q)) \<le> 0.9"
  shows "\<bar>CalcSingularvalue_3_root 2 aa c1 c2 c3 Q R (c1 + aa) (c2 + aa) (c3 + aa) b12 b13 b23\<bar>
       \<le> \<bar>CalcSingularvalue_3_root 1 aa c1 c2 c3 Q R (c1 + aa) (c2 + aa) (c3 + aa) b12 b13 b23\<bar>"
    and "\<bar>CalcSingularvalue_3_root 1 aa c1 c2 c3 Q R (c1 + aa) (c2 + aa) (c3 + aa) b12 b13 b23\<bar>
       \<le> \<bar>CalcSingularvalue_3_root 0 aa c1 c2 c3 Q R (c1 + aa) (c2 + aa) (c3 + aa) b12 b13 b23\<bar>"
proof -
  define s where "s = sqrt Q"
  define Rn where "Rn = R / (Q * s)"
  have sp: "0 < s" unfolding s_def using Qpos by simp
  have ss: "s * s = Q" unfolding s_def using Qpos by simp
  have nQ: "\<not> Q \<le> 0" using Qpos by simp
  have q3p: "0 < Q * s" using Qpos sp by simp
  have "\<bar>R\<bar> < Q * s" using small unfolding s_def fabs_def by simp
  then have "\<bar>R\<bar> / (Q * s) < 1" using q3p by simp
  then have "\<bar>Rn\<bar> < 1" unfolding Rn_def using q3p by simp
  then have b: "- 1 \<le> Rn" "Rn \<le> 1" and bs: "- 1 < Rn" "Rn < 1" by linarith+
  note A = trig_angles[OF b]
  show "\<bar>CalcSingularvalue_3_root 2 aa c1 c2 c3 Q R (c1 + aa) (c2 + aa) (c3 + aa) b12 b13 b23\<bar>
       \<le> \<bar>CalcSingularvalue_3_root 1 aa c1 c2 c3 Q R (c1 + aa) (c2 + aa) (c3 + aa) b12 b13 b23\<bar>"
    and "\<bar>CalcSingularvalue_3_root 1 aa c1 c2 c3 Q R (c1 + aa) (c2 + aa) (c3 + aa) b12 b13 b23\<bar>
       \<le> \<bar>CalcSingularvalue_3_root 0 aa c1 c2 c3 Q R (c1 + aa) (c2 + aa) (c3 + aa) b12 b13 b23\<bar>"
  proof (atomize (full), cases "Rn < 0")
    case True
    define cC where "cC = cos ((arccos Rn + 2 * pi) / 3)"
    define r where "r = - 2 * s * cC"
    have cC: "cC < - (1 / 2)" unfolding cC_def by (rule trig_order(5)[OF b bs(2)])
    have "s * (1 / 2) < s * (- cC)" using cC sp by (intro mult_strict_left_mono) simp_all
    then have rs: "s < r" unfolding r_def by simp
    then have rpos: "0 < r" using sp by linarith
    have "s * s < r * r" using rs sp by (intro mult_strict_mono) simp_all
    then have rr: "Q < r * r" unfolding ss .
    have root: "r * r * r - 3 * Q * r + 2 * R = 0"
      unfolding r_def s_def cC_def Rn_def
      by (rule trig_cubic_root[OF Qpos]) (rule A(2)[unfolded Rn_def s_def])
    have simple: "r * r \<noteq> char_Q c1 c2 c3 b12 b13 b23"
      unfolding Q[symmetric] using rr by simp
    from CalcSingularvalue_3_reduce_structure[OF psd tr Qpos[unfolded Q] root[unfolded Q R] simple]
    obtain s1 s2 where
      val: "\<And>i. CalcSingularvalue_3_reduce i aa r c1 c2 c3 (c1 + aa) (c2 + aa) (c3 + aa) b12 b13 b23 =
          (if i = 2 then min (min (aa + r) s1) s2
           else if i = 1 then
             (if aa + r \<le> s1 then (if s1 \<le> s2 then s1 else max (aa + r) s2)
              else (if aa + r \<le> s2 then aa + r else max s2 s1))
           else max (max (aa + r) s1) s2)"
      and lam: "0 \<le> aa + r" and sum: "s1 + s2 = 2 * aa - r" and T: "0 \<le> 2 * aa - r"
      and lo: "r - 2 * aa \<le> 2 * s1" "r - 2 * aa \<le> 2 * s2"
      by blast
    have a0: "CalcSingularvalue_3_root 0 aa c1 c2 c3 Q R (c1 + aa) (c2 + aa) (c3 + aa) b12 b13 b23 = aa + r"
      unfolding CalcSingularvalue_3_root_def Let_def r_def cC_def Rn_def s_def M_PI_def
      using nQ small trig True[unfolded Rn_def s_def] by simp
    have a: "CalcSingularvalue_3_root i aa c1 c2 c3 Q R (c1 + aa) (c2 + aa) (c3 + aa) b12 b13 b23 =
        CalcSingularvalue_3_reduce i aa r c1 c2 c3 (c1 + aa) (c2 + aa) (c3 + aa) b12 b13 b23"
      if "i \<noteq> 0" for i
      unfolding CalcSingularvalue_3_root_def Let_def r_def cC_def Rn_def s_def M_PI_def
      using nQ small trig True[unfolded Rn_def s_def] that by simp
    have lo': "- (2 * aa - r) \<le> 2 * s1" "- (2 * aa - r) \<le> 2 * s2" using lo by linarith+
    have hi: "2 * aa - r \<le> 2 * (aa + r)" using rpos by simp
    note S = select_separated_max[OF lam sum T lo' hi]
    show "\<bar>CalcSingularvalue_3_root 2 aa c1 c2 c3 Q R (c1 + aa) (c2 + aa) (c3 + aa) b12 b13 b23\<bar>
       \<le> \<bar>CalcSingularvalue_3_root 1 aa c1 c2 c3 Q R (c1 + aa) (c2 + aa) (c3 + aa) b12 b13 b23\<bar> \<and>
      \<bar>CalcSingularvalue_3_root 1 aa c1 c2 c3 Q R (c1 + aa) (c2 + aa) (c3 + aa) b12 b13 b23\<bar>
       \<le> \<bar>CalcSingularvalue_3_root 0 aa c1 c2 c3 Q R (c1 + aa) (c2 + aa) (c3 + aa) b12 b13 b23\<bar>"
      unfolding a0 a[of 1, simplified] a[of 2, simplified] val using S lam by simp
  next
    case False
    define cA where "cA = cos (arccos Rn / 3)"
    define r where "r = - 2 * s * cA"
    have cA: "1 / 2 < cA" unfolding cA_def by (rule trig_order(6)[OF b bs(1)])
    have "s * (1 / 2) < s * cA" using cA sp by (intro mult_strict_left_mono) simp_all
    then have rs: "s < - r" unfolding r_def by simp
    then have rneg: "r < 0" using sp by linarith
    have "s * s < (- r) * (- r)" using rs sp by (intro mult_strict_mono) simp_all
    then have rr: "Q < r * r" unfolding ss by simp
    have root: "r * r * r - 3 * Q * r + 2 * R = 0"
      unfolding r_def s_def cA_def Rn_def
      by (rule trig_cubic_root[OF Qpos]) (rule A(1)[unfolded Rn_def s_def])
    have simple: "r * r \<noteq> char_Q c1 c2 c3 b12 b13 b23"
      unfolding Q[symmetric] using rr by simp
    from CalcSingularvalue_3_reduce_structure[OF psd tr Qpos[unfolded Q] root[unfolded Q R] simple]
    obtain s1 s2 where
      val: "\<And>i. CalcSingularvalue_3_reduce i aa r c1 c2 c3 (c1 + aa) (c2 + aa) (c3 + aa) b12 b13 b23 =
          (if i = 2 then min (min (aa + r) s1) s2
           else if i = 1 then
             (if aa + r \<le> s1 then (if s1 \<le> s2 then s1 else max (aa + r) s2)
              else (if aa + r \<le> s2 then aa + r else max s2 s1))
           else max (max (aa + r) s1) s2)"
      and lam: "0 \<le> aa + r" and sum: "s1 + s2 = 2 * aa - r"
      by blast
    have a2: "CalcSingularvalue_3_root 2 aa c1 c2 c3 Q R (c1 + aa) (c2 + aa) (c3 + aa) b12 b13 b23 = aa + r"
      unfolding CalcSingularvalue_3_root_def Let_def r_def cA_def Rn_def s_def M_PI_def
      using nQ small trig False[unfolded Rn_def s_def] by simp
    have a: "CalcSingularvalue_3_root i aa c1 c2 c3 Q R (c1 + aa) (c2 + aa) (c3 + aa) b12 b13 b23 =
        CalcSingularvalue_3_reduce i aa r c1 c2 c3 (c1 + aa) (c2 + aa) (c3 + aa) b12 b13 b23"
      if "i \<noteq> 2" for i
      unfolding CalcSingularvalue_3_root_def Let_def r_def cA_def Rn_def s_def M_PI_def
      using nQ small trig False[unfolded Rn_def s_def] that by simp
    have hi: "2 * (aa + r) \<le> 2 * aa - r" using rneg by simp
    note S = select_separated_min[OF lam sum hi]
    show "\<bar>CalcSingularvalue_3_root 2 aa c1 c2 c3 Q R (c1 + aa) (c2 + aa) (c3 + aa) b12 b13 b23\<bar>
       \<le> \<bar>CalcSingularvalue_3_root 1 aa c1 c2 c3 Q R (c1 + aa) (c2 + aa) (c3 + aa) b12 b13 b23\<bar> \<and>
      \<bar>CalcSingularvalue_3_root 1 aa c1 c2 c3 Q R (c1 + aa) (c2 + aa) (c3 + aa) b12 b13 b23\<bar>
       \<le> \<bar>CalcSingularvalue_3_root 0 aa c1 c2 c3 Q R (c1 + aa) (c2 + aa) (c3 + aa) b12 b13 b23\<bar>"
      unfolding a2 a[of 1, simplified] a[of 0, simplified] val using S lam by simp
  qed
qed

lemma CalcSingularvalue_3_root_order:
  assumes psd: "psd3 (sym_matrix (c1 + aa) (c2 + aa) (c3 + aa) b12 b13 b23)"
    and tr: "c1 + c2 + c3 = 0"
    and Q: "Q = char_Q c1 c2 c3 b12 b13 b23" and R: "R = char_R c1 c2 c3 b12 b13 b23"
  shows "\<bar>CalcSingularvalue_3_root 2 aa c1 c2 c3 Q R (c1 + aa) (c2 + aa) (c3 + aa) b12 b13 b23\<bar>
       \<le> \<bar>CalcSingularvalue_3_root 1 aa c1 c2 c3 Q R (c1 + aa) (c2 + aa) (c3 + aa) b12 b13 b23\<bar>"
    and "\<bar>CalcSingularvalue_3_root 1 aa c1 c2 c3 Q R (c1 + aa) (c2 + aa) (c3 + aa) b12 b13 b23\<bar>
       \<le> \<bar>CalcSingularvalue_3_root 0 aa c1 c2 c3 Q R (c1 + aa) (c2 + aa) (c3 + aa) b12 b13 b23\<bar>"
proof (atomize (full), cases "Q \<le> 0")
  case True
  then show "\<bar>CalcSingularvalue_3_root 2 aa c1 c2 c3 Q R (c1 + aa) (c2 + aa) (c3 + aa) b12 b13 b23\<bar>
       \<le> \<bar>CalcSingularvalue_3_root 1 aa c1 c2 c3 Q R (c1 + aa) (c2 + aa) (c3 + aa) b12 b13 b23\<bar> \<and>
      \<bar>CalcSingularvalue_3_root 1 aa c1 c2 c3 Q R (c1 + aa) (c2 + aa) (c3 + aa) b12 b13 b23\<bar>
       \<le> \<bar>CalcSingularvalue_3_root 0 aa c1 c2 c3 Q R (c1 + aa) (c2 + aa) (c3 + aa) b12 b13 b23\<bar>"
    by (simp add: CalcSingularvalue_3_root_def)
next
  case False
  then have Qpos: "0 < Q" by simp
  show "\<bar>CalcSingularvalue_3_root 2 aa c1 c2 c3 Q R (c1 + aa) (c2 + aa) (c3 + aa) b12 b13 b23\<bar>
       \<le> \<bar>CalcSingularvalue_3_root 1 aa c1 c2 c3 Q R (c1 + aa) (c2 + aa) (c3 + aa) b12 b13 b23\<bar> \<and>
      \<bar>CalcSingularvalue_3_root 1 aa c1 c2 c3 Q R (c1 + aa) (c2 + aa) (c3 + aa) b12 b13 b23\<bar>
       \<le> \<bar>CalcSingularvalue_3_root 0 aa c1 c2 c3 Q R (c1 + aa) (c2 + aa) (c3 + aa) b12 b13 b23\<bar>"
  proof (cases "fabs R \<ge> Q * sqrt Q")
    case True
    show ?thesis
      using CalcSingularvalue_3_root_double[OF psd tr Q R Qpos True] by simp
  next
    case small: False
    show ?thesis
    proof (cases "fabs (R / (Q * sqrt Q)) \<le> 0.9")
      case True
      show ?thesis
        using CalcSingularvalue_3_root_trig[OF psd tr Q R Qpos small True] by simp
    next
      case False
      show ?thesis
        using CalcSingularvalue_3_root_separated[OF psd tr Q R Qpos small False] by simp
    qed
  qed
qed

subsubsection \<open>The singular values of a 3x3 matrix\<close>

text \<open>The matrix \<open>B\<close> of the code is the Gram matrix of the scaled columns, hence positive
  semi-definite.\<close>

lemma gram_psd:
  fixes e0 e1 e2 e3 e4 e5 e6 e7 e8 :: real
  shows "psd3 (sym_matrix (e0 * e0 + e1 * e1 + e2 * e2) (e3 * e3 + e4 * e4 + e5 * e5)
           (e6 * e6 + e7 * e7 + e8 * e8) (e0 * e3 + e1 * e4 + e2 * e5)
           (e0 * e6 + e1 * e7 + e2 * e8) (e3 * e6 + e4 * e7 + e5 * e8))"
  unfolding psd3_sym_iff
proof (intro allI)
  fix x1 x2 x3 :: real
  have "(e0 * e0 + e1 * e1 + e2 * e2) * (x1 * x1) + (e3 * e3 + e4 * e4 + e5 * e5) * (x2 * x2) +
       (e6 * e6 + e7 * e7 + e8 * e8) * (x3 * x3) + 2 * (e0 * e3 + e1 * e4 + e2 * e5) * (x1 * x2) +
       2 * (e0 * e6 + e1 * e7 + e2 * e8) * (x1 * x3) + 2 * (e3 * e6 + e4 * e7 + e5 * e8) * (x2 * x3) =
       (e0 * x1 + e3 * x2 + e6 * x3) * (e0 * x1 + e3 * x2 + e6 * x3)
       + (e1 * x1 + e4 * x2 + e7 * x3) * (e1 * x1 + e4 * x2 + e7 * x3)
       + (e2 * x1 + e5 * x2 + e8 * x3) * (e2 * x1 + e5 * x2 + e8 * x3)"
    by (simp add: algebra_simps)
  then show "0 \<le> (e0 * e0 + e1 * e1 + e2 * e2) * (x1 * x1) + (e3 * e3 + e4 * e4 + e5 * e5) * (x2 * x2) +
       (e6 * e6 + e7 * e7 + e8 * e8) * (x3 * x3) + 2 * (e0 * e3 + e1 * e4 + e2 * e5) * (x1 * x2) +
       2 * (e0 * e6 + e1 * e7 + e2 * e8) * (x1 * x3) + 2 * (e3 * e6 + e4 * e7 + e5 * e8) * (x2 * x3)"
    by simp
qed

lemma CalcSingularvalue_3_order:
  "CalcSingularvalue_3 d 2 \<le> CalcSingularvalue_3 d 1 \<and> CalcSingularvalue_3 d 1 \<le> CalcSingularvalue_3 d 0"
proof -
  define m where "m = GetScalingFactor (max_update (max_update (max_update (max_update (max_update
     (max_update (max_update (max_update (fabs (d ! 0)) (d ! 1)) (d ! 2)) (d ! 3)) (d ! 4)) (d ! 5))
     (d ! 6)) (d ! 7)) (d ! 8))"
  have m: "0 < m" unfolding m_def by (rule GetScalingFactor_pos)
  define e0 where "e0 = d ! 0 / m"
  define e1 where "e1 = d ! 1 / m"
  define e2 where "e2 = d ! 2 / m"
  define e3 where "e3 = d ! 3 / m"
  define e4 where "e4 = d ! 4 / m"
  define e5 where "e5 = d ! 5 / m"
  define e6 where "e6 = d ! 6 / m"
  define e7 where "e7 = d ! 7 / m"
  define e8 where "e8 = d ! 8 / m"
  define b11 where "b11 = e0 * e0 + e1 * e1 + e2 * e2"
  define b12 where "b12 = e0 * e3 + e1 * e4 + e2 * e5"
  define b13 where "b13 = e0 * e6 + e1 * e7 + e2 * e8"
  define b22 where "b22 = e3 * e3 + e4 * e4 + e5 * e5"
  define b23 where "b23 = e3 * e6 + e4 * e7 + e5 * e8"
  define b33 where "b33 = e6 * e6 + e7 * e7 + e8 * e8"
  define aa where "aa = (b11 + b22 + b33) / 3"
  define b11_b22 where "b11_b22 = ((e0 - e3) * (e0 + e3) + (e1 - e4) * (e1 + e4) + (e2 - e5) * (e2 + e5))"
  define b22_b33 where "b22_b33 = ((e3 - e6) * (e3 + e6) + (e4 - e7) * (e4 + e7) + (e5 - e8) * (e5 + e8))"
  define b33_b11 where "b33_b11 = ((e6 - e0) * (e6 + e0) + (e7 - e1) * (e7 + e1) + (e8 - e2) * (e8 + e2))"
  define c1 where "c1 = (b11_b22 - b33_b11) / 3"
  define c2 where "c2 = (b22_b33 - b11_b22) / 3"
  define c3 where "c3 = (b33_b11 - b22_b33) / 3"
  define Q where "Q = char_Q c1 c2 c3 b12 b13 b23"
  define R where "R = char_R c1 c2 c3 b12 b13 b23"
  have F: "CalcSingularvalue_3 d i =
      sqrt (fabs (CalcSingularvalue_3_root i aa c1 c2 c3 Q R b11 b22 b33 b12 b13 b23)) * m" for i
    unfolding CalcSingularvalue_3_def Let_def Q_def R_def char_Q_def char_R_def c1_def c2_def c3_def
      b11_b22_def b22_b33_def b33_b11_def aa_def b11_def b12_def b13_def b22_def b23_def b33_def
      e0_def e1_def e2_def e3_def e4_def e5_def e6_def e7_def e8_def m_def
    by (rule refl)
  have d1: "b11_b22 = b11 - b22" "b22_b33 = b22 - b33" "b33_b11 = b33 - b11"
    unfolding b11_b22_def b22_b33_def b33_b11_def b11_def b22_def b33_def
    by (simp_all add: algebra_simps)
  have c: "b11 = c1 + aa" "b22 = c2 + aa" "b33 = c3 + aa"
    unfolding c1_def c2_def c3_def aa_def d1 by (simp_all add: field_simps)
  have tr: "c1 + c2 + c3 = 0" unfolding c1_def c2_def c3_def by (simp add: field_simps)
  have psd: "psd3 (sym_matrix (c1 + aa) (c2 + aa) (c3 + aa) b12 b13 b23)"
    unfolding c[symmetric] b11_def b12_def b13_def b22_def b23_def b33_def by (rule gram_psd)
  note O = CalcSingularvalue_3_root_order[OF psd tr Q_def R_def, folded c]
  have "sqrt (fabs (CalcSingularvalue_3_root 2 aa c1 c2 c3 Q R b11 b22 b33 b12 b13 b23))
      \<le> sqrt (fabs (CalcSingularvalue_3_root 1 aa c1 c2 c3 Q R b11 b22 b33 b12 b13 b23))"
    unfolding fabs_def using O(1) by simp
  then have 1: "CalcSingularvalue_3 d 2 \<le> CalcSingularvalue_3 d 1"
    unfolding F using m by (simp add: mult_right_mono)
  have "sqrt (fabs (CalcSingularvalue_3_root 1 aa c1 c2 c3 Q R b11 b22 b33 b12 b13 b23))
      \<le> sqrt (fabs (CalcSingularvalue_3_root 0 aa c1 c2 c3 Q R b11 b22 b33 b12 b13 b23))"
    unfolding fabs_def using O(2) by simp
  then have 2: "CalcSingularvalue_3 d 1 \<le> CalcSingularvalue_3 d 0"
    unfolding F using m by (simp add: mult_right_mono)
  from 1 2 show ?thesis by simp
qed

subsubsection \<open>The eigenvalue arrays and the 2x2 singular values\<close>

text \<open>Both eigenvalue branches end in an explicit sort; the 2x2 singular values are the larger
  and the smaller of \<open>s\<close> and \<open>|det| / s\<close>.\<close>

lemma CalcEigenvalues_2_sorted:
  "sorted (fst (CalcEigenvalues_2 d)) \<and> length (fst (CalcEigenvalues_2 d)) = 2"
  unfolding CalcEigenvalues_2_def Let_def
  by (simp split: prod.splits)

lemma CalcEigenvalues_3_deflate_sorted:
  "sorted (fst (CalcEigenvalues_3_deflate aa d11 d22 d33 d12 d13 d23)) \<and>
   length (fst (CalcEigenvalues_3_deflate aa d11 d22 d33 d12 d13 d23)) = 3"
  unfolding CalcEigenvalues_3_deflate_def Let_def
  by (simp split: prod.splits)

lemma CalcEigenvalues_3_sorted:
  "sorted (fst (CalcEigenvalues_3 d)) \<and> length (fst (CalcEigenvalues_3 d)) = 3"
  unfolding CalcEigenvalues_3_unscaled CalcEigenvalues_3_scaled_def Let_def
  using CalcEigenvalues_3_deflate_sorted by simp

lemma CalcSingularvalue_2_order:
  "\<exists>s0 s1. CalcSingularvalue_2 d 0 = Inr s0 \<and> CalcSingularvalue_2 d 1 = Inr s1 \<and> s1 \<le> s0"
proof -
  define m where "m = GetScalingFactor (max_update (max_update (max_update (fabs (d ! 0)) (d ! 1))
     (d ! 2)) (d ! 3))"
  have m: "0 < m" unfolding m_def by (rule GetScalingFactor_pos)
  define s where "s = CalcSingularvalue_2_s (d ! 0 / m) (d ! 1 / m) (d ! 2 / m) (d ! 3 / m)"
  define t where "t = fabs (d ! 0 / m * (d ! 3 / m) - d ! 1 / m * (d ! 2 / m)) / s"
  have F: "CalcSingularvalue_2 d i =
     (if s = 0 then Inr 0
      else if t > s then (if i = 0 then Inr (t * m) else Inr (s * m))
      else if i = 0 then Inr (s * m) else Inr (t * m))" for i
    unfolding CalcSingularvalue_2_def Let_def m_def[symmetric] s_def[symmetric] fdiv_def t_def
    by simp
  show ?thesis
    unfolding F using m by (auto simp: mult_le_cancel_right)
qed

text \<open>
  In exact arithmetic the ordering holds: for a matrix object of order 2 or 3 (with its
  \<open>n * n\<close> entries stored), \<^verbatim>\<open>CalcEigenvalues\<close> returns an array \<open>lambda\<close> of \<open>n\<close>
  eigenvalues in non-decreasing order, and for indices \<open>0 \<le> i \<le> j < n\<close> the value of
  \<^verbatim>\<open>CalcSingularvalue(j)\<close> is at most that of \<^verbatim>\<open>CalcSingularvalue(i)\<close>. Symmetry of the
  input is not needed: the eigenvalue routine reads the upper triangle only.
\<close>

lemma results_are_ordered_in_exact_arithmetic:
  assumes sq: "Height M = Width M"
    and n: "Height M = 2 \<or> Height M = 3"
    and len: "nat (Height M * Height M) \<le> length (data M)"
  shows "(\<exists>lam vec. CalcEigenvalues dbg M = Inr (lam, vec) \<and> sorted lam \<and>
            int (length lam) = Height M) \<and>
         (\<forall>i j. 0 \<le> i \<and> i \<le> j \<and> j < Height M \<longrightarrow>
            (\<exists>si sj. CalcSingularvalue dbg M i = Inr si \<and> CalcSingularvalue dbg M j = Inr sj \<and>
               sj \<le> si))"
proof (intro conjI allI impI)
  from n show "\<exists>lam vec. CalcEigenvalues dbg M = Inr (lam, vec) \<and> sorted lam \<and>
            int (length lam) = Height M"
  proof
    assume h: "Height M = 2"
    then have l: "\<not> length (data M) < 4" using len by simp
    have "CalcEigenvalues dbg M = Inr (CalcEigenvalues_2 (data M))"
      unfolding CalcEigenvalues_def Let_def using h sq l by simp
    then have "CalcEigenvalues dbg M =
        Inr (fst (CalcEigenvalues_2 (data M)), snd (CalcEigenvalues_2 (data M)))" by simp
    moreover have "int (length (fst (CalcEigenvalues_2 (data M)))) = Height M"
      using CalcEigenvalues_2_sorted[of "data M"] h by simp
    ultimately show ?thesis using CalcEigenvalues_2_sorted[of "data M"] by blast
  next
    assume h: "Height M = 3"
    then have l: "\<not> length (data M) < 9" using len by simp
    have "CalcEigenvalues dbg M = Inr (CalcEigenvalues_3 (data M))"
      unfolding CalcEigenvalues_def Let_def using h sq l by simp
    then have "CalcEigenvalues dbg M =
        Inr (fst (CalcEigenvalues_3 (data M)), snd (CalcEigenvalues_3 (data M)))" by simp
    moreover have "int (length (fst (CalcEigenvalues_3 (data M)))) = Height M"
      using CalcEigenvalues_3_sorted[of "data M"] h by simp
    ultimately show ?thesis using CalcEigenvalues_3_sorted[of "data M"] by blast
  qed
next
  fix i j :: int
  assume ij: "0 \<le> i \<and> i \<le> j \<and> j < Height M"
  from n show "\<exists>si sj. CalcSingularvalue dbg M i = Inr si \<and> CalcSingularvalue dbg M j = Inr sj \<and>
               sj \<le> si"
  proof
    assume h: "Height M = 2"
    then have l: "\<not> length (data M) < 4" using len by simp
    have F: "CalcSingularvalue dbg M k = CalcSingularvalue_2 (data M) k" for k
      unfolding CalcSingularvalue_def Let_def using h sq l by simp
    from CalcSingularvalue_2_order[of "data M"] obtain s0 s1 where
      s: "CalcSingularvalue_2 (data M) 0 = Inr s0" "CalcSingularvalue_2 (data M) 1 = Inr s1" "s1 \<le> s0"
      by blast
    from ij h consider "i = 0" "j = 0" | "i = 0" "j = 1" | "i = 1" "j = 1" by force
    then show ?thesis
      unfolding F using s by cases simp_all
  next
    assume h: "Height M = 3"
    then have l: "\<not> length (data M) < 9" using len by simp
    have F: "CalcSingularvalue dbg M k = Inr (CalcSingularvalue_3 (data M) k)" for k
      unfolding CalcSingularvalue_def Let_def using h sq l by simp
    note O = CalcSingularvalue_3_order[of "data M"]
    have i: "i = 0 \<or> i = 1 \<or> i = 2" and j: "j = 0 \<or> j = 1 \<or> j = 2" using ij h by auto
    have "CalcSingularvalue_3 (data M) j \<le> CalcSingularvalue_3 (data M) i"
      using i j ij O by auto
    then show ?thesis unfolding F by simp
  qed
qed

subsubsection \<open>Rounding to binary64\<close>

text \<open>The value of \<^const>\<open>rnd\<close> at a number \<open>x\<close> with \<open>2^e \<le> |x| < 2^(e+1)\<close> is the multiple
  \<open>m * 2^(e-52)\<close> nearest to \<open>x\<close>; half-way between two multiples it is the even one. For a
  square root the bounds are checked on the squares.\<close>

lemma floor_log2:
  assumes "2 powi e \<le> x" "x < 2 powi (e + 1)"
  shows "\<lfloor>log 2 x\<rfloor> = e"
proof -
  have "(0::real) < 2 powi e" by simp
  then have p: "0 < x" using assms(1) by linarith
  have a: "2 powr real_of_int e = (2::real) powi e"
    "2 powr real_of_int (e + 1) = (2::real) powi (e + 1)"
    by (rule powr_real_of_int'; simp)+
  show ?thesis
    using assms floor_log_eq_powr_iff[of x 2 e] p unfolding a by simp
qed

lemma rne_value:
  assumes "of_int m - 1 / 2 < q" "q < of_int m + 1 / 2"
  shows "rne q = m"
proof (cases "of_int m \<le> q")
  case True
  have "\<lfloor>q\<rfloor> = m"
  proof (rule floor_unique)
    show "of_int m \<le> q" by (rule True)
    show "q < of_int m + 1" using assms(2) by linarith
  qed
  moreover have "q - of_int m < 1 / 2" using assms(2) by linarith
  ultimately show ?thesis by (simp add: rne_def Let_def)
next
  case False
  have f: "\<lfloor>q\<rfloor> = m - 1"
  proof (rule floor_unique)
    show "of_int (m - 1) \<le> q" using assms(1) by simp
    show "q < of_int (m - 1) + 1" using False by simp
  qed
  have a: "\<not> q - of_int (m - 1) < 1 / 2" using assms(1) by simp
  have b: "1 / 2 < q - of_int (m - 1)" using assms(1) by simp
  show ?thesis unfolding rne_def Let_def f using a b by simp
qed

lemma rnd_value:
  assumes "lo = 2 powi e" "u = 2 powi (e - 52)" "lo \<le> \<bar>x\<bar>" "\<bar>x\<bar> < 2 * lo"
    and "c - u / 2 < x" "x < c + u / 2" "c = of_int m * u"
  shows "rnd x = c"
proof -
  have lo: "0 < lo" unfolding assms(1) by simp
  have u: "0 < u" unfolding assms(2) by simp
  have x: "x \<noteq> 0" using lo assms(3) by auto
  have "2 powi (e + 1) = 2 * lo" unfolding assms(1) by (simp add: power_int_add)
  then have fl: "\<lfloor>log 2 \<bar>x\<bar>\<rfloor> = e"
    using floor_log2[of e "\<bar>x\<bar>"] assms(1,3,4) by simp
  have 1: "of_int m - 1 / 2 < x / u"
  proof -
    have "(of_int m - 1 / 2) * u < x" using assms(5) unfolding assms(7) by (simp add: algebra_simps)
    then show ?thesis using u by (simp add: pos_less_divide_eq)
  qed
  have 2: "x / u < of_int m + 1 / 2"
  proof -
    have "x < (of_int m + 1 / 2) * u" using assms(6) unfolding assms(7) by (simp add: algebra_simps)
    then show ?thesis using u by (simp add: pos_divide_less_eq)
  qed
  have "rne (x / u) = m" by (rule rne_value[OF 1 2])
  then show ?thesis unfolding rnd_def Let_def fl assms(2)[symmetric] assms(7) using x by simp
qed

lemma rnd_zero: "rnd 0 = 0" by (simp add: rnd_def)


lemma rnd_tie:
  assumes "lo = 2 powi e" "u = 2 powi (e - 52)" "lo \<le> \<bar>x\<bar>" "\<bar>x\<bar> < 2 * lo"
    and "x = (of_int f + 1 / 2) * u" "c = of_int (if even f then f else f + 1) * u"
  shows "rnd x = c"
proof -
  have lo: "0 < lo" unfolding assms(1) by simp
  have u: "0 < u" unfolding assms(2) by simp
  have x: "x \<noteq> 0" using lo assms(3) by auto
  have "2 powi (e + 1) = 2 * lo" unfolding assms(1) by (simp add: power_int_add)
  then have fl: "\<lfloor>log 2 \<bar>x\<bar>\<rfloor> = e"
    using floor_log2[of e "\<bar>x\<bar>"] assms(1,3,4) by simp
  have q: "x / u = of_int f + 1 / 2" using u unfolding assms(5) by simp
  have f: "\<lfloor>of_int f + (1 / 2 :: real)\<rfloor> = f" by (rule floor_unique) simp_all
  have "rne (x / u) = (if even f then f else f + 1)"
    unfolding q rne_def Let_def f by simp
  then show ?thesis unfolding rnd_def Let_def fl assms(2)[symmetric] assms(6) using x by simp
qed

lemma rnd_sqrt_value:
  assumes "lo = 2 powi e" "u = 2 powi (e - 52)" "lo * lo \<le> q" "q < (2 * lo) * (2 * lo)"
    and "0 \<le> c - u / 2" "(c - u / 2) * (c - u / 2) < q" "q < (c + u / 2) * (c + u / 2)"
    and "c = of_int m * u"
  shows "rnd (sqrt q) = c"
proof (rule rnd_value[OF assms(1,2) _ _ _ _ assms(8)])
  have lo: "0 < lo" unfolding assms(1) by simp
  have u: "0 < u" unfolding assms(2) by simp
  have q: "0 \<le> q" using assms(3) lo by (meson mult_nonneg_nonneg less_imp_le order_trans)
  have s: "0 \<le> sqrt q" using q by simp
  have "lo\<^sup>2 \<le> q" using assms(3) by (simp add: power2_eq_square)
  then have "lo \<le> sqrt q" by (rule real_le_rsqrt)
  then show "lo \<le> \<bar>sqrt q\<bar>" using s by simp
  have "q < (2 * lo)\<^sup>2" using assms(4) by (simp add: power2_eq_square)
  then have "sqrt q < 2 * lo" using lo by (intro real_less_lsqrt) simp_all
  then show "\<bar>sqrt q\<bar> < 2 * lo" using s by simp
  have "(c - u / 2)\<^sup>2 < q" using assms(6) by (simp add: power2_eq_square)
  then show "c - u / 2 < sqrt q" by (rule real_less_rsqrt)
  have "q < (c + u / 2)\<^sup>2" using assms(7) by (simp add: power2_eq_square)
  moreover have "0 \<le> c + u / 2" using assms(5) u by linarith
  ultimately show "sqrt q < c + u / 2" by (intro real_less_lsqrt) simp_all
qed

text \<open>With this congruence rule the simplifier evaluates the bound expression of a \<open>let\<close>
  before it looks at the body, as the code does.\<close>

lemma let_arg_cong: "a = b \<Longrightarrow> Let a t = Let b t"
  by simp

lemma GetScalingFactor_3: "GetScalingFactor 3 = 4"
  using GetScalingFactor_eq[of 3 1] by simp

subsubsection \<open>The rounded operations on the rank-one input\<close>

text \<open>The input is the 3x3 matrix of rank one with the columns \<open>(-1, 1, 1)\<close>,
  \<open>(3, -3, -3)\<close> and \<open>(-3, 3, 3)\<close>, stored as \<open>[-1, 1, 1, 3, -3, -3, -3, 3, 3]\<close>. The facts
  below are the rounded operations that the 3x3 branch of \<^verbatim>\<open>CalcSingularvalue\<close> performs
  on it for the indices 1 and 2, each with the exponent and the integer mantissa of its
  result, in the order of execution.\<close>

lemma b64_op_1: "div64 (- 1) 4 = - (1 / 4)"
  unfolding div64_def
  by (rule rnd_value[where e = "- 2" and m = "- 4503599627370496" and lo = "1 / 4"
        and u = "1 / 18014398509481984"]) simp_all

lemma b64_op_2: "div64 1 4 = 1 / 4"
  unfolding div64_def
  by (rule rnd_value[where e = "- 2" and m = "4503599627370496" and lo = "1 / 4"
        and u = "1 / 18014398509481984"]) simp_all

lemma b64_op_3: "div64 3 4 = 3 / 4"
  unfolding div64_def
  by (rule rnd_value[where e = "- 1" and m = "6755399441055744" and lo = "1 / 2"
        and u = "1 / 9007199254740992"]) simp_all

lemma b64_op_4: "div64 (- 3) 4 = - (3 / 4)"
  unfolding div64_def
  by (rule rnd_value[where e = "- 1" and m = "- 6755399441055744" and lo = "1 / 2"
        and u = "1 / 9007199254740992"]) simp_all

lemma b64_op_5: "mul64 (- (1 / 4)) (- (1 / 4)) = 1 / 16"
  unfolding mul64_def
  by (rule rnd_value[where e = "- 4" and m = "4503599627370496" and lo = "1 / 16"
        and u = "1 / 72057594037927936"]) simp_all

lemma b64_op_6: "mul64 (1 / 4) (1 / 4) = 1 / 16"
  unfolding mul64_def
  by (rule rnd_value[where e = "- 4" and m = "4503599627370496" and lo = "1 / 16"
        and u = "1 / 72057594037927936"]) simp_all

lemma b64_op_7: "add64 (1 / 16) (1 / 16) = 1 / 8"
  unfolding add64_def
  by (rule rnd_value[where e = "- 3" and m = "4503599627370496" and lo = "1 / 8"
        and u = "1 / 36028797018963968"]) simp_all

lemma b64_op_8: "add64 (1 / 8) (1 / 16) = 3 / 16"
  unfolding add64_def
  by (rule rnd_value[where e = "- 3" and m = "6755399441055744" and lo = "1 / 8"
        and u = "1 / 36028797018963968"]) simp_all

lemma b64_op_9: "mul64 (- (1 / 4)) (3 / 4) = - (3 / 16)"
  unfolding mul64_def
  by (rule rnd_value[where e = "- 3" and m = "- 6755399441055744" and lo = "1 / 8"
        and u = "1 / 36028797018963968"]) simp_all

lemma b64_op_10: "mul64 (1 / 4) (- (3 / 4)) = - (3 / 16)"
  unfolding mul64_def
  by (rule rnd_value[where e = "- 3" and m = "- 6755399441055744" and lo = "1 / 8"
        and u = "1 / 36028797018963968"]) simp_all

lemma b64_op_11: "add64 (- (3 / 16)) (- (3 / 16)) = - (3 / 8)"
  unfolding add64_def
  by (rule rnd_value[where e = "- 2" and m = "- 6755399441055744" and lo = "1 / 4"
        and u = "1 / 18014398509481984"]) simp_all

lemma b64_op_12: "add64 (- (3 / 8)) (- (3 / 16)) = - (9 / 16)"
  unfolding add64_def
  by (rule rnd_value[where e = "- 1" and m = "- 5066549580791808" and lo = "1 / 2"
        and u = "1 / 9007199254740992"]) simp_all

lemma b64_op_13: "mul64 (- (1 / 4)) (- (3 / 4)) = 3 / 16"
  unfolding mul64_def
  by (rule rnd_value[where e = "- 3" and m = "6755399441055744" and lo = "1 / 8"
        and u = "1 / 36028797018963968"]) simp_all

lemma b64_op_14: "mul64 (1 / 4) (3 / 4) = 3 / 16"
  unfolding mul64_def
  by (rule rnd_value[where e = "- 3" and m = "6755399441055744" and lo = "1 / 8"
        and u = "1 / 36028797018963968"]) simp_all

lemma b64_op_15: "add64 (3 / 16) (3 / 16) = 3 / 8"
  unfolding add64_def
  by (rule rnd_value[where e = "- 2" and m = "6755399441055744" and lo = "1 / 4"
        and u = "1 / 18014398509481984"]) simp_all

lemma b64_op_16: "add64 (3 / 8) (3 / 16) = 9 / 16"
  unfolding add64_def
  by (rule rnd_value[where e = "- 1" and m = "5066549580791808" and lo = "1 / 2"
        and u = "1 / 9007199254740992"]) simp_all

lemma b64_op_17: "mul64 (3 / 4) (3 / 4) = 9 / 16"
  unfolding mul64_def
  by (rule rnd_value[where e = "- 1" and m = "5066549580791808" and lo = "1 / 2"
        and u = "1 / 9007199254740992"]) simp_all

lemma b64_op_18: "mul64 (- (3 / 4)) (- (3 / 4)) = 9 / 16"
  unfolding mul64_def
  by (rule rnd_value[where e = "- 1" and m = "5066549580791808" and lo = "1 / 2"
        and u = "1 / 9007199254740992"]) simp_all

lemma b64_op_19: "add64 (9 / 16) (9 / 16) = 9 / 8"
  unfolding add64_def
  by (rule rnd_value[where e = "0" and m = "5066549580791808" and lo = "1"
        and u = "1 / 4503599627370496"]) simp_all

lemma b64_op_20: "add64 (9 / 8) (9 / 16) = 27 / 16"
  unfolding add64_def
  by (rule rnd_value[where e = "0" and m = "7599824371187712" and lo = "1"
        and u = "1 / 4503599627370496"]) simp_all

lemma b64_op_21: "mul64 (3 / 4) (- (3 / 4)) = - (9 / 16)"
  unfolding mul64_def
  by (rule rnd_value[where e = "- 1" and m = "- 5066549580791808" and lo = "1 / 2"
        and u = "1 / 9007199254740992"]) simp_all

lemma b64_op_22: "mul64 (- (3 / 4)) (3 / 4) = - (9 / 16)"
  unfolding mul64_def
  by (rule rnd_value[where e = "- 1" and m = "- 5066549580791808" and lo = "1 / 2"
        and u = "1 / 9007199254740992"]) simp_all

lemma b64_op_23: "add64 (- (9 / 16)) (- (9 / 16)) = - (9 / 8)"
  unfolding add64_def
  by (rule rnd_value[where e = "0" and m = "- 5066549580791808" and lo = "1"
        and u = "1 / 4503599627370496"]) simp_all

lemma b64_op_24: "add64 (- (9 / 8)) (- (9 / 16)) = - (27 / 16)"
  unfolding add64_def
  by (rule rnd_value[where e = "0" and m = "- 7599824371187712" and lo = "1"
        and u = "1 / 4503599627370496"]) simp_all

lemma b64_op_25: "add64 (3 / 16) (27 / 16) = 15 / 8"
  unfolding add64_def
  by (rule rnd_value[where e = "0" and m = "8444249301319680" and lo = "1"
        and u = "1 / 4503599627370496"]) simp_all

lemma b64_op_26: "add64 (15 / 8) (27 / 16) = 57 / 16"
  unfolding add64_def
  by (rule rnd_value[where e = "1" and m = "8022036836253696" and lo = "2"
        and u = "1 / 2251799813685248"]) simp_all

lemma b64_op_27: "div64 (57 / 16) 3 = 19 / 16"
  unfolding div64_def
  by (rule rnd_value[where e = "0" and m = "5348024557502464" and lo = "1"
        and u = "1 / 4503599627370496"]) simp_all

lemma b64_op_28: "sub64 (- (1 / 4)) (3 / 4) = - 1"
  unfolding sub64_def
  by (rule rnd_value[where e = "0" and m = "- 4503599627370496" and lo = "1"
        and u = "1 / 4503599627370496"]) simp_all

lemma b64_op_29: "add64 (- (1 / 4)) (3 / 4) = 1 / 2"
  unfolding add64_def
  by (rule rnd_value[where e = "- 1" and m = "4503599627370496" and lo = "1 / 2"
        and u = "1 / 9007199254740992"]) simp_all

lemma b64_op_30: "mul64 (- 1) (1 / 2) = - (1 / 2)"
  unfolding mul64_def
  by (rule rnd_value[where e = "- 1" and m = "- 4503599627370496" and lo = "1 / 2"
        and u = "1 / 9007199254740992"]) simp_all

lemma b64_op_31: "sub64 (1 / 4) (- (3 / 4)) = 1"
  unfolding sub64_def
  by (rule rnd_value[where e = "0" and m = "4503599627370496" and lo = "1"
        and u = "1 / 4503599627370496"]) simp_all

lemma b64_op_32: "add64 (1 / 4) (- (3 / 4)) = - (1 / 2)"
  unfolding add64_def
  by (rule rnd_value[where e = "- 1" and m = "- 4503599627370496" and lo = "1 / 2"
        and u = "1 / 9007199254740992"]) simp_all

lemma b64_op_33: "mul64 1 (- (1 / 2)) = - (1 / 2)"
  unfolding mul64_def
  by (rule rnd_value[where e = "- 1" and m = "- 4503599627370496" and lo = "1 / 2"
        and u = "1 / 9007199254740992"]) simp_all

lemma b64_op_34: "add64 (- (1 / 2)) (- (1 / 2)) = - 1"
  unfolding add64_def
  by (rule rnd_value[where e = "0" and m = "- 4503599627370496" and lo = "1"
        and u = "1 / 4503599627370496"]) simp_all

lemma b64_op_35: "add64 (- 1) (- (1 / 2)) = - (3 / 2)"
  unfolding add64_def
  by (rule rnd_value[where e = "0" and m = "- 6755399441055744" and lo = "1"
        and u = "1 / 4503599627370496"]) simp_all

lemma b64_op_36: "sub64 (3 / 4) (- (3 / 4)) = 3 / 2"
  unfolding sub64_def
  by (rule rnd_value[where e = "0" and m = "6755399441055744" and lo = "1"
        and u = "1 / 4503599627370496"]) simp_all

lemma b64_op_37: "add64 (3 / 4) (- (3 / 4)) = 0"
  by (simp add: add64_def rnd_zero)

lemma b64_op_38: "mul64 (3 / 2) 0 = 0"
  by (simp add: mul64_def rnd_zero)

lemma b64_op_39: "sub64 (- (3 / 4)) (3 / 4) = - (3 / 2)"
  unfolding sub64_def
  by (rule rnd_value[where e = "0" and m = "- 6755399441055744" and lo = "1"
        and u = "1 / 4503599627370496"]) simp_all

lemma b64_op_40: "add64 (- (3 / 4)) (3 / 4) = 0"
  by (simp add: add64_def rnd_zero)

lemma b64_op_41: "mul64 (- (3 / 2)) 0 = 0"
  by (simp add: mul64_def rnd_zero)

lemma b64_op_42: "add64 0 0 = 0"
  by (simp add: add64_def rnd_zero)

lemma b64_op_43: "sub64 (- (3 / 4)) (- (1 / 4)) = - (1 / 2)"
  unfolding sub64_def
  by (rule rnd_value[where e = "- 1" and m = "- 4503599627370496" and lo = "1 / 2"
        and u = "1 / 9007199254740992"]) simp_all

lemma b64_op_44: "add64 (- (3 / 4)) (- (1 / 4)) = - 1"
  unfolding add64_def
  by (rule rnd_value[where e = "0" and m = "- 4503599627370496" and lo = "1"
        and u = "1 / 4503599627370496"]) simp_all

lemma b64_op_45: "mul64 (- (1 / 2)) (- 1) = 1 / 2"
  unfolding mul64_def
  by (rule rnd_value[where e = "- 1" and m = "4503599627370496" and lo = "1 / 2"
        and u = "1 / 9007199254740992"]) simp_all

lemma b64_op_46: "sub64 (3 / 4) (1 / 4) = 1 / 2"
  unfolding sub64_def
  by (rule rnd_value[where e = "- 1" and m = "4503599627370496" and lo = "1 / 2"
        and u = "1 / 9007199254740992"]) simp_all

lemma b64_op_47: "add64 (3 / 4) (1 / 4) = 1"
  unfolding add64_def
  by (rule rnd_value[where e = "0" and m = "4503599627370496" and lo = "1"
        and u = "1 / 4503599627370496"]) simp_all

lemma b64_op_48: "mul64 (1 / 2) 1 = 1 / 2"
  unfolding mul64_def
  by (rule rnd_value[where e = "- 1" and m = "4503599627370496" and lo = "1 / 2"
        and u = "1 / 9007199254740992"]) simp_all

lemma b64_op_49: "add64 (1 / 2) (1 / 2) = 1"
  unfolding add64_def
  by (rule rnd_value[where e = "0" and m = "4503599627370496" and lo = "1"
        and u = "1 / 4503599627370496"]) simp_all

lemma b64_op_50: "add64 1 (1 / 2) = 3 / 2"
  unfolding add64_def
  by (rule rnd_value[where e = "0" and m = "6755399441055744" and lo = "1"
        and u = "1 / 4503599627370496"]) simp_all

lemma b64_op_51: "sub64 (- (3 / 2)) (3 / 2) = - 3"
  unfolding sub64_def
  by (rule rnd_value[where e = "1" and m = "- 6755399441055744" and lo = "2"
        and u = "1 / 2251799813685248"]) simp_all

lemma b64_op_52: "div64 (- 3) 3 = - 1"
  unfolding div64_def
  by (rule rnd_value[where e = "0" and m = "- 4503599627370496" and lo = "1"
        and u = "1 / 4503599627370496"]) simp_all

lemma b64_op_53: "sub64 0 (- (3 / 2)) = 3 / 2"
  unfolding sub64_def
  by (rule rnd_value[where e = "0" and m = "6755399441055744" and lo = "1"
        and u = "1 / 4503599627370496"]) simp_all

lemma b64_op_54: "div64 (3 / 2) 3 = 1 / 2"
  unfolding div64_def
  by (rule rnd_value[where e = "- 1" and m = "4503599627370496" and lo = "1 / 2"
        and u = "1 / 9007199254740992"]) simp_all

lemma b64_op_55: "sub64 (3 / 2) 0 = 3 / 2"
  unfolding sub64_def
  by (rule rnd_value[where e = "0" and m = "6755399441055744" and lo = "1"
        and u = "1 / 4503599627370496"]) simp_all

lemma b64_op_56: "mul64 (- (9 / 16)) (- (9 / 16)) = 81 / 256"
  unfolding mul64_def
  by (rule rnd_value[where e = "- 2" and m = "5699868278390784" and lo = "1 / 4"
        and u = "1 / 18014398509481984"]) simp_all

lemma b64_op_57: "mul64 (9 / 16) (9 / 16) = 81 / 256"
  unfolding mul64_def
  by (rule rnd_value[where e = "- 2" and m = "5699868278390784" and lo = "1 / 4"
        and u = "1 / 18014398509481984"]) simp_all

lemma b64_op_58: "add64 (81 / 256) (81 / 256) = 81 / 128"
  unfolding add64_def
  by (rule rnd_value[where e = "- 1" and m = "5699868278390784" and lo = "1 / 2"
        and u = "1 / 9007199254740992"]) simp_all

lemma b64_op_59: "mul64 (- (27 / 16)) (- (27 / 16)) = 729 / 256"
  unfolding mul64_def
  by (rule rnd_value[where e = "1" and m = "6412351813189632" and lo = "2"
        and u = "1 / 2251799813685248"]) simp_all

lemma b64_op_60: "add64 (81 / 128) (729 / 256) = 891 / 256"
  unfolding add64_def
  by (rule rnd_value[where e = "1" and m = "7837318882787328" and lo = "2"
        and u = "1 / 2251799813685248"]) simp_all

lemma b64_op_61: "mul64 2 (891 / 256) = 891 / 128"
  unfolding mul64_def
  by (rule rnd_value[where e = "2" and m = "7837318882787328" and lo = "4"
        and u = "1 / 1125899906842624"]) simp_all

lemma b64_op_62: "mul64 (- 1) (- 1) = 1"
  unfolding mul64_def
  by (rule rnd_value[where e = "0" and m = "4503599627370496" and lo = "1"
        and u = "1 / 4503599627370496"]) simp_all

lemma b64_op_63: "add64 (891 / 128) 1 = 1019 / 128"
  unfolding add64_def
  by (rule rnd_value[where e = "2" and m = "8963218789629952" and lo = "4"
        and u = "1 / 1125899906842624"]) simp_all

lemma b64_op_64: "mul64 (1 / 2) (1 / 2) = 1 / 4"
  unfolding mul64_def
  by (rule rnd_value[where e = "- 2" and m = "4503599627370496" and lo = "1 / 4"
        and u = "1 / 18014398509481984"]) simp_all

lemma b64_op_65: "add64 (1019 / 128) (1 / 4) = 1051 / 128"
  unfolding add64_def
  by (rule rnd_value[where e = "3" and m = "4622346883170304" and lo = "8"
        and u = "1 / 562949953421312"]) simp_all

lemma b64_op_66: "add64 (1051 / 128) (1 / 4) = 1083 / 128"
  unfolding add64_def
  by (rule rnd_value[where e = "3" and m = "4763084371525632" and lo = "8"
        and u = "1 / 562949953421312"]) simp_all

lemma b64_op_67: "div64 (1083 / 128) 6 = 361 / 256"
  unfolding div64_def
  by (rule rnd_value[where e = "0" and m = "6350779162034176" and lo = "1"
        and u = "1 / 4503599627370496"]) simp_all

lemma b64_op_68: "sub64 (729 / 256) (1 / 4) = 665 / 256"
  unfolding sub64_def
  by (rule rnd_value[where e = "1" and m = "5849401859768320" and lo = "2"
        and u = "1 / 2251799813685248"]) simp_all

lemma b64_op_69: "mul64 (- 1) (665 / 256) = - (665 / 256)"
  unfolding mul64_def
  by (rule rnd_value[where e = "1" and m = "- 5849401859768320" and lo = "2"
        and u = "1 / 2251799813685248"]) simp_all

lemma b64_op_70: "mul64 (- (9 / 16)) (1 / 2) = - (9 / 32)"
  unfolding mul64_def
  by (rule rnd_value[where e = "- 2" and m = "- 5066549580791808" and lo = "1 / 4"
        and u = "1 / 18014398509481984"]) simp_all

lemma b64_op_71: "mul64 2 (9 / 16) = 9 / 8"
  unfolding mul64_def
  by (rule rnd_value[where e = "0" and m = "5066549580791808" and lo = "1"
        and u = "1 / 4503599627370496"]) simp_all

lemma b64_op_72: "mul64 (9 / 8) (- (27 / 16)) = - (243 / 128)"
  unfolding mul64_def
  by (rule rnd_value[where e = "0" and m = "- 8549802417586176" and lo = "1"
        and u = "1 / 4503599627370496"]) simp_all

lemma b64_op_73: "sub64 (- (9 / 32)) (- (243 / 128)) = 207 / 128"
  unfolding sub64_def
  by (rule rnd_value[where e = "0" and m = "7283165022388224" and lo = "1"
        and u = "1 / 4503599627370496"]) simp_all

lemma b64_op_74: "mul64 (- (9 / 16)) (207 / 128) = - (1863 / 2048)"
  unfolding mul64_def
  by (rule rnd_value[where e = "- 1" and m = "- 8193560650186752" and lo = "1 / 2"
        and u = "1 / 9007199254740992"]) simp_all

lemma b64_op_75: "add64 (- (665 / 256)) (- (1863 / 2048)) = - (7183 / 2048)"
  unfolding add64_def
  by (rule rnd_value[where e = "1" and m = "- 7897792022315008" and lo = "2"
        and u = "1 / 2251799813685248"]) simp_all

lemma b64_op_76: "mul64 (81 / 256) (1 / 2) = 81 / 512"
  unfolding mul64_def
  by (rule rnd_value[where e = "- 3" and m = "5699868278390784" and lo = "1 / 8"
        and u = "1 / 36028797018963968"]) simp_all

lemma b64_op_77: "add64 (- (7183 / 2048)) (81 / 512) = - (6859 / 2048)"
  unfolding add64_def
  by (rule rnd_value[where e = "1" and m = "- 7541550254915584" and lo = "2"
        and u = "1 / 2251799813685248"]) simp_all

lemma b64_op_78: "div64 (- (6859 / 2048)) 2 = - (6859 / 4096)"
  unfolding div64_def
  by (rule rnd_value[where e = "0" and m = "- 7541550254915584" and lo = "1"
        and u = "1 / 4503599627370496"]) simp_all

lemma b64_op_79: "sqrt64 (361 / 256) = 19 / 16"
  unfolding sqrt64_def
  by (rule rnd_sqrt_value[where e = "0" and m = "5348024557502464" and lo = "1"
        and u = "1 / 4503599627370496"]) simp_all

lemma b64_op_80: "mul64 (361 / 256) (19 / 16) = 6859 / 4096"
  unfolding mul64_def
  by (rule rnd_value[where e = "0" and m = "7541550254915584" and lo = "1"
        and u = "1 / 4503599627370496"]) simp_all

lemma b64_op_81: "mul64 2 (19 / 16) = 19 / 8"
  unfolding mul64_def
  by (rule rnd_value[where e = "1" and m = "5348024557502464" and lo = "2"
        and u = "1 / 2251799813685248"]) simp_all

lemma b64_op_82: "sub64 (- 1) (19 / 8) = - (27 / 8)"
  unfolding sub64_def
  by (rule rnd_value[where e = "1" and m = "- 7599824371187712" and lo = "2"
        and u = "1 / 2251799813685248"]) simp_all

lemma b64_op_83: "sub64 (1 / 2) (19 / 8) = - (15 / 8)"
  unfolding sub64_def
  by (rule rnd_value[where e = "0" and m = "- 8444249301319680" and lo = "1"
        and u = "1 / 4503599627370496"]) simp_all

lemma b64_op_84: "add64 (27 / 8) (9 / 16) = 63 / 16"
  unfolding add64_def
  by (rule rnd_value[where e = "1" and m = "8866461766385664" and lo = "2"
        and u = "1 / 2251799813685248"]) simp_all

lemma b64_op_85: "add64 (63 / 16) (9 / 16) = 9 / 2"
  unfolding add64_def
  by (rule rnd_value[where e = "2" and m = "5066549580791808" and lo = "4"
        and u = "1 / 1125899906842624"]) simp_all

lemma b64_op_86: "add64 (15 / 8) (9 / 16) = 39 / 16"
  unfolding add64_def
  by (rule rnd_value[where e = "1" and m = "5488762045857792" and lo = "2"
        and u = "1 / 2251799813685248"]) simp_all

lemma b64_op_87: "add64 (39 / 16) (27 / 16) = 33 / 8"
  unfolding add64_def
  by (rule rnd_value[where e = "2" and m = "4644337115725824" and lo = "4"
        and u = "1 / 1125899906842624"]) simp_all

lemma b64_op_88: "hypot64 (- (9 / 16)) (9 / 16) = 3582591565795747 / 4503599627370496"
  unfolding hypot64_def
  by (rule rnd_sqrt_value[where e = "- 1" and m = "7165183131591494" and lo = "1 / 2"
        and u = "1 / 9007199254740992"]) simp_all

lemma b64_op_89:
  "hypot64 (- (27 / 8)) (3582591565795747 / 4503599627370496) =
     7808077295642405 / 2251799813685248"
  unfolding hypot64_def
  by (rule rnd_sqrt_value[where e = "1" and m = "7808077295642405" and lo = "2"
        and u = "1 / 2251799813685248"]) simp_all

lemma b64_op_90:
  "add64 (- (27 / 8)) (- (7808077295642405 / 2251799813685248)) =
     - (3851975416707529 / 562949953421312)"
  unfolding add64_def
  by (rule rnd_tie[where e = "2" and f = "- 7703950833415059" and lo = "4"
        and u = "1 / 1125899906842624"]) simp_all

lemma b64_op_91:
  "div64 (3582591565795747 / 4503599627370496) (- (3851975416707529 / 562949953421312)) =
     - (8377290244769735 / 72057594037927936)"
  unfolding div64_def
  by (rule rnd_value[where e = "- 4" and m = "- 8377290244769735" and lo = "1 / 16"
        and u = "1 / 72057594037927936"]) simp_all

lemma b64_op_92:
  "mul64 (- (3582591565795747 / 4503599627370496))
     (- (8377290244769735 / 72057594037927936)) =
     3332046791275083 / 36028797018963968"
  unfolding mul64_def
  by (rule rnd_value[where e = "- 4" and m = "6664093582550166" and lo = "1 / 16"
        and u = "1 / 72057594037927936"]) simp_all

lemma b64_op_93:
  "div64 (3332046791275083 / 36028797018963968) (- (9 / 16)) =
     - (370227421252787 / 2251799813685248)"
  unfolding div64_def
  by (rule rnd_value[where e = "- 3" and m = "- 5923638740044592" and lo = "1 / 8"
        and u = "1 / 36028797018963968"]) simp_all

lemma b64_op_94: "div64 (9 / 16) (- (9 / 16)) = - 1"
  unfolding div64_def
  by (rule rnd_value[where e = "0" and m = "- 4503599627370496" and lo = "1"
        and u = "1 / 4503599627370496"]) simp_all

lemma b64_op_95:
  "mul64 (- (370227421252787 / 2251799813685248)) (- (370227421252787 / 2251799813685248)) =
     1947858314785671 / 72057594037927936"
  unfolding mul64_def
  by (rule rnd_value[where e = "- 6" and m = "7791433259142684" and lo = "1 / 64"
        and u = "1 / 288230376151711744"]) simp_all

lemma b64_op_96:
  "add64 1 (1947858314785671 / 72057594037927936) =
     578167596505575 / 562949953421312"
  unfolding add64_def
  by (rule rnd_value[where e = "0" and m = "4625340772044600" and lo = "1"
        and u = "1 / 4503599627370496"]) simp_all

lemma b64_op_97:
  "add64 (578167596505575 / 562949953421312) 1 =
     1141117549926887 / 562949953421312"
  unfolding add64_def
  by (rule rnd_value[where e = "1" and m = "4564470199707548" and lo = "2"
        and u = "1 / 2251799813685248"]) simp_all

lemma b64_op_98:
  "div64 2 (1141117549926887 / 562949953421312) =
     8887081617906583 / 9007199254740992"
  unfolding div64_def
  by (rule rnd_value[where e = "- 1" and m = "8887081617906583" and lo = "1 / 2"
        and u = "1 / 9007199254740992"]) simp_all

lemma b64_op_99:
  "mul64 (- (370227421252787 / 2251799813685248)) (- (9 / 16)) =
     3332046791275083 / 36028797018963968"
  unfolding mul64_def
  by (rule rnd_value[where e = "- 4" and m = "6664093582550166" and lo = "1 / 16"
        and u = "1 / 72057594037927936"]) simp_all

lemma b64_op_100:
  "add64 (3332046791275083 / 36028797018963968) (- (15 / 8)) =
     - (8027743452410295 / 4503599627370496)"
  unfolding add64_def
  by (rule rnd_value[where e = "0" and m = "- 8027743452410295" and lo = "1"
        and u = "1 / 4503599627370496"]) simp_all

lemma b64_op_101: "mul64 (- 1) (- (27 / 16)) = 27 / 16"
  unfolding mul64_def
  by (rule rnd_value[where e = "0" and m = "7599824371187712" and lo = "1"
        and u = "1 / 4503599627370496"]) simp_all

lemma b64_op_102:
  "add64 (- (8027743452410295 / 4503599627370496)) (27 / 16) =
     - (427919081222583 / 4503599627370496)"
  unfolding add64_def
  by (rule rnd_value[where e = "- 4" and m = "- 6846705299561328" and lo = "1 / 16"
        and u = "1 / 72057594037927936"]) simp_all

lemma b64_op_103:
  "mul64 (8887081617906583 / 9007199254740992) (- (427919081222583 / 4503599627370496)) =
     - (3377699720527875 / 36028797018963968)"
  unfolding mul64_def
  by (rule rnd_value[where e = "- 4" and m = "- 6755399441055750" and lo = "1 / 16"
        and u = "1 / 72057594037927936"]) simp_all

lemma b64_op_104:
  "mul64 (- (370227421252787 / 2251799813685248)) (9 / 16) =
     - (3332046791275083 / 36028797018963968)"
  unfolding mul64_def
  by (rule rnd_value[where e = "- 4" and m = "- 6664093582550166" and lo = "1 / 16"
        and u = "1 / 72057594037927936"]) simp_all

lemma b64_op_105:
  "add64 (- (3332046791275083 / 36028797018963968)) (- (27 / 16)) =
     - (8016330220097097 / 4503599627370496)"
  unfolding add64_def
  by (rule rnd_value[where e = "0" and m = "- 8016330220097097" and lo = "1"
        and u = "1 / 4503599627370496"]) simp_all

lemma b64_op_106: "mul64 (- 1) (- (15 / 8)) = 15 / 8"
  unfolding mul64_def
  by (rule rnd_value[where e = "0" and m = "8444249301319680" and lo = "1"
        and u = "1 / 4503599627370496"]) simp_all

lemma b64_op_107:
  "add64 (- (8016330220097097 / 4503599627370496)) (15 / 8) =
     427919081222583 / 4503599627370496"
  unfolding add64_def
  by (rule rnd_value[where e = "- 4" and m = "6846705299561328" and lo = "1 / 16"
        and u = "1 / 72057594037927936"]) simp_all

lemma b64_op_108:
  "mul64 (8887081617906583 / 9007199254740992) (427919081222583 / 4503599627370496) =
     3377699720527875 / 36028797018963968"
  unfolding mul64_def
  by (rule rnd_value[where e = "- 4" and m = "6755399441055750" and lo = "1 / 16"
        and u = "1 / 72057594037927936"]) simp_all

lemma b64_op_109: "sub64 (- (15 / 8)) (- (3377699720527875 / 36028797018963968)) = - (57 / 32)"
  unfolding sub64_def
  by (rule rnd_value[where e = "0" and m = "- 8022036836253696" and lo = "1"
        and u = "1 / 4503599627370496"]) simp_all

lemma b64_op_110:
  "mul64 (- 1) (3377699720527875 / 36028797018963968) =
     - (3377699720527875 / 36028797018963968)"
  unfolding mul64_def
  by (rule rnd_value[where e = "- 4" and m = "- 6755399441055750" and lo = "1 / 16"
        and u = "1 / 72057594037927936"]) simp_all

lemma b64_op_111:
  "mul64 (- (370227421252787 / 2251799813685248)) (- (3377699720527875 / 36028797018963968)) =
     555341131879181 / 36028797018963968"
  unfolding mul64_def
  by (rule rnd_value[where e = "- 7" and m = "8885458110066896" and lo = "1 / 128"
        and u = "1 / 576460752303423488"]) simp_all

lemma b64_op_112:
  "sub64 (- (9 / 16)) (555341131879181 / 36028797018963968) =
     - (5205384863761603 / 9007199254740992)"
  unfolding sub64_def
  by (rule rnd_value[where e = "- 1" and m = "- 5205384863761603" and lo = "1 / 2"
        and u = "1 / 9007199254740992"]) simp_all

lemma b64_op_113:
  "mul64 (- (370227421252787 / 2251799813685248)) (3377699720527875 / 36028797018963968) =
     - (555341131879181 / 36028797018963968)"
  unfolding mul64_def
  by (rule rnd_value[where e = "- 7" and m = "- 8885458110066896" and lo = "1 / 128"
        and u = "1 / 576460752303423488"]) simp_all

lemma b64_op_114:
  "sub64 (9 / 16) (- (555341131879181 / 36028797018963968)) =
     5205384863761603 / 9007199254740992"
  unfolding sub64_def
  by (rule rnd_value[where e = "- 1" and m = "5205384863761603" and lo = "1 / 2"
        and u = "1 / 9007199254740992"]) simp_all

lemma b64_op_115: "sub64 (- (27 / 16)) (3377699720527875 / 36028797018963968) = - (57 / 32)"
  unfolding sub64_def
  by (rule rnd_value[where e = "0" and m = "- 8022036836253696" and lo = "1"
        and u = "1 / 4503599627370496"]) simp_all

lemma b64_op_116:
  "mul64 (- 1) (- (3377699720527875 / 36028797018963968)) =
     3377699720527875 / 36028797018963968"
  unfolding mul64_def
  by (rule rnd_value[where e = "- 4" and m = "6755399441055750" and lo = "1 / 16"
        and u = "1 / 72057594037927936"]) simp_all

lemma b64_op_117: "add64 (57 / 32) (57 / 32) = 57 / 16"
  unfolding add64_def
  by (rule rnd_value[where e = "1" and m = "8022036836253696" and lo = "2"
        and u = "1 / 2251799813685248"]) simp_all

lemma b64_op_118: "hypot64 (- (57 / 32)) (- (57 / 32)) = 2836218322921633 / 1125899906842624"
  unfolding hypot64_def
  by (rule rnd_sqrt_value[where e = "1" and m = "5672436645843266" and lo = "2"
        and u = "1 / 2251799813685248"]) simp_all

lemma b64_op_119:
  "add64 (- (57 / 32)) (- (2836218322921633 / 1125899906842624)) =
     - (4841727531985057 / 1125899906842624)"
  unfolding add64_def
  by (rule rnd_value[where e = "2" and m = "- 4841727531985057" and lo = "4"
        and u = "1 / 1125899906842624"]) simp_all

lemma b64_op_120:
  "div64 (- (57 / 32)) (- (4841727531985057 / 1125899906842624)) =
     3730904090310553 / 9007199254740992"
  unfolding div64_def
  by (rule rnd_value[where e = "- 2" and m = "7461808180621106" and lo = "1 / 4"
        and u = "1 / 18014398509481984"]) simp_all

lemma b64_op_121:
  "mul64 (57 / 32) (3730904090310553 / 9007199254740992) =
     6645672910865673 / 9007199254740992"
  unfolding mul64_def
  by (rule rnd_value[where e = "- 1" and m = "6645672910865673" and lo = "1 / 2"
        and u = "1 / 9007199254740992"]) simp_all

lemma b64_op_122:
  "div64 (6645672910865673 / 9007199254740992) (- (57 / 32)) =
     - (7461808180621107 / 18014398509481984)"
  unfolding div64_def
  by (rule rnd_value[where e = "- 2" and m = "- 7461808180621107" and lo = "1 / 4"
        and u = "1 / 18014398509481984"]) simp_all

lemma b64_op_123:
  "mul64 (- (7461808180621107 / 18014398509481984))
     (- (7461808180621107 / 18014398509481984)) =
     772695537059943 / 4503599627370496"
  unfolding mul64_def
  by (rule rnd_value[where e = "- 3" and m = "6181564296479544" and lo = "1 / 8"
        and u = "1 / 36028797018963968"]) simp_all

lemma b64_op_124:
  "add64 1 (772695537059943 / 4503599627370496) =
     5276295164430439 / 4503599627370496"
  unfolding add64_def
  by (rule rnd_value[where e = "0" and m = "5276295164430439" and lo = "1"
        and u = "1 / 4503599627370496"]) simp_all

lemma b64_op_125:
  "div64 2 (5276295164430439 / 4503599627370496) =
     3844062731816691 / 2251799813685248"
  unfolding div64_def
  by (rule rnd_value[where e = "0" and m = "7688125463633382" and lo = "1"
        and u = "1 / 4503599627370496"]) simp_all

lemma b64_op_126:
  "mul64 (- (7461808180621107 / 18014398509481984)) (- (57 / 32)) =
     6645672910865673 / 9007199254740992"
  unfolding mul64_def
  by (rule rnd_value[where e = "- 1" and m = "6645672910865673" and lo = "1 / 2"
        and u = "1 / 9007199254740992"]) simp_all

lemma b64_op_127:
  "add64 (6645672910865673 / 9007199254740992) (- (57 / 32)) =
     - (1174800095205215 / 1125899906842624)"
  unfolding add64_def
  by (rule rnd_tie[where e = "0" and f = "- 4699200380820860" and lo = "1"
        and u = "1 / 4503599627370496"]) simp_all

lemma b64_op_128:
  "mul64 (3844062731816691 / 2251799813685248) (- (1174800095205215 / 1125899906842624)) =
     - (57 / 32)"
  unfolding mul64_def
  by (rule rnd_value[where e = "0" and m = "- 8022036836253696" and lo = "1"
        and u = "1 / 4503599627370496"]) simp_all

lemma b64_op_129: "sub64 (- (57 / 32)) (- (57 / 32)) = 0"
  by (simp add: sub64_def rnd_zero)

lemma b64_op_130:
  "mul64 (- (57 / 32)) (- (7461808180621107 / 18014398509481984)) =
     6645672910865673 / 9007199254740992"
  unfolding mul64_def
  by (rule rnd_value[where e = "- 1" and m = "6645672910865673" and lo = "1 / 2"
        and u = "1 / 9007199254740992"]) simp_all

lemma b64_op_131:
  "sub64 (- (57 / 32)) (6645672910865673 / 9007199254740992) =
     - (2836218322921633 / 1125899906842624)"
  unfolding sub64_def
  by (rule rnd_value[where e = "1" and m = "- 5672436645843266" and lo = "2"
        and u = "1 / 2251799813685248"]) simp_all

lemma b64_op_132:
  "div64 (2836218322921633 / 1125899906842624) (- (2836218322921633 / 1125899906842624)) =
     - 1"
  unfolding div64_def
  by (rule rnd_value[where e = "0" and m = "- 4503599627370496" and lo = "1"
        and u = "1 / 4503599627370496"]) simp_all

lemma b64_op_133: "add64 1 1 = 2"
  unfolding add64_def
  by (rule rnd_value[where e = "1" and m = "4503599627370496" and lo = "2"
        and u = "1 / 2251799813685248"]) simp_all

lemma b64_op_134: "div64 1 2 = 1 / 2"
  unfolding div64_def
  by (rule rnd_value[where e = "- 1" and m = "4503599627370496" and lo = "1 / 2"
        and u = "1 / 9007199254740992"]) simp_all

lemma b64_op_135: "mul64 (1 / 2) 0 = 0"
  by (simp add: mul64_def rnd_zero)

lemma b64_op_136:
  "mul64 (- (5205384863761603 / 9007199254740992)) (- (1 / 2)) =
     5205384863761603 / 18014398509481984"
  unfolding mul64_def
  by (rule rnd_value[where e = "- 2" and m = "5205384863761603" and lo = "1 / 4"
        and u = "1 / 18014398509481984"]) simp_all

lemma b64_op_137:
  "mul64 (5205384863761603 / 9007199254740992) (1 / 2) =
     5205384863761603 / 18014398509481984"
  unfolding mul64_def
  by (rule rnd_value[where e = "- 2" and m = "5205384863761603" and lo = "1 / 4"
        and u = "1 / 18014398509481984"]) simp_all

lemma b64_op_138:
  "add64 (5205384863761603 / 18014398509481984) (5205384863761603 / 18014398509481984) =
     5205384863761603 / 9007199254740992"
  unfolding add64_def
  by (rule rnd_value[where e = "- 1" and m = "5205384863761603" and lo = "1 / 2"
        and u = "1 / 9007199254740992"]) simp_all

lemma b64_op_139:
  "div64 (- (5205384863761603 / 9007199254740992)) (- (7808077295642405 / 2251799813685248)) =
     6004799503160661 / 36028797018963968"
  unfolding div64_def
  by (rule rnd_value[where e = "- 3" and m = "6004799503160661" and lo = "1 / 8"
        and u = "1 / 36028797018963968"]) simp_all

lemma b64_op_140:
  "div64 (6004799503160661 / 36028797018963968) (1 / 2) =
     6004799503160661 / 18014398509481984"
  unfolding div64_def
  by (rule rnd_value[where e = "- 2" and m = "6004799503160661" and lo = "1 / 4"
        and u = "1 / 18014398509481984"]) simp_all

lemma b64_op_141:
  "mul64 (6004799503160661 / 18014398509481984) (6004799503160661 / 18014398509481984) =
     2001599834386887 / 18014398509481984"
  unfolding mul64_def
  by (rule rnd_value[where e = "- 4" and m = "8006399337547548" and lo = "1 / 16"
        and u = "1 / 72057594037927936"]) simp_all

lemma b64_op_142:
  "add64 1 (2001599834386887 / 18014398509481984) =
     2501999792983609 / 2251799813685248"
  unfolding add64_def
  by (rule rnd_value[where e = "0" and m = "5003999585967218" and lo = "1"
        and u = "1 / 4503599627370496"]) simp_all

lemma b64_op_143: "div64 (1 / 2) (1 / 2) = 1"
  unfolding div64_def
  by (rule rnd_value[where e = "0" and m = "4503599627370496" and lo = "1"
        and u = "1 / 4503599627370496"]) simp_all

lemma b64_op_144: "mul64 1 1 = 1"
  unfolding mul64_def
  by (rule rnd_value[where e = "0" and m = "4503599627370496" and lo = "1"
        and u = "1 / 4503599627370496"]) simp_all

lemma b64_op_145:
  "add64 (2501999792983609 / 2251799813685248) 1 =
     4753799606668857 / 2251799813685248"
  unfolding add64_def
  by (rule rnd_value[where e = "1" and m = "4753799606668857" and lo = "2"
        and u = "1 / 2251799813685248"]) simp_all

lemma b64_op_146:
  "div64 1 (4753799606668857 / 2251799813685248) =
     8533136136070413 / 18014398509481984"
  unfolding div64_def
  by (rule rnd_value[where e = "- 2" and m = "8533136136070413" and lo = "1 / 4"
        and u = "1 / 18014398509481984"]) simp_all

lemma b64_op_147:
  "sqrt64 (8533136136070413 / 18014398509481984) =
     6199179681434345 / 9007199254740992"
  unfolding sqrt64_def
  by (rule rnd_sqrt_value[where e = "- 1" and m = "6199179681434345" and lo = "1 / 2"
        and u = "1 / 9007199254740992"]) simp_all

lemma b64_op_148:
  "div64 (6199179681434345 / 9007199254740992) (1 / 2) =
     6199179681434345 / 4503599627370496"
  unfolding div64_def
  by (rule rnd_value[where e = "0" and m = "6199179681434345" and lo = "1"
        and u = "1 / 4503599627370496"]) simp_all

lemma b64_op_149:
  "mul64 (6004799503160661 / 36028797018963968) (6199179681434345 / 4503599627370496) =
     4132786454289563 / 18014398509481984"
  unfolding mul64_def
  by (rule rnd_value[where e = "- 3" and m = "8265572908579126" and lo = "1 / 8"
        and u = "1 / 36028797018963968"]) simp_all

lemma b64_op_150:
  "mul64 (1 / 2) (6199179681434345 / 4503599627370496) =
     6199179681434345 / 9007199254740992"
  unfolding mul64_def
  by (rule rnd_value[where e = "- 1" and m = "6199179681434345" and lo = "1 / 2"
        and u = "1 / 9007199254740992"]) simp_all

lemma b64_op_151:
  "hypot64 (4132786454289563 / 18014398509481984) (6199179681434345 / 9007199254740992) =
     6534509139323187 / 9007199254740992"
  unfolding hypot64_def
  by (rule rnd_sqrt_value[where e = "- 1" and m = "6534509139323187" and lo = "1 / 2"
        and u = "1 / 9007199254740992"]) simp_all

lemma b64_op_152:
  "add64 (- (6199179681434345 / 9007199254740992)) (- 1) =
     - (1900797367021917 / 1125899906842624)"
  unfolding add64_def
  by (rule rnd_tie[where e = "0" and f = "- 7603189468087669" and lo = "1"
        and u = "1 / 4503599627370496"]) simp_all

lemma b64_op_153:
  "div64 (6534509139323187 / 9007199254740992) (- (1900797367021917 / 1125899906842624)) =
     - (3870587869528241 / 9007199254740992)"
  unfolding div64_def
  by (rule rnd_value[where e = "- 2" and m = "- 7741175739056482" and lo = "1 / 4"
        and u = "1 / 18014398509481984"]) simp_all

lemma b64_op_154:
  "mul64 (- (6534509139323187 / 9007199254740992)) (- (3870587869528241 / 9007199254740992)) =
     5616039146613295 / 18014398509481984"
  unfolding mul64_def
  by (rule rnd_value[where e = "- 2" and m = "5616039146613295" and lo = "1 / 4"
        and u = "1 / 18014398509481984"]) simp_all

lemma b64_op_155:
  "div64 (5616039146613295 / 18014398509481984) (6199179681434345 / 9007199254740992) =
     4079957850509293 / 9007199254740992"
  unfolding div64_def
  by (rule rnd_value[where e = "- 2" and m = "8159915701018586" and lo = "1 / 4"
        and u = "1 / 18014398509481984"]) simp_all

lemma b64_op_156:
  "div64 (4132786454289563 / 18014398509481984) (6199179681434345 / 9007199254740992) =
     6004799503160661 / 18014398509481984"
  unfolding div64_def
  by (rule rnd_value[where e = "- 2" and m = "6004799503160661" and lo = "1 / 4"
        and u = "1 / 18014398509481984"]) simp_all

lemma b64_op_157:
  "div64 (6199179681434345 / 9007199254740992) (6199179681434345 / 9007199254740992) =
     1"
  unfolding div64_def
  by (rule rnd_value[where e = "0" and m = "4503599627370496" and lo = "1"
        and u = "1 / 4503599627370496"]) simp_all

lemma b64_op_158:
  "mul64 (4079957850509293 / 9007199254740992) (4079957850509293 / 9007199254740992) =
     7392333883663409 / 36028797018963968"
  unfolding mul64_def
  by (rule rnd_value[where e = "- 3" and m = "7392333883663409" and lo = "1 / 8"
        and u = "1 / 36028797018963968"]) simp_all

lemma b64_op_159:
  "add64 (7392333883663409 / 36028797018963968) (2001599834386887 / 18014398509481984) =
     178055211756831 / 562949953421312"
  unfolding add64_def
  by (rule rnd_tie[where e = "- 2" and f = "5697766776218591" and lo = "1 / 4"
        and u = "1 / 18014398509481984"]) simp_all

lemma b64_op_160:
  "add64 (178055211756831 / 562949953421312) 1 =
     741005165178143 / 562949953421312"
  unfolding add64_def
  by (rule rnd_value[where e = "0" and m = "5928041321425144" and lo = "1"
        and u = "1 / 4503599627370496"]) simp_all

lemma b64_op_161:
  "div64 2 (741005165178143 / 562949953421312) =
     6842870521278901 / 4503599627370496"
  unfolding div64_def
  by (rule rnd_value[where e = "0" and m = "6842870521278901" and lo = "1"
        and u = "1 / 4503599627370496"]) simp_all

lemma b64_op_162:
  "mul64 (27 / 16) (4079957850509293 / 9007199254740992) =
     215154027272951 / 281474976710656"
  unfolding mul64_def
  by (rule rnd_value[where e = "- 1" and m = "6884928872734432" and lo = "1 / 2"
        and u = "1 / 9007199254740992"]) simp_all

lemma b64_op_163: "mul64 (- (9 / 16)) (6004799503160661 / 18014398509481984) = - (3 / 16)"
  unfolding mul64_def
  by (rule rnd_value[where e = "- 3" and m = "- 6755399441055744" and lo = "1 / 8"
        and u = "1 / 36028797018963968"]) simp_all

lemma b64_op_164:
  "add64 (215154027272951 / 281474976710656) (- (3 / 16)) =
     162377469139703 / 281474976710656"
  unfolding add64_def
  by (rule rnd_value[where e = "- 1" and m = "5196079012470496" and lo = "1 / 2"
        and u = "1 / 9007199254740992"]) simp_all

lemma b64_op_165: "mul64 (- (27 / 16)) 1 = - (27 / 16)"
  unfolding mul64_def
  by (rule rnd_value[where e = "0" and m = "- 7599824371187712" and lo = "1"
        and u = "1 / 4503599627370496"]) simp_all

lemma b64_op_166:
  "add64 (162377469139703 / 281474976710656) (- (27 / 16)) =
     - (312611554059529 / 281474976710656)"
  unfolding add64_def
  by (rule rnd_value[where e = "0" and m = "- 5001784864952464" and lo = "1"
        and u = "1 / 4503599627370496"]) simp_all

lemma b64_op_167:
  "mul64 (6842870521278901 / 4503599627370496) (- (312611554059529 / 281474976710656)) =
     - (3799912185593855 / 2251799813685248)"
  unfolding mul64_def
  by (rule rnd_value[where e = "0" and m = "- 7599824371187710" and lo = "1"
        and u = "1 / 4503599627370496"]) simp_all

lemma b64_op_168:
  "mul64 (- (9 / 16)) (4079957850509293 / 9007199254740992) =
     - (4589952581822955 / 18014398509481984)"
  unfolding mul64_def
  by (rule rnd_value[where e = "- 2" and m = "- 4589952581822955" and lo = "1 / 4"
        and u = "1 / 18014398509481984"]) simp_all

lemma b64_op_169: "mul64 (3 / 16) (6004799503160661 / 18014398509481984) = 1 / 16"
  unfolding mul64_def
  by (rule rnd_tie[where e = "- 5" and f = "9007199254740991" and lo = "1 / 32"
        and u = "1 / 144115188075855872"]) simp_all

lemma b64_op_170:
  "add64 (- (4589952581822955 / 18014398509481984)) (1 / 16) =
     - (3464052674980331 / 18014398509481984)"
  unfolding add64_def
  by (rule rnd_value[where e = "- 3" and m = "- 6928105349960662" and lo = "1 / 8"
        and u = "1 / 36028797018963968"]) simp_all

lemma b64_op_171: "mul64 (9 / 16) 1 = 9 / 16"
  unfolding mul64_def
  by (rule rnd_value[where e = "- 1" and m = "5066549580791808" and lo = "1 / 2"
        and u = "1 / 9007199254740992"]) simp_all

lemma b64_op_172:
  "add64 (- (3464052674980331 / 18014398509481984)) (9 / 16) =
     6669046486603285 / 18014398509481984"
  unfolding add64_def
  by (rule rnd_value[where e = "- 2" and m = "6669046486603285" and lo = "1 / 4"
        and u = "1 / 18014398509481984"]) simp_all

lemma b64_op_173:
  "mul64 (6842870521278901 / 4503599627370496) (6669046486603285 / 18014398509481984) =
     2533274790395903 / 4503599627370496"
  unfolding mul64_def
  by (rule rnd_value[where e = "- 1" and m = "5066549580791806" and lo = "1 / 2"
        and u = "1 / 9007199254740992"]) simp_all

lemma b64_op_174:
  "mul64 (- (27 / 16)) (4079957850509293 / 9007199254740992) =
     - (215154027272951 / 281474976710656)"
  unfolding mul64_def
  by (rule rnd_value[where e = "- 1" and m = "- 6884928872734432" and lo = "1 / 2"
        and u = "1 / 9007199254740992"]) simp_all

lemma b64_op_175: "mul64 (9 / 16) (6004799503160661 / 18014398509481984) = 3 / 16"
  unfolding mul64_def
  by (rule rnd_value[where e = "- 3" and m = "6755399441055744" and lo = "1 / 8"
        and u = "1 / 36028797018963968"]) simp_all

lemma b64_op_176:
  "add64 (- (215154027272951 / 281474976710656)) (3 / 16) =
     - (162377469139703 / 281474976710656)"
  unfolding add64_def
  by (rule rnd_value[where e = "- 1" and m = "- 5196079012470496" and lo = "1 / 2"
        and u = "1 / 9007199254740992"]) simp_all

lemma b64_op_177: "mul64 (27 / 16) 1 = 27 / 16"
  unfolding mul64_def
  by (rule rnd_value[where e = "0" and m = "7599824371187712" and lo = "1"
        and u = "1 / 4503599627370496"]) simp_all

lemma b64_op_178:
  "add64 (- (162377469139703 / 281474976710656)) (27 / 16) =
     312611554059529 / 281474976710656"
  unfolding add64_def
  by (rule rnd_value[where e = "0" and m = "5001784864952464" and lo = "1"
        and u = "1 / 4503599627370496"]) simp_all

lemma b64_op_179:
  "mul64 (6842870521278901 / 4503599627370496) (312611554059529 / 281474976710656) =
     3799912185593855 / 2251799813685248"
  unfolding mul64_def
  by (rule rnd_value[where e = "0" and m = "7599824371187710" and lo = "1"
        and u = "1 / 4503599627370496"]) simp_all

lemma b64_op_180:
  "div64 (6842870521278901 / 4503599627370496) 2 =
     6842870521278901 / 9007199254740992"
  unfolding div64_def
  by (rule rnd_value[where e = "- 1" and m = "6842870521278901" and lo = "1 / 2"
        and u = "1 / 9007199254740992"]) simp_all

lemma b64_op_181:
  "mul64 (4079957850509293 / 9007199254740992) (- (3799912185593855 / 2251799813685248)) =
     - (3442464436367215 / 4503599627370496)"
  unfolding mul64_def
  by (rule rnd_value[where e = "- 1" and m = "- 6884928872734430" and lo = "1 / 2"
        and u = "1 / 9007199254740992"]) simp_all

lemma b64_op_182:
  "mul64 (6004799503160661 / 18014398509481984) (2533274790395903 / 4503599627370496) =
     6755399441055741 / 36028797018963968"
  unfolding mul64_def
  by (rule rnd_value[where e = "- 3" and m = "6755399441055741" and lo = "1 / 8"
        and u = "1 / 36028797018963968"]) simp_all

lemma b64_op_183:
  "add64 (- (3442464436367215 / 4503599627370496)) (6755399441055741 / 36028797018963968) =
     - (5196079012470495 / 9007199254740992)"
  unfolding add64_def
  by (rule rnd_value[where e = "- 1" and m = "- 5196079012470495" and lo = "1 / 2"
        and u = "1 / 9007199254740992"]) simp_all

lemma b64_op_184:
  "mul64 1 (3799912185593855 / 2251799813685248) =
     3799912185593855 / 2251799813685248"
  unfolding mul64_def
  by (rule rnd_value[where e = "0" and m = "7599824371187710" and lo = "1"
        and u = "1 / 4503599627370496"]) simp_all

lemma b64_op_185:
  "add64 (- (5196079012470495 / 9007199254740992)) (3799912185593855 / 2251799813685248) =
     2500892432476231 / 2251799813685248"
  unfolding add64_def
  by (rule rnd_tie[where e = "0" and f = "5001784864952462" and lo = "1"
        and u = "1 / 4503599627370496"]) simp_all

lemma b64_op_186:
  "mul64 (6842870521278901 / 9007199254740992) (2500892432476231 / 2251799813685248) =
     7599824371187707 / 9007199254740992"
  unfolding mul64_def
  by (rule rnd_value[where e = "- 1" and m = "7599824371187707" and lo = "1 / 2"
        and u = "1 / 9007199254740992"]) simp_all

lemma b64_op_187:
  "mul64 (7599824371187707 / 9007199254740992) (4079957850509293 / 9007199254740992) =
     6884928872734427 / 18014398509481984"
  unfolding mul64_def
  by (rule rnd_value[where e = "- 2" and m = "6884928872734427" and lo = "1 / 4"
        and u = "1 / 18014398509481984"]) simp_all

lemma b64_op_188:
  "sub64 (- (3799912185593855 / 2251799813685248)) (6884928872734427 / 18014398509481984) =
     - (2330264147342829 / 1125899906842624)"
  unfolding sub64_def
  by (rule rnd_value[where e = "1" and m = "- 4660528294685658" and lo = "2"
        and u = "1 / 2251799813685248"]) simp_all

lemma b64_op_189:
  "mul64 (7599824371187707 / 9007199254740992) (6004799503160661 / 18014398509481984) =
     1266637395197951 / 4503599627370496"
  unfolding mul64_def
  by (rule rnd_value[where e = "- 2" and m = "5066549580791804" and lo = "1 / 4"
        and u = "1 / 18014398509481984"]) simp_all

lemma b64_op_190:
  "sub64 (2533274790395903 / 4503599627370496) (1266637395197951 / 4503599627370496) =
     9 / 32"
  unfolding sub64_def
  by (rule rnd_value[where e = "- 2" and m = "5066549580791808" and lo = "1 / 4"
        and u = "1 / 18014398509481984"]) simp_all

lemma b64_op_191:
  "mul64 (7599824371187707 / 9007199254740992) 1 =
     7599824371187707 / 9007199254740992"
  unfolding mul64_def
  by (rule rnd_value[where e = "- 1" and m = "7599824371187707" and lo = "1 / 2"
        and u = "1 / 9007199254740992"]) simp_all

lemma b64_op_192:
  "sub64 (3799912185593855 / 2251799813685248) (7599824371187707 / 9007199254740992) =
     7599824371187713 / 9007199254740992"
  unfolding sub64_def
  by (rule rnd_value[where e = "- 1" and m = "7599824371187713" and lo = "1 / 2"
        and u = "1 / 9007199254740992"]) simp_all

lemma b64_op_193:
  "mul64 2 (4079957850509293 / 9007199254740992) =
     4079957850509293 / 4503599627370496"
  unfolding mul64_def
  by (rule rnd_value[where e = "- 1" and m = "8159915701018586" and lo = "1 / 2"
        and u = "1 / 9007199254740992"]) simp_all

lemma b64_op_194:
  "mul64 (4079957850509293 / 4503599627370496) (- (2330264147342829 / 1125899906842624)) =
     - (8444249301319679 / 4503599627370496)"
  unfolding mul64_def
  by (rule rnd_value[where e = "0" and m = "- 8444249301319679" and lo = "1"
        and u = "1 / 4503599627370496"]) simp_all

lemma b64_op_195: "sub64 (27 / 16) (- (8444249301319679 / 4503599627370496)) = 57 / 16"
  unfolding sub64_def
  by (rule rnd_tie[where e = "1" and f = "8022036836253695" and lo = "2"
        and u = "1 / 2251799813685248"]) simp_all

lemma b64_op_196:
  "mul64 2 (6004799503160661 / 18014398509481984) =
     6004799503160661 / 9007199254740992"
  unfolding mul64_def
  by (rule rnd_value[where e = "- 1" and m = "6004799503160661" and lo = "1 / 2"
        and u = "1 / 9007199254740992"]) simp_all

lemma b64_op_197: "mul64 (6004799503160661 / 9007199254740992) (9 / 32) = 3 / 16"
  unfolding mul64_def
  by (rule rnd_value[where e = "- 3" and m = "6755399441055744" and lo = "1 / 8"
        and u = "1 / 36028797018963968"]) simp_all

lemma b64_op_198: "sub64 (3 / 16) (3 / 16) = 0"
  by (simp add: sub64_def rnd_zero)

lemma b64_op_199:
  "mul64 (6004799503160661 / 18014398509481984) (7599824371187713 / 9007199254740992) =
     9 / 32"
  unfolding mul64_def
  by (rule rnd_value[where e = "- 2" and m = "5066549580791808" and lo = "1 / 4"
        and u = "1 / 18014398509481984"]) simp_all

lemma b64_op_200: "mul64 1 (9 / 32) = 9 / 32"
  unfolding mul64_def
  by (rule rnd_value[where e = "- 2" and m = "5066549580791808" and lo = "1 / 4"
        and u = "1 / 18014398509481984"]) simp_all

lemma b64_op_201: "add64 (9 / 32) (9 / 32) = 9 / 16"
  unfolding add64_def
  by (rule rnd_value[where e = "- 1" and m = "5066549580791808" and lo = "1 / 2"
        and u = "1 / 9007199254740992"]) simp_all

lemma b64_op_202: "sub64 (9 / 16) (9 / 16) = 0"
  by (simp add: sub64_def rnd_zero)

lemma b64_op_203: "mul64 2 1 = 2"
  unfolding mul64_def
  by (rule rnd_value[where e = "1" and m = "4503599627370496" and lo = "2"
        and u = "1 / 2251799813685248"]) simp_all

lemma b64_op_204:
  "mul64 2 (7599824371187713 / 9007199254740992) =
     7599824371187713 / 4503599627370496"
  unfolding mul64_def
  by (rule rnd_value[where e = "0" and m = "7599824371187713" and lo = "1"
        and u = "1 / 4503599627370496"]) simp_all

lemma b64_op_205:
  "sub64 (27 / 16) (7599824371187713 / 4503599627370496) =
     - (1 / 4503599627370496)"
  unfolding sub64_def
  by (rule rnd_value[where e = "- 52" and m = "- 4503599627370496" and lo = "1 / 4503599627370496"
        and u = "1 / 20282409603651670423947251286016"]) simp_all

lemma b64_op_206: "sqrt64 0 = 0"
  by (simp add: sqrt64_def rnd_zero)

lemma b64_op_207: "mul64 0 4 = 0"
  by (simp add: mul64_def rnd_zero)

lemma b64_op_208: "sqrt64 (1 / 4503599627370496) = 1 / 67108864"
  unfolding sqrt64_def
  by (rule rnd_sqrt_value[where e = "- 26" and m = "4503599627370496" and lo = "1 / 67108864"
        and u = "1 / 302231454903657293676544"]) simp_all

lemma b64_op_209: "mul64 (1 / 67108864) 4 = 1 / 16777216"
  unfolding mul64_def
  by (rule rnd_value[where e = "- 24" and m = "4503599627370496" and lo = "1 / 16777216"
        and u = "1 / 75557863725914323419136"]) simp_all

lemmas b64_ops = b64_op_1 b64_op_2 b64_op_3 b64_op_4 b64_op_5 b64_op_6 b64_op_7 b64_op_8
  b64_op_9 b64_op_10 b64_op_11 b64_op_12 b64_op_13 b64_op_14 b64_op_15 b64_op_16 b64_op_17
  b64_op_18 b64_op_19 b64_op_20 b64_op_21 b64_op_22 b64_op_23 b64_op_24 b64_op_25 b64_op_26
  b64_op_27 b64_op_28 b64_op_29 b64_op_30 b64_op_31 b64_op_32 b64_op_33 b64_op_34 b64_op_35
  b64_op_36 b64_op_37 b64_op_38 b64_op_39 b64_op_40 b64_op_41 b64_op_42 b64_op_43 b64_op_44
  b64_op_45 b64_op_46 b64_op_47 b64_op_48 b64_op_49 b64_op_50 b64_op_51 b64_op_52 b64_op_53
  b64_op_54 b64_op_55 b64_op_56 b64_op_57 b64_op_58 b64_op_59 b64_op_60 b64_op_61 b64_op_62
  b64_op_63 b64_op_64 b64_op_65 b64_op_66 b64_op_67 b64_op_68 b64_op_69 b64_op_70 b64_op_71
  b64_op_72 b64_op_73 b64_op_74 b64_op_75 b64_op_76 b64_op_77 b64_op_78 b64_op_79 b64_op_80
  b64_op_81 b64_op_82 b64_op_83 b64_op_84 b64_op_85 b64_op_86 b64_op_87 b64_op_88 b64_op_89
  b64_op_90 b64_op_91 b64_op_92 b64_op_93 b64_op_94 b64_op_95 b64_op_96 b64_op_97 b64_op_98
  b64_op_99 b64_op_100 b64_op_101 b64_op_102 b64_op_103 b64_op_104 b64_op_105 b64_op_106
  b64_op_107 b64_op_108 b64_op_109 b64_op_110 b64_op_111 b64_op_112 b64_op_113 b64_op_114
  b64_op_115 b64_op_116 b64_op_117 b64_op_118 b64_op_119 b64_op_120 b64_op_121 b64_op_122
  b64_op_123 b64_op_124 b64_op_125 b64_op_126 b64_op_127 b64_op_128 b64_op_129 b64_op_130
  b64_op_131 b64_op_132 b64_op_133 b64_op_134 b64_op_135 b64_op_136 b64_op_137 b64_op_138
  b64_op_139 b64_op_140 b64_op_141 b64_op_142 b64_op_143 b64_op_144 b64_op_145 b64_op_146
  b64_op_147 b64_op_148 b64_op_149 b64_op_150 b64_op_151 b64_op_152 b64_op_153 b64_op_154
  b64_op_155 b64_op_156 b64_op_157 b64_op_158 b64_op_159 b64_op_160 b64_op_161 b64_op_162
  b64_op_163 b64_op_164 b64_op_165 b64_op_166 b64_op_167 b64_op_168 b64_op_169 b64_op_170
  b64_op_171 b64_op_172 b64_op_173 b64_op_174 b64_op_175 b64_op_176 b64_op_177 b64_op_178
  b64_op_179 b64_op_180 b64_op_181 b64_op_182 b64_op_183 b64_op_184 b64_op_185 b64_op_186
  b64_op_187 b64_op_188 b64_op_189 b64_op_190 b64_op_191 b64_op_192 b64_op_193 b64_op_194
  b64_op_195 b64_op_196 b64_op_197 b64_op_198 b64_op_199 b64_op_200 b64_op_201 b64_op_202
  b64_op_203 b64_op_204 b64_op_205 b64_op_206 b64_op_207 b64_op_208 b64_op_209

subsubsection \<open>The routines on the rank-one input\<close>

text \<open>The scaling factor is 4. The Gram matrix of the scaled input is
  \<open>B = (3/16, -9/16, 9/16; -9/16, 27/16, -27/16; 9/16, -27/16, 27/16)\<close>, with
  \<open>aa = 19/16\<close>, \<open>Q = 361/256\<close> and \<open>R = -6859/4096\<close>, all exact; \<open>|R| \<ge> Q sqrt Q\<close> selects
  the branch with the separated root \<open>aa + r\<close>, \<open>r = 19/8\<close>. The kernel vector of
  \<open>B - (aa + r) I\<close> and the Householder reflection are rounded, and the deflated matrix
  has the diagonal \<open>(57/16, 0, -2^-52)\<close> with the off-diagonal entry \<open>0\<close>, so that
  \<^verbatim>\<open>Eigenvalues2S\<close> leaves it as it is.\<close>

lemma KernelVector3S_col_b64_at_1:
  "KernelVector3S_col_b64 (- (9 / 16)) (9 / 16) (- (27 / 16)) (- (27 / 8)) (- (15 / 8))
     (- (15 / 8)) =
     (1, 9 / 2)"
  by (simp add: KernelVector3S_col_b64_def Let_def fabs_def copysign_def b64_ops
        cong: let_arg_cong)

lemma KernelVector3G_eliminate_b64_at_1:
  "KernelVector3G_eliminate_b64 (- (27 / 8)) (- (15 / 8)) (- (15 / 8)) (- (9 / 16)) (9 / 16)
     (- (27 / 16)) (- (9 / 16)) (9 / 16) (- (27 / 16)) =
     (- (7808077295642405 / 2251799813685248), - (57 / 32), - (57 / 32),
      - (5205384863761603 / 9007199254740992), 5205384863761603 / 9007199254740992,
      - (57 / 32), - (57 / 32))"
  by (simp add: KernelVector3G_eliminate_b64_def Let_def fabs_def copysign_def b64_ops
        cong: let_arg_cong)

lemma KernelVector2G_eliminate_b64_at_1:
  "KernelVector2G_eliminate_b64 (- (57 / 32)) (- (57 / 32)) (- (57 / 32)) (- (57 / 32)) =
     (- (2836218322921633 / 1125899906842624), - (2836218322921633 / 1125899906842624),
      0)"
  by (simp add: KernelVector2G_eliminate_b64_def Let_def fabs_def copysign_def b64_ops
        cong: let_arg_cong)

lemma KernelVector2G_solve_b64_at_1:
  "KernelVector2G_solve_b64 (- (2836218322921633 / 1125899906842624))
     (- (2836218322921633 / 1125899906842624)) 0 =
     (- (1 / 2), 1 / 2)"
  by (simp add: KernelVector2G_solve_b64_def Let_def fabs_def copysign_def b64_ops
        cong: let_arg_cong)

lemma KernelVector2G_b64_at_1:
  "KernelVector2G_b64 1 (- (57 / 32)) (- (57 / 32)) (- (57 / 32)) (- (57 / 32)) =
     (False, - (1 / 2), - (2836218322921633 / 1125899906842624), - (57 / 32), 1 / 2)"
  by (simp add: KernelVector2G_b64_def Let_def fabs_def copysign_def KernelVector2G_pivot_def
      b64_ops KernelVector2G_eliminate_b64_at_1 KernelVector2G_solve_b64_at_1
        cong: let_arg_cong)

lemma vec_normalize3_aux_b64_at_1:
  "vec_normalize3_aux_b64 (- (1 / 2)) (6004799503160661 / 36028797018963968) (1 / 2) =
     (- (6199179681434345 / 9007199254740992), 4132786454289563 / 18014398509481984,
      6199179681434345 / 9007199254740992)"
  by (simp add: vec_normalize3_aux_b64_def Let_def fabs_def copysign_def b64_ops
        cong: let_arg_cong)

lemma vec_normalize3_b64_at_1:
  "vec_normalize3_b64 (6004799503160661 / 36028797018963968) (- (1 / 2)) (1 / 2) =
     (4132786454289563 / 18014398509481984, - (6199179681434345 / 9007199254740992),
      6199179681434345 / 9007199254740992)"
  by (simp add: vec_normalize3_b64_def Let_def fabs_def copysign_def b64_ops
      vec_normalize3_aux_b64_at_1
        cong: let_arg_cong)

lemma KernelVector3G_aux_b64_at_1:
  "KernelVector3G_aux_b64 1 (- (27 / 8)) (- (15 / 8)) (- (15 / 8)) (- (9 / 16)) (9 / 16)
     (- (27 / 16)) (- (9 / 16)) (9 / 16) (- (27 / 16)) =
     (1, 4132786454289563 / 18014398509481984, - (6199179681434345 / 9007199254740992),
      6199179681434345 / 9007199254740992)"
  by (simp add: KernelVector3G_aux_b64_def Let_def fabs_def copysign_def b64_ops
      KernelVector3G_eliminate_b64_at_1 KernelVector2G_b64_at_1 vec_normalize3_b64_at_1
        cong: let_arg_cong)

lemma KernelVector3S_b64_at_1:
  "KernelVector3S_b64 1 (- (9 / 16)) (9 / 16) (- (27 / 16)) (- (27 / 8)) (- (15 / 8))
     (- (15 / 8)) =
     (1, 4132786454289563 / 18014398509481984, - (6199179681434345 / 9007199254740992),
      6199179681434345 / 9007199254740992)"
  by (simp add: KernelVector3S_b64_def Let_def fabs_def copysign_def KernelVector3S_row_def
      b64_ops KernelVector3S_col_b64_at_1 KernelVector3G_aux_b64_at_1
        cong: let_arg_cong)

lemma Reduce3S_reflect_b64_at_1:
  "Reduce3S_reflect_b64 (27 / 16) (3 / 16) (27 / 16) (- (9 / 16)) (- (27 / 16)) (9 / 16)
     (- (6199179681434345 / 9007199254740992)) (4132786454289563 / 18014398509481984)
     (6199179681434345 / 9007199254740992) =
     ((57 / 16, 0, - (1 / 4503599627370496), 0), (4079957850509293 / 9007199254740992,
      6004799503160661 / 18014398509481984, 1, 6842870521278901 / 4503599627370496))"
  by (simp add: Reduce3S_reflect_b64_def Let_def fabs_def copysign_def b64_ops
        cong: let_arg_cong)

lemma Reduce3S_b64_at_1:
  "Reduce3S_b64 1 (3 / 16) (27 / 16) (27 / 16) (- (9 / 16)) (9 / 16) (- (27 / 16))
     (4132786454289563 / 18014398509481984) (- (6199179681434345 / 9007199254740992))
     (6199179681434345 / 9007199254740992) =
     \<lparr> r_k = 2,
       r_d1 = 57 / 16,
       r_d2 = 0,
       r_d3 = - (1 / 4503599627370496),
       r_d12 = - (9 / 16),
       r_d13 = - (27 / 16),
       r_d23 = 0,
       r_z1 = 4132786454289563 / 18014398509481984,
       r_z2 = - (6199179681434345 / 9007199254740992),
       r_z3 = 6199179681434345 / 9007199254740992,
       r_v1 = 4079957850509293 / 9007199254740992,
       r_v2 = 6004799503160661 / 18014398509481984,
       r_v3 = 1,
       r_g = 6842870521278901 / 4503599627370496 \<rparr>"
  by (simp add: Reduce3S_b64_def Let_def fabs_def copysign_def Reduce3S_k_def b64_ops
      Reduce3S_reflect_b64_at_1
        cong: let_arg_cong)

lemma Eigenvalues2S_b64_at_1:
  "Eigenvalues2S_b64 0 0 (- (1 / 4503599627370496)) =
     (0, - (1 / 4503599627370496))"
  by (simp add: Eigenvalues2S_b64_def Let_def fabs_def copysign_def signbit_quotient_def
      copysign_signbit_def sqrt_1_eps_def b64_ops
        cong: let_arg_cong)

lemma CalcSingularvalue_3_reduce_b64_at_1:
  "CalcSingularvalue_3_reduce_b64 1 (19 / 16) (19 / 8) (- 1) (1 / 2) (1 / 2) (3 / 16)
     (27 / 16) (27 / 16) (- (9 / 16)) (9 / 16) (- (27 / 16)) =
     0"
  by (simp add: CalcSingularvalue_3_reduce_b64_def Let_def fabs_def copysign_def b64_ops
      KernelVector3S_b64_at_1 Reduce3S_b64_at_1 Eigenvalues2S_b64_at_1
        cong: let_arg_cong)

lemma CalcSingularvalue_3_root_b64_at_1:
  "CalcSingularvalue_3_root_b64 1 (19 / 16) (- 1) (1 / 2) (1 / 2) (361 / 256)
     (- (6859 / 4096)) (3 / 16) (27 / 16) (27 / 16) (- (9 / 16)) (9 / 16) (- (27 / 16)) =
     0"
  by (simp add: CalcSingularvalue_3_root_b64_def Let_def fabs_def copysign_def b64_ops
      CalcSingularvalue_3_reduce_b64_at_1
        cong: let_arg_cong)

lemma CalcSingularvalue_3_reduce_b64_at_2:
  "CalcSingularvalue_3_reduce_b64 2 (19 / 16) (19 / 8) (- 1) (1 / 2) (1 / 2) (3 / 16)
     (27 / 16) (27 / 16) (- (9 / 16)) (9 / 16) (- (27 / 16)) =
     - (1 / 4503599627370496)"
  by (simp add: CalcSingularvalue_3_reduce_b64_def Let_def fabs_def copysign_def b64_ops
      KernelVector3S_b64_at_1 Reduce3S_b64_at_1 Eigenvalues2S_b64_at_1
        cong: let_arg_cong)

lemma CalcSingularvalue_3_root_b64_at_2:
  "CalcSingularvalue_3_root_b64 2 (19 / 16) (- 1) (1 / 2) (1 / 2) (361 / 256)
     (- (6859 / 4096)) (3 / 16) (27 / 16) (27 / 16) (- (9 / 16)) (9 / 16) (- (27 / 16)) =
     - (1 / 4503599627370496)"
  by (simp add: CalcSingularvalue_3_root_b64_def Let_def fabs_def copysign_def b64_ops
      CalcSingularvalue_3_reduce_b64_at_1 CalcSingularvalue_3_reduce_b64_at_2
        cong: let_arg_cong)

lemma CalcSingularvalue_3_b64_index_1:
  "CalcSingularvalue_3_b64 [- 1, 1, 1, 3, - 3, - 3, - 3, 3, 3] 1 = 0"
  by (simp add: CalcSingularvalue_3_b64_def Let_def fabs_def max_update_def GetScalingFactor_3
      b64_ops CalcSingularvalue_3_root_b64_at_1 cong: let_arg_cong)

lemma CalcSingularvalue_3_b64_index_2:
  "CalcSingularvalue_3_b64 [- 1, 1, 1, 3, - 3, - 3, - 3, 3, 3] 2 = 1 / 16777216"
  by (simp add: CalcSingularvalue_3_b64_def Let_def fabs_def max_update_def GetScalingFactor_3
      b64_ops CalcSingularvalue_3_root_b64_at_2 cong: let_arg_cong)

text \<open>
  Claim C4, the singular values: \<^verbatim>\<open>CalcSingularvalue(i)\<close> should not increase with the
  index \<open>i\<close>. In binary64 arithmetic the 3x3 branch returns \<open>0\<close> for the index 1 and
  \<open>2^-24\<close> (about \<open>5.96e-08\<close>) for the index 2 on the matrix of rank one stored as
  \<open>[-1, 1, 1, 3, -3, -3, -3, 3, 3]\<close>: the value at the index 2, which should be the
  smallest, exceeds the one at the index 1. The deflated eigenvalues are \<open>57/16\<close>, \<open>0\<close> and
  the negative residue \<open>-2^-52\<close>; the code takes the middle and the minimum of the signed
  values, \<open>0\<close> and \<open>-2^-52\<close>, and applies \<^verbatim>\<open>fabs\<close> and the square root afterwards (the
  source asks \<^verbatim>\<open>take abs before we sort?\<close> at that statement), which reverses their order.
\<close>

theorem CalcSingularvalue_3_b64_not_ordered:
  "CalcSingularvalue_3_b64 [- 1, 1, 1, 3, - 3, - 3, - 3, 3, 3] 1 = 0 \<and>
   CalcSingularvalue_3_b64 [- 1, 1, 1, 3, - 3, - 3, - 3, 3, 3] 2 = 1 / 16777216 \<and>
   CalcSingularvalue_3_b64 [- 1, 1, 1, 3, - 3, - 3, - 3, 3, 3] 1 <
     CalcSingularvalue_3_b64 [- 1, 1, 1, 3, - 3, - 3, - 3, 3, 3] 2"
  by (simp add: CalcSingularvalue_3_b64_index_1 CalcSingularvalue_3_b64_index_2)

end
